(* ===== verification/GoBase.thy ===== *)
theory GoBase
  imports Main "HOL-Library.Word" "HOL-Library.Code_Target_Nat"
begin

text \<open>
  The prelude of the development.  It fixes how the Go code under src/ is read in HOL and collects
  the library functions the components share:

  \<^item> bytes and fixed-width integers (\<open>byte\<close>, \<open>u16\<close>, \<open>u32\<close>, \<open>u64\<close>) are words, so \<open>+\<close> and the
    conversions wrap as in Go; a \<open>[]byte\<close> is a list of bytes; a Go string is a byte sequence, so it is
    HOL's \<open>string\<close>, whose characters are bytes; slice lengths and offsets are \<open>nat\<close> (they are bounded
    by the memory of the process, far below the range of a 64-bit \<open>int\<close>);
  \<^item> the functions of Go's packages \<^verbatim>\<open>strings\<close>, \<^verbatim>\<open>unicode/utf8\<close>, \<^verbatim>\<open>strconv\<close>, \<^verbatim>\<open>encoding/hex\<close> and
    \<^verbatim>\<open>encoding/binary\<close> that the source calls, written out as recursive functions;
  \<^item> what cannot be computed inside the model is a field of the record \<open>golib\<close>, passed to the
    operations that use it: the Unicode tables for code points of 128 and above (case and printability), the
    authenticated encryption and the signature checks of package \<^verbatim>\<open>crypto\<close>.

  The theory ends with the invariant principle for transition systems, a locale that every stateful
  component interprets.
\<close>

unbundle bit_operations_syntax

named_theorems go_simps \<open>equations of the Go library functions\<close>
named_theorems wire_simps \<open>content equations of the DNS wire writer\<close>

section \<open>Machine types\<close>

type_synonym byte = "8 word"
type_synonym bytes = "byte list"
type_synonym u16 = "16 word"
type_synonym u32 = "32 word"
type_synonym u64 = "64 word"

text \<open>A run-time panic of Go is a value of its own: \<open>Panic\<close>.\<close>

datatype 'a outcome = Ret 'a | Panic

section \<open>Parameters of the model\<close>

record golib =
  uniLower :: "nat \<Rightarrow> nat"
  uniUpper :: "nat \<Rightarrow> nat"
  uniPrint :: "nat \<Rightarrow> bool"
  GcmSeal :: "bytes \<Rightarrow> bytes \<Rightarrow> bytes \<Rightarrow> bytes"
  GcmOpen :: "bytes \<Rightarrow> bytes \<Rightarrow> bytes \<Rightarrow> bytes option"
  RsaVerify :: "nat \<Rightarrow> int \<Rightarrow> bytes \<Rightarrow> bytes \<Rightarrow> bool"
  EcdsaVerify :: "nat \<Rightarrow> nat \<Rightarrow> bytes \<Rightarrow> nat \<Rightarrow> nat \<Rightarrow> bool"

text \<open>Go's integer division truncates towards zero.\<close>

definition go_quot :: "int \<Rightarrow> int \<Rightarrow> int" where
  "go_quot a b = (if (a < 0) = (b < 0) then \<bar>a\<bar> div \<bar>b\<bar> else - (\<bar>a\<bar> div \<bar>b\<bar>))"

lemma go_quot_nonneg: "0 \<le> a \<Longrightarrow> 0 < b \<Longrightarrow> go_quot a b = a div b"
  by (simp add: go_quot_def)

text \<open>An instance of the parameters, for the concrete runs of the development.\<close>

definition example_lib :: golib where
  "example_lib =
     \<lparr>uniLower = id, uniUpper = id, uniPrint = (\<lambda>_. False),
      GcmSeal = (\<lambda>key nonce p. p @ replicate 16 0),
      GcmOpen = (\<lambda>key nonce s. if length s < 16 then None else Some (take (length s - 16) s)),
      RsaVerify = (\<lambda>n e hash sig. False), EcdsaVerify = (\<lambda>x y hash r s. False)\<rparr>"

section \<open>Strings and bytes\<close>

definition bytes_of :: "string \<Rightarrow> bytes" where
  "bytes_of s = map of_char s"

definition string_of :: "bytes \<Rightarrow> string" where
  "string_of b = map (\<lambda>x. char_of (unat x)) b"

lemma of_char_word_inverse [simp]: "char_of (unat (of_char c :: byte)) = (c :: char)"
proof -
  have "unat (of_char c :: byte) = of_char c"
    by (cases c) (simp add: unat_of_nat)
  then show ?thesis by simp
qed


lemma unat_byte_less [simp]: "unat (x :: byte) < 256"
  by (rule order_less_le_trans [OF unsigned_less]) simp

lemma of_char_unat [simp]: "(of_char (char_of (unat x)) :: byte) = x"
proof -
  have "(of_char (char_of (unat x) :: char) :: byte) = of_nat (of_char (char_of (unat x) :: char))"
    by (simp only: of_nat_of_char)
  also have "\<dots> = of_nat (unat x mod 256)" by simp
  also have "\<dots> = x" by simp
  finally show ?thesis .
qed

lemma string_of_bytes_of [simp]: "string_of (bytes_of s) = s"
  by (simp add: string_of_def bytes_of_def comp_def)

lemma bytes_of_string_of [simp]: "bytes_of (string_of b) = b"
  by (simp add: string_of_def bytes_of_def comp_def)

lemma length_bytes_of [simp]: "length (bytes_of s) = length s"
  by (simp add: bytes_of_def)

lemma length_string_of [simp]: "length (string_of b) = length b"
  by (simp add: string_of_def)

lemma bytes_of_eq_iff [simp]: "bytes_of s = bytes_of t \<longleftrightarrow> s = t"
  by (metis string_of_bytes_of)

abbreviation code :: "char \<Rightarrow> nat" where
  "code c \<equiv> of_char c"

section \<open>Package strings\<close>

text \<open>\<^verbatim>\<open>strings.HasPrefix\<close>, \<^verbatim>\<open>HasSuffix\<close>, \<^verbatim>\<open>TrimSuffix\<close>, \<^verbatim>\<open>TrimPrefix\<close>.\<close>

fun HasPrefix :: "'a list \<Rightarrow> 'a list \<Rightarrow> bool" where
  "HasPrefix _ [] = True"
| "HasPrefix [] (p # ps) = False"
| "HasPrefix (c # cs) (p # ps) = (c = p \<and> HasPrefix cs ps)"

definition HasSuffix :: "'a list \<Rightarrow> 'a list \<Rightarrow> bool" where
  "HasSuffix s t = HasPrefix (rev s) (rev t)"

definition TrimPrefix :: "'a list \<Rightarrow> 'a list \<Rightarrow> 'a list" where
  "TrimPrefix s t = (if HasPrefix s t then drop (length t) s else s)"

definition TrimSuffix :: "'a list \<Rightarrow> 'a list \<Rightarrow> 'a list" where
  "TrimSuffix s t = (if HasSuffix s t then take (length s - length t) s else s)"

lemma HasPrefix_iff: "HasPrefix s t \<longleftrightarrow> (\<exists>u. s = t @ u)"
  by (induction s t rule: HasPrefix.induct) auto

lemma HasSuffix_iff: "HasSuffix s t \<longleftrightarrow> (\<exists>u. s = u @ t)"
proof -
  have "HasSuffix s t \<longleftrightarrow> (\<exists>u. rev s = rev t @ u)"
    by (simp add: HasSuffix_def HasPrefix_iff)
  also have "\<dots> \<longleftrightarrow> (\<exists>u. s = u @ t)"
    by (metis rev_append rev_rev_ident)
  finally show ?thesis .
qed

lemma TrimSuffix_append [simp]: "TrimSuffix (u @ t) t = u"
  by (auto simp: TrimSuffix_def HasSuffix_iff)

lemma TrimSuffix_id: "\<not> HasSuffix s t \<Longrightarrow> TrimSuffix s t = s"
  by (simp add: TrimSuffix_def)

text \<open>\<^verbatim>\<open>strings.Split\<close> with a one-byte separator, and \<^verbatim>\<open>strings.Join\<close>.\<close>

fun Split :: "'a \<Rightarrow> 'a list \<Rightarrow> 'a list list" where
  "Split c [] = [[]]"
| "Split c (x # xs) =
     (if x = c then [] # Split c xs else (x # hd (Split c xs)) # tl (Split c xs))"

fun Join :: "'a list \<Rightarrow> 'a list list \<Rightarrow> 'a list" where
  "Join sep [] = []"
| "Join sep [x] = x"
| "Join sep (x # y # ys) = x @ sep @ Join sep (y # ys)"

lemma Split_not_Nil [simp]: "Split c xs \<noteq> []"
  by (cases xs) auto

lemma Split_code [code]:
  "Split c [] = [[]]"
  "Split c (x # xs) = (if x = c then [] # Split c xs else case Split c xs of [] \<Rightarrow> [[x]] | y # ys \<Rightarrow> (x # y) # ys)"
  by (auto split: list.split)

lemma Join_Cons: "ys \<noteq> [] \<Longrightarrow> Join sep (x # ys) = x @ sep @ Join sep ys"
  by (cases ys) auto

lemma Join_append_hd: "Join sep ((a @ x) # ys) = a @ Join sep (x # ys)"
  by (cases ys) auto

lemma Join_Split [simp]: "Join [c] (Split c xs) = xs"
proof (induction xs)
  case Nil
  then show ?case by simp
next
  case (Cons x xs)
  have "Join [c] ((x # hd (Split c xs)) # tl (Split c xs)) = x # Join [c] (Split c xs)"
    using Join_append_hd [of "[c]" "[x]"] by simp
  with Cons show ?case by (simp add: Join_Cons)
qed

lemma Split_no_sep: "c \<notin> set p \<Longrightarrow> Split c p = [p]"
  by (induction p) auto

lemma Split_append_sep: "c \<notin> set p \<Longrightarrow> Split c (p @ c # xs) = p # Split c xs"
  by (induction p) auto

lemma Split_Join:
  "ps \<noteq> [] \<Longrightarrow> \<forall>p\<in>set ps. c \<notin> set p \<Longrightarrow> Split c (Join [c] ps) = ps"
proof (induction "[c]" ps rule: Join.induct)
  case (3 x y ys)
  then show ?case by (simp add: Split_append_sep)
qed (auto simp: Split_no_sep)

lemma Split_parts: "p \<in> set (Split c xs) \<Longrightarrow> c \<notin> set p"
proof (induction xs arbitrary: p)
  case Nil
  then show ?case by simp
next
  case (Cons x xs)
  have hd: "hd (Split c xs) \<in> set (Split c xs)" by simp
  have tl: "q \<in> set (tl (Split c xs)) \<Longrightarrow> q \<in> set (Split c xs)" for q
    by (metis Split_not_Nil list.set_sel(2))
  show ?case
  proof (cases "x = c")
    case True
    with Cons show ?thesis by auto
  next
    case False
    with Cons.prems have "p = x # hd (Split c xs) \<or> p \<in> set (tl (Split c xs))" by simp
    with False Cons.IH hd tl show ?thesis by auto
  qed
qed

lemma Split_append: "Split c (u @ c # q) = Split c u @ Split c q"
  by (induction u) auto

lemma Join_append:
  "xs \<noteq> [] \<Longrightarrow> ys \<noteq> [] \<Longrightarrow> Join sep (xs @ ys) = Join sep xs @ sep @ Join sep ys"
proof (induction xs)
  case (Cons x xs)
  then show ?case by (cases "xs = []") (simp_all add: Join_Cons)
qed simp

lemma HasSuffix_labels:
  "HasSuffix d (c # q) \<longleftrightarrow> (\<exists>ls. ls \<noteq> [] \<and> Split c d = ls @ Split c q)"
proof
  assume "HasSuffix d (c # q)"
  then obtain u where "d = u @ c # q" by (auto simp: HasSuffix_iff)
  then show "\<exists>ls. ls \<noteq> [] \<and> Split c d = ls @ Split c q"
    by (intro exI [of _ "Split c u"]) (simp add: Split_append)
next
  assume "\<exists>ls. ls \<noteq> [] \<and> Split c d = ls @ Split c q"
  then obtain ls where ls: "ls \<noteq> []" "Split c d = ls @ Split c q" by blast
  have "d = Join [c] (ls @ Split c q)" by (simp flip: ls(2))
  also have "\<dots> = Join [c] ls @ [c] @ q" using ls(1) by (simp add: Join_append)
  finally show "HasSuffix d (c # q)" by (auto simp: HasSuffix_iff)
qed

text \<open>\<^verbatim>\<open>strings.Index\<close>, \<^verbatim>\<open>strings.Contains\<close> and \<^verbatim>\<open>strings.ContainsAny\<close>.\<close>

fun Index :: "'a list \<Rightarrow> 'a list \<Rightarrow> nat option" where
  "Index [] t = (if t = [] then Some 0 else None)"
| "Index (x # xs) t =
     (if HasPrefix (x # xs) t then Some 0 else map_option Suc (Index xs t))"

definition Contains :: "'a list \<Rightarrow> 'a list \<Rightarrow> bool" where
  "Contains s t = (Index s t \<noteq> None)"

definition ContainsAny :: "'a list \<Rightarrow> 'a list \<Rightarrow> bool" where
  "ContainsAny s chars = list_ex (\<lambda>c. c \<in> set chars) s"

lemma Contains_Nil [simp]: "Contains [] t \<longleftrightarrow> t = []"
  by (simp add: Contains_def)

lemma Contains_Cons [simp]: "Contains (x # xs) t \<longleftrightarrow> HasPrefix (x # xs) t \<or> Contains xs t"
  by (simp add: Contains_def)

lemma Contains_iff: "Contains s t \<longleftrightarrow> (\<exists>u v. s = u @ t @ v)"
proof (induction s)
  case Nil
  then show ?case by simp
next
  case (Cons x xs)
  have "(\<exists>u v. x # xs = u @ t @ v) \<longleftrightarrow> (\<exists>v. x # xs = t @ v) \<or> (\<exists>u v. xs = u @ t @ v)"
    by (metis append_Cons append_eq_Cons_conv append_Nil)
  with Cons show ?case by (simp add: HasPrefix_iff del: HasPrefix.simps)
qed

lemma Contains_single: "Contains s [c] \<longleftrightarrow> c \<in> set s"
  by (auto simp: Contains_iff in_set_conv_decomp)


section \<open>Package unicode/utf8\<close>

text \<open>
  A loop \<^verbatim>\<open>for _, r := range s\<close> reads a string rune by rune: \<open>decode_rune\<close> is
  \<^verbatim>\<open>utf8.DecodeRuneInString\<close> (the rune and its width; a byte that starts no valid encoding is
  U+FFFD of width 1) and \<open>runes\<close> the sequence of runes the loop visits.
\<close>

abbreviation RuneError :: nat where
  "RuneError \<equiv> 65533"

definition utf8_cont :: "nat \<Rightarrow> bool" where
  "utf8_cont b = (128 \<le> b \<and> b \<le> 191)"

definition utf8_second :: "nat \<Rightarrow> nat \<Rightarrow> bool" where
  "utf8_second b0 b1 =
     (if b0 = 224 then 160 \<le> b1 \<and> b1 \<le> 191
      else if b0 = 237 then 128 \<le> b1 \<and> b1 \<le> 159
      else if b0 = 240 then 144 \<le> b1 \<and> b1 \<le> 191
      else if b0 = 244 then 128 \<le> b1 \<and> b1 \<le> 143
      else utf8_cont b1)"

definition decode_rune :: "nat \<Rightarrow> nat list \<Rightarrow> nat \<times> nat" where
  "decode_rune b0 bs =
     (if b0 < 128 then (b0, 1)
      else if 194 \<le> b0 \<and> b0 \<le> 223 then
        (case bs of b1 # _ \<Rightarrow>
            if utf8_second b0 b1 then ((b0 - 192) * 64 + (b1 - 128), 2) else (RuneError, 1)
         | _ \<Rightarrow> (RuneError, 1))
      else if 224 \<le> b0 \<and> b0 \<le> 239 then
        (case bs of b1 # b2 # _ \<Rightarrow>
            if utf8_second b0 b1 \<and> utf8_cont b2
            then ((b0 - 224) * 4096 + (b1 - 128) * 64 + (b2 - 128), 3) else (RuneError, 1)
         | _ \<Rightarrow> (RuneError, 1))
      else if 240 \<le> b0 \<and> b0 \<le> 244 then
        (case bs of b1 # b2 # b3 # _ \<Rightarrow>
            if utf8_second b0 b1 \<and> utf8_cont b2 \<and> utf8_cont b3
            then ((b0 - 240) * 262144 + (b1 - 128) * 4096 + (b2 - 128) * 64 + (b3 - 128), 4)
            else (RuneError, 1)
         | _ \<Rightarrow> (RuneError, 1))
      else (RuneError, 1))"

function runes_of :: "nat list \<Rightarrow> nat list" where
  "runes_of [] = []"
| "runes_of (b # bs) =
     fst (decode_rune b bs) # runes_of (drop (snd (decode_rune b bs) - 1) bs)"
  by pat_completeness auto
termination
  by (relation "measure length") auto

definition runes :: "string \<Rightarrow> nat list" where
  "runes s = runes_of (map of_char s)"

text \<open>\<^verbatim>\<open>utf8.AppendRune\<close>: surrogates and out-of-range values are written as U+FFFD.\<close>

definition encode_rune :: "nat \<Rightarrow> nat list" where
  "encode_rune r =
     (if r < 128 then [r]
      else if r < 2048 then [192 + r div 64, 128 + r mod 64]
      else if (55296 \<le> r \<and> r \<le> 57343) \<or> 1114111 < r then [239, 191, 189]
      else if r < 65536 then [224 + r div 4096, 128 + r div 64 mod 64, 128 + r mod 64]
      else [240 + r div 262144, 128 + r div 4096 mod 64, 128 + r div 64 mod 64, 128 + r mod 64])"

definition string_of_runes :: "nat list \<Rightarrow> string" where
  "string_of_runes rs = map char_of (concat (map encode_rune rs))"

definition isASCII :: "string \<Rightarrow> bool" where
  "isASCII s = list_all (\<lambda>c. code c < 128) s"

lemma runes_of_ascii: "list_all (\<lambda>b. b < 128) bs \<Longrightarrow> runes_of bs = bs"
  by (induction bs) (auto simp: decode_rune_def)

lemma runes_ascii: "isASCII s \<Longrightarrow> runes s = map of_char s"
  by (simp add: runes_def isASCII_def runes_of_ascii list_all_iff)

lemma string_of_runes_ascii: "list_all (\<lambda>r. r < 128) rs \<Longrightarrow> string_of_runes rs = map char_of rs"
  by (induction rs) (auto simp: string_of_runes_def encode_rune_def)

subsection \<open>Case conversion\<close>

text \<open>
  \<^verbatim>\<open>strings.ToLower\<close> and \<^verbatim>\<open>strings.ToUpper\<close>: an ASCII string is converted byte by byte; any other
  string is decoded, mapped by \<^verbatim>\<open>unicode.ToLower\<close> or \<^verbatim>\<open>unicode.ToUpper\<close>, and encoded again, so an
  invalid byte becomes U+FFFD.  The Unicode tables for code points of 128 and above are parameters.
\<close>

definition ascii_lower :: "nat \<Rightarrow> nat" where
  "ascii_lower r = (if 65 \<le> r \<and> r \<le> 90 then r + 32 else r)"

definition ascii_upper :: "nat \<Rightarrow> nat" where
  "ascii_upper r = (if 97 \<le> r \<and> r \<le> 122 then r - 32 else r)"

definition rune_lower :: "golib \<Rightarrow> nat \<Rightarrow> nat" where
  "rune_lower L r = (if r < 128 then ascii_lower r else uniLower L r)"

definition rune_upper :: "golib \<Rightarrow> nat \<Rightarrow> nat" where
  "rune_upper L r = (if r < 128 then ascii_upper r else uniUpper L r)"

definition ToLower :: "golib \<Rightarrow> string \<Rightarrow> string" where
  "ToLower L s =
     (if isASCII s then map (\<lambda>c. char_of (ascii_lower (of_char c))) s
      else string_of_runes (map (rune_lower L) (runes s)))"

definition ToUpper :: "golib \<Rightarrow> string \<Rightarrow> string" where
  "ToUpper L s =
     (if isASCII s then map (\<lambda>c. char_of (ascii_upper (of_char c))) s
      else string_of_runes (map (rune_upper L) (runes s)))"

lemma ascii_lower_less: "r < 128 \<Longrightarrow> ascii_lower r < 128"
  by (simp add: ascii_lower_def)

lemma ascii_lower_idem [simp]: "ascii_lower (ascii_lower r) = ascii_lower r"
  by (simp add: ascii_lower_def)

lemma code_char_of [simp]: "n < 256 \<Longrightarrow> code (char_of n) = n"
  by simp

lemma length_ToLower_ascii: "isASCII s \<Longrightarrow> length (ToLower L s) = length s"
  by (simp add: ToLower_def)

lemma ToLower_fixed: "\<forall>c\<in>set s. code c < 128 \<and> \<not> (65 \<le> code c \<and> code c \<le> 90) \<Longrightarrow> ToLower L s = s"
  by (auto simp: ToLower_def isASCII_def list_all_iff ascii_lower_def intro!: map_idI)

lemma isASCII_ToLower: "isASCII s \<Longrightarrow> isASCII (ToLower L s)"
  by (auto simp: ToLower_def isASCII_def list_all_iff ascii_lower_def)

lemma ToLower_idem_ascii:
  assumes "isASCII s"
  shows "ToLower L (ToLower L s) = ToLower L s"
proof -
  have *: "ascii_lower (code c) mod 256 = ascii_lower (code c)" if "c \<in> set s" for c
    using assms that ascii_lower_less [of "code c"] by (auto simp: isASCII_def list_all_iff)
  show ?thesis
    using isASCII_ToLower [OF assms, of L] assms *
    by (simp add: ToLower_def)
qed

lemma ToLower_append_ascii:
  "isASCII s \<Longrightarrow> isASCII t \<Longrightarrow> ToLower L (s @ t) = ToLower L s @ ToLower L t"
  by (simp add: ToLower_def isASCII_def)


section \<open>Packages strconv and encoding/hex\<close>

definition digit :: "nat \<Rightarrow> char" where
  "digit n = char_of (if n < 10 then 48 + n else 87 + n)"

fun digits_base :: "nat \<Rightarrow> nat \<Rightarrow> string" where
  "digits_base b n = (if n < b \<or> b < 2 then [digit n] else digits_base b (n div b) @ [digit (n mod b)])"

declare digits_base.simps [simp del]

text \<open>The verbs \<^verbatim>\<open>%d\<close> (of an unsigned and of a signed value) and \<^verbatim>\<open>%02x\<close> of package \<^verbatim>\<open>fmt\<close>.\<close>

definition itoa :: "nat \<Rightarrow> string" where
  "itoa n = digits_base 10 n"

definition itoa_int :: "int \<Rightarrow> string" where
  "itoa_int i = (if i < 0 then ''-'' @ itoa (nat (- i)) else itoa (nat i))"

definition hex02 :: "nat \<Rightarrow> string" where
  "hex02 n = (if n < 16 then ''0'' @ digits_base 16 n else digits_base 16 n)"

lemma digits_base_unfold:
  "n < b \<Longrightarrow> digits_base b n = [digit n]"
  "2 \<le> b \<Longrightarrow> b \<le> n \<Longrightarrow> digits_base b n = digits_base b (n div b) @ [digit (n mod b)]"
  by (subst digits_base.simps, simp)+

lemma digits_base_not_Nil [simp]: "digits_base b n \<noteq> []"
  by (subst digits_base.simps) simp

definition is_digit :: "char \<Rightarrow> bool" where
  "is_digit c = (48 \<le> code c \<and> code c \<le> 57)"

definition hex_val :: "char \<Rightarrow> nat option" where
  "hex_val c =
     (if 48 \<le> code c \<and> code c \<le> 57 then Some (code c - 48)
      else if 97 \<le> code c \<and> code c \<le> 102 then Some (code c - 87)
      else if 65 \<le> code c \<and> code c \<le> 70 then Some (code c - 55)
      else None)"

lemma code_digit: "n < 16 \<Longrightarrow> code (digit n) = (if n < 10 then 48 + n else 87 + n)"
  by (simp add: digit_def)

lemma hex_val_digit [simp]: "n < 16 \<Longrightarrow> hex_val (digit n) = Some n"
  by (simp add: hex_val_def code_digit)

lemma is_digit_digit [simp]: "n < 10 \<Longrightarrow> is_digit (digit n)"
  by (simp add: is_digit_def code_digit)

lemma digits_base_10_digits: "c \<in> set (digits_base 10 n) \<Longrightarrow> is_digit c"
proof (induction "10::nat" n rule: digits_base.induct)
  case (1 n)
  then show ?case
    by (subst (asm) digits_base.simps) (auto split: if_splits)
qed

definition is_hex_digit :: "char \<Rightarrow> bool" where
  "is_hex_digit c = ((48 \<le> code c \<and> code c \<le> 57) \<or> (97 \<le> code c \<and> code c \<le> 102))"

lemma is_hex_digit_digit [simp]: "n < 16 \<Longrightarrow> is_hex_digit (digit n)"
  by (simp add: is_hex_digit_def code_digit)

lemma digits_base_16_hex: "c \<in> set (digits_base 16 n) \<Longrightarrow> is_hex_digit c"
proof (induction "16::nat" n rule: digits_base.induct)
  case (1 n)
  then show ?case
    by (subst (asm) digits_base.simps) (auto split: if_splits)
qed

text \<open>\<^verbatim>\<open>hex.EncodeToString\<close> and \<^verbatim>\<open>hex.DecodeString\<close>.\<close>

definition hex_byte :: "byte \<Rightarrow> string" where
  "hex_byte b = [digit (unat b div 16), digit (unat b mod 16)]"

definition EncodeToString :: "bytes \<Rightarrow> string" where
  "EncodeToString bs = concat (map hex_byte bs)"

fun DecodeString :: "string \<Rightarrow> bytes option" where
  "DecodeString [] = Some []"
| "DecodeString [c] = None"
| "DecodeString (c # d # cs) =
     (case (hex_val c, hex_val d) of
        (Some x, Some y) \<Rightarrow> map_option (\<lambda>bs. of_nat (16 * x + y) # bs) (DecodeString cs)
      | _ \<Rightarrow> None)"

lemma length_EncodeToString [simp]: "length (EncodeToString bs) = 2 * length bs"
  by (induction bs) (auto simp: EncodeToString_def hex_byte_def)

lemma unat_byte_div16 [simp]: "unat (x :: byte) div 16 < 16"
  using unat_byte_less [of x] by (simp add: div_less_iff_less_mult)

lemma DecodeString_Encode [simp]: "DecodeString (EncodeToString bs) = Some bs"
  by (induction bs) (auto simp: EncodeToString_def hex_byte_def)

lemma DecodeString_length: "DecodeString s = Some bs \<Longrightarrow> length s = 2 * length bs"
  by (induction s arbitrary: bs rule: DecodeString.induct) (auto split: option.splits)

lemma EncodeToString_eq_iff [simp]: "EncodeToString a = EncodeToString b \<longleftrightarrow> a = b"
  by (metis DecodeString_Encode option.inject)

lemma EncodeToString_hex: "c \<in> set (EncodeToString bs) \<Longrightarrow> is_hex_digit c"
  by (auto simp: EncodeToString_def hex_byte_def)

section \<open>Package encoding/binary: big-endian integers\<close>

text \<open>
  \<open>be16\<close> and \<open>be32\<close> are the bytes that \<^verbatim>\<open>binary.BigEndian.PutUint16\<close> and \<^verbatim>\<open>PutUint32\<close> store;
  \<open>get16\<close> and \<open>get32\<close> read at an offset; \<open>put_bytes\<close> is the store itself (\<^verbatim>\<open>copy\<close> into the slice
  from the offset on, which writes what fits).
\<close>

definition be16 :: "u16 \<Rightarrow> bytes" where
  "be16 v = [ucast (drop_bit 8 v), ucast v]"

definition be32 :: "u32 \<Rightarrow> bytes" where
  "be32 v = [ucast (drop_bit 24 v), ucast (drop_bit 16 v), ucast (drop_bit 8 v), ucast v]"

definition get16 :: "bytes \<Rightarrow> nat \<Rightarrow> u16" where
  "get16 b i = push_bit 8 (ucast (b ! i)) OR ucast (b ! (i + 1))"

definition get32 :: "bytes \<Rightarrow> nat \<Rightarrow> u32" where
  "get32 b i = push_bit 24 (ucast (b ! i)) OR push_bit 16 (ucast (b ! (i + 1)))
     OR push_bit 8 (ucast (b ! (i + 2))) OR ucast (b ! (i + 3))"

definition put_bytes :: "nat \<Rightarrow> 'a list \<Rightarrow> 'a list \<Rightarrow> 'a list" where
  "put_bytes i d b = take i b @ take (length b - i) d @ drop (i + length d) b"

lemma length_be16 [simp]: "length (be16 v) = 2"
  by (simp add: be16_def)

lemma length_be32 [simp]: "length (be32 v) = 4"
  by (simp add: be32_def)

lemma get16_be16 [simp]: "get16 (be16 v) 0 = v"
proof (rule bit_word_eqI)
  fix n :: nat
  assume "n < LENGTH(16)"
  then show "bit (get16 (be16 v) 0) n = bit v n"
    by (cases "n < 8") (simp_all add: get16_def be16_def bit_or_iff bit_push_bit_iff bit_unsigned_iff bit_drop_bit_eq less_diff_conv2)
qed

lemma get32_be32 [simp]: "get32 (be32 v) 0 = v"
proof (rule bit_word_eqI)
  fix n :: nat
  assume n: "n < LENGTH(32)"
  consider "n < 8" | "8 \<le> n \<and> n < 16" | "16 \<le> n \<and> n < 24" | "24 \<le> n" by linarith
  then show "bit (get32 (be32 v) 0) n = bit v n"
    using n by cases (simp_all add: get32_def be32_def bit_or_iff bit_push_bit_iff bit_unsigned_iff bit_drop_bit_eq less_diff_conv2)
qed

text \<open>Equations by which concrete packets are evaluated.\<close>

lemma ucast_drop_bit: "ucast (drop_bit k (v :: 'a::len word)) = (of_nat (unat v div 2 ^ k) :: byte)"
proof -
  have "unat (drop_bit k v) = unat v div 2 ^ k" by (simp only: unat_drop_bit_eq drop_bit_eq_div [symmetric])
  then show ?thesis by (metis of_nat_unat)
qed

lemma be16_code [code]: "be16 v = [of_nat (unat v div 256), of_nat (unat v)]"
  by (simp add: be16_def ucast_drop_bit)

lemma be32_code [code]:
  "be32 v = [of_nat (unat v div 16777216), of_nat (unat v div 65536), of_nat (unat v div 256), of_nat (unat v)]"
  by (simp add: be32_def ucast_drop_bit)

lemma get16_code [code]:
  "get16 b i = of_nat (256 * unat (b ! i) + unat (b ! (i + 1)))"
proof -
  have "get16 b i = push_bit 8 (ucast (b ! i)) + ucast (b ! (i + 1))"
    unfolding get16_def by (rule disjunctive_add [symmetric]) (auto simp: bit_simps dest: bit_imp_le_length)
  then show ?thesis by (simp add: push_bit_eq_mult mult.commute)
qed

lemma get32_code [code]:
  "get32 b i = of_nat (16777216 * unat (b ! i) + 65536 * unat (b ! (i + 1)) + 256 * unat (b ! (i + 2)) + unat (b ! (i + 3)))"
proof -
  let ?x = "\<lambda>j. ucast (b ! (i + j)) :: u32"
  have "get32 b i = push_bit 24 (?x 0) + (push_bit 16 (?x 1) OR push_bit 8 (?x 2) OR ?x 3)"
    unfolding get32_def or.assoc by (subst disjunctive_add) (auto simp: bit_simps dest: bit_imp_le_length)
  also have "push_bit 16 (?x 1) OR push_bit 8 (?x 2) OR ?x 3 = push_bit 16 (?x 1) + (push_bit 8 (?x 2) OR ?x 3)"
    by (subst disjunctive_add) (auto simp: bit_simps dest: bit_imp_le_length)
  also have "push_bit 8 (?x 2) OR ?x 3 = push_bit 8 (?x 2) + ?x 3"
    by (subst disjunctive_add) (auto simp: bit_simps dest: bit_imp_le_length)
  finally show ?thesis by (simp add: push_bit_eq_mult mult.commute add.assoc)
qed
lemma get16_append: "i + 1 < length a \<Longrightarrow> get16 (a @ b) i = get16 a i"
  by (simp add: get16_def nth_append)

lemma get16_shift: "get16 (a @ b) (length a + i) = get16 b i"
  by (simp add: get16_def nth_append)

lemma get32_shift: "get32 (a @ b) (length a + i) = get32 b i"
  by (simp add: get32_def nth_append)

lemma length_put_bytes [simp]: "i + length d \<le> length b \<Longrightarrow> length (put_bytes i d b) = length b"
  by (simp add: put_bytes_def)

lemma put_bytes_exact:
  "length d = n \<Longrightarrow> length a = i \<Longrightarrow> length c = n \<Longrightarrow> put_bytes i d (a @ c @ e) = a @ d @ e"
  by (simp add: put_bytes_def)

lemma take_put_bytes: "i + length d \<le> length b \<Longrightarrow> take (i + length d) (put_bytes i d b) = take i b @ d"
  by (simp add: put_bytes_def)

section \<open>Masks and list predicates\<close>

lemma unat_and_not_mask: "unat (b AND NOT (mask k) :: 'a::len word) = unat b div 2 ^ k * 2 ^ k"
proof -
  have "b AND NOT (mask k) = push_bit k (drop_bit k b)"
    by (rule bit_word_eqI) (auto simp: bit_simps)
  moreover have "unat (push_bit k (drop_bit k b)) = push_bit k (drop_bit k (unat b))"
    by (rule bit_eqI) (auto simp: bit_simps dest: bit_imp_le_length)
  ultimately show ?thesis by (simp add: push_bit_eq_mult drop_bit_eq_div)
qed

lemma and_high_eq:
  "NOT (mask k) = m \<Longrightarrow> b AND m = c \<longleftrightarrow> unat b div 2 ^ k * 2 ^ k = unat (c :: 'a::len word)"
  using unat_and_not_mask [of b k] by (metis word_unat_eq_iff)

lemma high_masks:
  "NOT (mask 6) = (192 :: byte)" "NOT (mask 4) = (240 :: byte)" "NOT (mask 5) = (224 :: byte)"
  by code_simp+

lemma list_ex_map_option:
  "map f xs = map Some ys \<Longrightarrow> list_ex (\<lambda>x. \<exists>y. f x = Some y \<and> P y) xs \<longleftrightarrow> list_ex P ys"
proof (induction xs arbitrary: ys)
  case (Cons x xs)
  then show ?case by (cases ys) auto
qed simp

section \<open>Invariants of transition systems\<close>

text \<open>
  The stateful components are transition systems: an initial state and a step relation.
  \<open>reachable\<close> is the least set of states they give, and the locale \<open>invariant_of\<close> is the
  interface a component provides (its invariant holds at the start and every step keeps it) and
  its client uses (the invariant holds in every reachable state).
\<close>

inductive reachable :: "('s \<Rightarrow> bool) \<Rightarrow> ('s \<Rightarrow> 's \<Rightarrow> bool) \<Rightarrow> 's \<Rightarrow> bool"
  for init :: "'s \<Rightarrow> bool" and step :: "'s \<Rightarrow> 's \<Rightarrow> bool" where
  reach_init: "init s \<Longrightarrow> reachable init step s"
| reach_step: "reachable init step s \<Longrightarrow> step s t \<Longrightarrow> reachable init step t"

locale invariant_of =
  fixes init :: "'s \<Rightarrow> bool" and step :: "'s \<Rightarrow> 's \<Rightarrow> bool" and inv :: "'s \<Rightarrow> bool"
  assumes inv_init: "init s \<Longrightarrow> inv s"
    and inv_step: "inv s \<Longrightarrow> step s t \<Longrightarrow> inv t"
begin

lemma inv_reachable: "reachable init step s \<Longrightarrow> inv s"
  by (induction rule: reachable.induct) (auto intro: inv_init inv_step)

lemma inv_steps: "step\<^sup>*\<^sup>* s t \<Longrightarrow> inv s \<Longrightarrow> inv t"
  by (induction rule: rtranclp_induct) (auto intro: inv_step)

end

end
