(* ===== verification/GoNet.thy ===== *)
theory GoNet
  imports GoBase
begin

text \<open>
  The part of Go's packages \<^verbatim>\<open>net\<close> and \<^verbatim>\<open>net/netip\<close> the gateway is built on: \<open>ParseIP\<close>,
  \<open>IP.To4\<close>, \<open>IP.String\<close>, \<open>ParseCIDR\<close> and \<open>IPNet.Contains\<close>, translated from the standard library
  (Go 1.21, the version go.mod names).  An \<^verbatim>\<open>net.IP\<close> is its byte list of length 4 or 16.  The main
  result is that printing an address and parsing it again gives the address back, which is what the
  firewall's string-based normalisation of addresses rests on.
\<close>

section \<open>Parsing addresses\<close>

datatype Addr = Addr4 bytes | Addr6 bytes string

text \<open>\<^verbatim>\<open>netip.parseIPv4Fields\<close>: the loop over the characters with the value and the number of digits
  of the current field and the fields read so far.\<close>

fun parseIPv4Fields :: "string \<Rightarrow> nat \<Rightarrow> nat \<Rightarrow> nat list \<Rightarrow> nat list option" where
  "parseIPv4Fields [] val digLen flds =
     (if length flds < 3 then None else Some (flds @ [val]))"
| "parseIPv4Fields (c # cs) val digLen flds =
     (if is_digit c then
        (if digLen = 1 \<and> val = 0 then None
         else if 255 < val * 10 + (code c - 48) then None
         else parseIPv4Fields cs (val * 10 + (code c - 48)) (digLen + 1) flds)
      else if c = CHR ''.'' then
        (if digLen = 0 \<or> cs = [] then None
         else if length flds = 3 then None
         else parseIPv4Fields cs 0 0 (flds @ [val]))
      else None)"

text \<open>\<^verbatim>\<open>netip.parseIPv6\<close>: the scan of one hexadecimal group, the loop over at most eight groups
  with the bytes read so far and the position of the ellipsis, and the final expansion.\<close>

fun scan_group :: "string \<Rightarrow> nat \<Rightarrow> nat \<Rightarrow> (nat \<times> nat \<times> string) option" where
  "scan_group [] off acc = Some (off, acc, [])"
| "scan_group (c # cs) off acc =
     (case hex_val c of
        None \<Rightarrow> Some (off, acc, c # cs)
      | Some d \<Rightarrow>
          if 3 < off then None
          else if 65535 < acc * 16 + d then None
          else scan_group cs (off + 1) (acc * 16 + d))"

fun ipv6_loop :: "nat \<Rightarrow> string \<Rightarrow> nat list \<Rightarrow> nat option \<Rightarrow> (string \<times> nat list \<times> nat option) option"
where
  "ipv6_loop 0 s ip ell = Some (s, ip, ell)"
| "ipv6_loop (Suc n) s ip ell =
     (case scan_group s 0 0 of
        None \<Rightarrow> None
      | Some (off, acc, r) \<Rightarrow>
          if off = 0 then None
          else (case r of
              [] \<Rightarrow> Some ([], ip @ [acc div 256, acc mod 256], ell)
            | c # cs \<Rightarrow>
                if c = CHR ''.'' then
                  (if ell = None \<and> length ip \<noteq> 12 then None
                   else if 16 < length ip + 4 then None
                   else map_option (\<lambda>f. ([], ip @ f, ell)) (parseIPv4Fields s 0 0 []))
                else if c \<noteq> CHR '':'' then None
                else (case cs of
                    [] \<Rightarrow> None
                  | d # ds \<Rightarrow>
                      if d = CHR '':'' then
                        (if ell \<noteq> None then None
                         else if ds = [] then
                           Some ([], ip @ [acc div 256, acc mod 256], Some (length ip + 2))
                         else ipv6_loop n ds (ip @ [acc div 256, acc mod 256]) (Some (length ip + 2)))
                      else ipv6_loop n cs (ip @ [acc div 256, acc mod 256]) ell)))"

definition ipv6_expand :: "string \<times> nat list \<times> nat option \<Rightarrow> nat list option" where
  "ipv6_expand r =
     (case r of (s, ip, ell) \<Rightarrow>
        if s \<noteq> [] then None
        else if length ip < 16 then
          (case ell of
             None \<Rightarrow> None
           | Some e \<Rightarrow> Some (take e ip @ replicate (16 - length ip) 0 @ drop e ip))
        else if ell \<noteq> None then None
        else Some ip)"

definition ipv6_body :: "string \<Rightarrow> nat list option" where
  "ipv6_body s =
     (if HasPrefix s ''::'' then
        (if drop 2 s = [] then Some (replicate 16 0)
         else Option.bind (ipv6_loop 8 (drop 2 s) [] (Some 0)) ipv6_expand)
      else Option.bind (ipv6_loop 8 s [] None) ipv6_expand)"

definition parseIPv6 :: "string \<Rightarrow> Addr option" where
  "parseIPv6 s =
     (case Index s ''%'' of
        None \<Rightarrow> map_option (\<lambda>ip. Addr6 (map of_nat ip) []) (ipv6_body s)
      | Some i \<Rightarrow>
          if drop (i + 1) s = [] then None
          else map_option (\<lambda>ip. Addr6 (map of_nat ip) (drop (i + 1) s)) (ipv6_body (take i s)))"

text \<open>\<^verbatim>\<open>netip.ParseAddr\<close> decides on the first of the characters dot, colon and percent.\<close>

definition ParseAddr :: "string \<Rightarrow> Addr option" where
  "ParseAddr s =
     (case find (\<lambda>c. c = CHR ''.'' \<or> c = CHR '':'' \<or> c = CHR ''%'') s of
        None \<Rightarrow> None
      | Some c \<Rightarrow>
          if c = CHR ''.'' then map_option (\<lambda>f. Addr4 (map of_nat f)) (parseIPv4Fields s 0 0 [])
          else if c = CHR '':'' then parseIPv6 s
          else None)"

definition v4InV6Prefix :: bytes where
  "v4InV6Prefix = [0, 0, 0, 0, 0, 0, 0, 0, 0, 0, 255, 255]"

fun As16 :: "Addr \<Rightarrow> bytes" where
  "As16 (Addr4 b) = v4InV6Prefix @ b"
| "As16 (Addr6 b z) = b"

fun Zone :: "Addr \<Rightarrow> string" where
  "Zone (Addr4 b) = []"
| "Zone (Addr6 b z) = z"

fun BitLen :: "Addr \<Rightarrow> nat" where
  "BitLen (Addr4 b) = 32"
| "BitLen (Addr6 b z) = 128"

definition ParseIP :: "string \<Rightarrow> bytes option" where
  "ParseIP s =
     (case ParseAddr s of
        None \<Rightarrow> None
      | Some a \<Rightarrow> if Zone a \<noteq> [] then None else Some (As16 a))"

definition To4 :: "bytes \<Rightarrow> bytes option" where
  "To4 ip =
     (if length ip = 4 then Some ip
      else if length ip = 16 \<and> take 12 ip = v4InV6Prefix then Some (drop 12 ip)
      else None)"

definition To16 :: "bytes \<Rightarrow> bytes option" where
  "To16 ip =
     (if length ip = 4 then Some (v4InV6Prefix @ ip)
      else if length ip = 16 then Some ip
      else None)"

section \<open>Printing addresses\<close>

definition string4 :: "bytes \<Rightarrow> string" where
  "string4 b = Join ''.'' (map (\<lambda>x. itoa (unat x)) b)"

fun groups_of :: "bytes \<Rightarrow> nat list" where
  "groups_of (x # y # bs) = (unat x * 256 + unat y) # groups_of bs"
| "groups_of _ = []"

definition run_at :: "nat list \<Rightarrow> nat \<Rightarrow> nat" where
  "run_at gs i = length (takeWhile (\<lambda>g. g = 0) (drop i gs))"

definition best_run :: "nat list \<Rightarrow> nat \<times> nat" where
  "best_run gs =
     foldl (\<lambda>(s, l) i. if 2 \<le> run_at gs i \<and> l < run_at gs i then (i, run_at gs i) else (s, l))
       (0, 0) [0..<8]"

definition hex_group :: "nat \<Rightarrow> string" where
  "hex_group g = digits_base 16 g"

definition string_groups :: "nat list \<Rightarrow> string" where
  "string_groups gs =
     (case best_run gs of (s, l) \<Rightarrow>
        if l = 0 then Join '':'' (map hex_group gs)
        else Join '':'' (map hex_group (take s gs)) @ ''::''
             @ Join '':'' (map hex_group (drop (s + l) gs)))"

text \<open>\<^verbatim>\<open>IP.String\<close> for the two lengths that occur; other lengths print as in the library.\<close>

definition IPString :: "bytes \<Rightarrow> string" where
  "IPString ip =
     (if length ip = 0 then ''<nil>''
      else if length ip \<noteq> 4 \<and> length ip \<noteq> 16 then ''?'' @ EncodeToString ip
      else (case To4 ip of
          Some b \<Rightarrow> string4 b
        | None \<Rightarrow> string_groups (groups_of ip)))"

section \<open>Networks\<close>

record IPNet =
  netIP :: bytes
  netMask :: bytes

text \<open>\<^verbatim>\<open>net.dtoi\<close>, \<^verbatim>\<open>net.CIDRMask\<close>, \<^verbatim>\<open>IP.Mask\<close>, \<^verbatim>\<open>net.ParseCIDR\<close> and \<^verbatim>\<open>IPNet.Contains\<close>.\<close>

fun dtoi_loop :: "string \<Rightarrow> nat \<Rightarrow> nat \<Rightarrow> (nat \<times> nat) option" where
  "dtoi_loop [] n i = Some (n, i)"
| "dtoi_loop (c # cs) n i =
     (if is_digit c then
        (if 16777215 \<le> n * 10 + (code c - 48) then None
         else dtoi_loop cs (n * 10 + (code c - 48)) (i + 1))
      else Some (n, i))"

definition dtoi :: "string \<Rightarrow> (nat \<times> nat) option" where
  "dtoi s = (case dtoi_loop s 0 0 of None \<Rightarrow> None | Some (n, i) \<Rightarrow> if i = 0 then None else Some (n, i))"

definition mask_byte :: "nat \<Rightarrow> byte" where
  "mask_byte n = (if 8 \<le> n then 255 else NOT (drop_bit n 255))"

definition CIDRMask :: "nat \<Rightarrow> nat \<Rightarrow> bytes" where
  "CIDRMask ones bits = map (\<lambda>i. mask_byte (ones - 8 * i)) [0..<bits div 8]"

definition MaskIP :: "bytes \<Rightarrow> bytes \<Rightarrow> bytes" where
  "MaskIP ip m =
     (let m' = (if length m = 16 \<and> length ip = 4 \<and> take 12 m = replicate 12 255 then drop 12 m else m);
          ip' = (if length m' = 4 \<and> length ip = 16 \<and> take 12 ip = v4InV6Prefix then drop 12 ip else ip)
      in if length ip' \<noteq> length m' then [] else map2 (AND) ip' m')"

definition ParseCIDR :: "string \<Rightarrow> IPNet option" where
  "ParseCIDR s =
     (case Index s ''/'' of
        None \<Rightarrow> None
      | Some k \<Rightarrow>
          (case ParseAddr (take k s) of
             None \<Rightarrow> None
           | Some a \<Rightarrow>
               if Zone a \<noteq> [] then None
               else (case dtoi (drop (k + 1) s) of
                   None \<Rightarrow> None
                 | Some (n, i) \<Rightarrow>
                     if i \<noteq> length (drop (k + 1) s) \<or> BitLen a < n then None
                     else Some \<lparr>netIP = MaskIP (As16 a) (CIDRMask n (BitLen a)),
                               netMask = CIDRMask n (BitLen a)\<rparr>)))"

definition networkNumberAndMask :: "IPNet \<Rightarrow> bytes \<times> bytes" where
  "networkNumberAndMask n =
     (case To4 (netIP n) of
        Some ip \<Rightarrow>
          (if length (netMask n) = 4 then (ip, netMask n)
           else if length (netMask n) = 16 then (ip, drop 12 (netMask n))
           else ([], []))
      | None \<Rightarrow>
          (if length (netIP n) \<noteq> 16 then ([], [])
           else if length (netMask n) = 16 then (netIP n, netMask n)
           else ([], [])))"

definition NetContains :: "IPNet \<Rightarrow> bytes \<Rightarrow> bool" where
  "NetContains n ip =
     (case networkNumberAndMask n of (nn, m) \<Rightarrow>
        let x = (case To4 ip of Some b \<Rightarrow> b | None \<Rightarrow> ip)
        in length x = length nn \<and> map2 (AND) nn m = map2 (AND) x m)"

section \<open>Printing and parsing\<close>

lemma code_digit_dec: "n < 10 \<Longrightarrow> code (digit n) = 48 + n"
  by (simp add: code_digit)

lemma digit_inj: "n < 10 \<Longrightarrow> m < 10 \<Longrightarrow> digit n = digit m \<Longrightarrow> n = m"
  using code_digit_dec by (metis add_left_cancel)

lemma itoa_inj: "itoa n = itoa m \<Longrightarrow> n = m"
  unfolding itoa_def
proof (induction n arbitrary: m rule: less_induct)
  case (less n)
  show ?case
  proof (cases "n < 10 \<or> m < 10")
    case True
    have "digits_base 10 k = digits_base 10 (k div 10) @ [digit (k mod 10)]" if "10 \<le> k" for k
      using that by (simp add: digits_base_unfold)
    with True less.prems show ?thesis
      using digits_base_not_Nil [of 10 "m div 10"]
      by (cases "n < 10"; cases "m < 10") (auto simp: digits_base_unfold not_less dest: digit_inj)
  next
    case False
    then have "digits_base 10 (n div 10) @ [digit (n mod 10)] = digits_base 10 (m div 10) @ [digit (m mod 10)]"
      using less.prems by (simp add: digits_base_unfold)
    then have "n div 10 = m div 10" "n mod 10 = m mod 10"
      using less.IH [of "n div 10" "m div 10"] False digit_inj [of "n mod 10" "m mod 10"] by auto
    then show ?thesis by (metis div_mult_mod_eq)
  qed
qed

lemma dec_digits:
  "n < 10 \<Longrightarrow> itoa n = [digit n]"
  "10 \<le> n \<Longrightarrow> n < 100 \<Longrightarrow> itoa n = [digit (n div 10), digit (n mod 10)]"
  "100 \<le> n \<Longrightarrow> n < 1000 \<Longrightarrow> itoa n = [digit (n div 100), digit (n div 10 mod 10), digit (n mod 10)]"
  by (simp_all add: itoa_def digits_base_unfold div_mult2_eq [of _ 10 10, simplified, symmetric])

lemma div_digit: "n div (a * b) * b + n div a mod b = n div (a :: nat)"
  by (simp add: div_mult2_eq)

lemma parseIPv4Fields_digits:
  "a < 10 \<Longrightarrow> parseIPv4Fields (digit a # r) 0 0 fs = parseIPv4Fields r a 1 fs"
  "a < 10 \<Longrightarrow> b < 10 \<Longrightarrow> a \<noteq> 0 \<Longrightarrow>
     parseIPv4Fields (digit a # digit b # r) 0 0 fs = parseIPv4Fields r (a * 10 + b) (Suc 1) fs"
  "a < 10 \<Longrightarrow> b < 10 \<Longrightarrow> c < 10 \<Longrightarrow> a \<noteq> 0 \<Longrightarrow> (a * 10 + b) * 10 + c < 256 \<Longrightarrow>
     parseIPv4Fields (digit a # digit b # digit c # r) 0 0 fs
       = parseIPv4Fields r ((a * 10 + b) * 10 + c) (Suc (Suc 1)) fs"
  by (simp_all add: code_digit_dec)

lemma parseIPv4Fields_itoa:
  assumes "n < 256"
  shows "\<exists>k>0. parseIPv4Fields (itoa n @ r) 0 0 fs = parseIPv4Fields r n k fs"
proof -
  have q: "n div 10 < 10" "n div 10 \<noteq> 0" if "10 \<le> n" "n < 100"
    using that by (auto simp: div_less_iff_less_mult)
  have q': "n div 100 < 10" "n div 100 \<noteq> 0" if "100 \<le> n"
    using that assms by (auto simp: div_less_iff_less_mult)
  have eq: "(n div 100 * 10 + n div 10 mod 10) * 10 + n mod 10 = n"
    using div_digit [of n 10 10] by simp
  consider "n < 10" | "10 \<le> n" "n < 100" | "100 \<le> n" by linarith
  then show ?thesis
  proof cases
    case 1
    then show ?thesis using parseIPv4Fields_digits(1) [of n r fs] by (auto simp: dec_digits)
  next
    case 2
    with q parseIPv4Fields_digits(2) [of "n div 10" "n mod 10" r fs] show ?thesis
      by (auto simp: dec_digits)
  next
    case 3
    with q' eq assms parseIPv4Fields_digits(3) [of "n div 100" "n div 10 mod 10" "n mod 10" r fs]
    show ?thesis by (auto simp: dec_digits)
  qed
qed

lemma hex_digits4:
  "n < 16 \<Longrightarrow> hex_group n = [digit n]"
  "16 \<le> n \<Longrightarrow> n < 256 \<Longrightarrow> hex_group n = [digit (n div 16), digit (n mod 16)]"
  "256 \<le> n \<Longrightarrow> n < 4096 \<Longrightarrow> hex_group n = [digit (n div 256), digit (n div 16 mod 16), digit (n mod 16)]"
  "4096 \<le> n \<Longrightarrow> n < 65536 \<Longrightarrow>
     hex_group n = [digit (n div 4096), digit (n div 256 mod 16), digit (n div 16 mod 16), digit (n mod 16)]"
  by (simp_all add: hex_group_def digits_base_unfold div_mult2_eq [of _ 16 16, simplified, symmetric]
      div_mult2_eq [of _ 256 16, simplified, symmetric])

lemma scan_group_digits:
  "a < 16 \<Longrightarrow> scan_group (digit a # r) 0 0 = scan_group r 1 a"
  "a < 16 \<Longrightarrow> b < 16 \<Longrightarrow> scan_group (digit a # digit b # r) 0 0 = scan_group r (Suc 1) (a * 16 + b)"
  "a < 16 \<Longrightarrow> b < 16 \<Longrightarrow> c < 16 \<Longrightarrow>
     scan_group (digit a # digit b # digit c # r) 0 0 = scan_group r (Suc (Suc 1)) ((a * 16 + b) * 16 + c)"
  "a < 16 \<Longrightarrow> b < 16 \<Longrightarrow> c < 16 \<Longrightarrow> d < 16 \<Longrightarrow>
     scan_group (digit a # digit b # digit c # digit d # r) 0 0
       = scan_group r (Suc (Suc (Suc 1))) (((a * 16 + b) * 16 + c) * 16 + d)"
  by simp_all

lemma scan_group_hex_group:
  assumes "n < 65536" and r: "r = [] \<or> hex_val (hd r) = None"
  shows "\<exists>k>0. scan_group (hex_group n @ r) 0 0 = Some (k, n, r)"
proof -
  have stop: "scan_group r k a = Some (k, a, r)" for k a
    using r by (cases r) auto
  have e2: "n div 256 * 16 + n div 16 mod 16 = n div 16"
    using div_digit [of n 16 16] by simp
  have e3: "n div 4096 * 16 + n div 256 mod 16 = n div 256"
    using div_digit [of n 256 16] by simp
  have q: "n < 256 \<Longrightarrow> n div 16 < 16" "n < 4096 \<Longrightarrow> n div 256 < 16" "n div 4096 < 16"
    using assms(1) by (simp_all add: div_less_iff_less_mult)
  consider "n < 16" | "16 \<le> n" "n < 256" | "256 \<le> n" "n < 4096" | "4096 \<le> n" by linarith
  then show ?thesis
  proof cases
    case 1
    then show ?thesis using scan_group_digits(1) [of n r] by (auto simp: hex_digits4 stop)
  next
    case 2
    then show ?thesis using q(1) scan_group_digits(2) [of "n div 16" "n mod 16" r]
      by (auto simp: hex_digits4 stop)
  next
    case 3
    then show ?thesis
      using q(2) e2 scan_group_digits(3) [of "n div 256" "n div 16 mod 16" "n mod 16" r]
      by (auto simp: hex_digits4 stop)
  next
    case 4
    then show ?thesis
      using q(3) e2 e3 assms(1)
        scan_group_digits(4) [of "n div 4096" "n div 256 mod 16" "n div 16 mod 16" "n mod 16" r]
      by (auto simp: hex_digits4 stop)
  qed
qed


lemma itoa_not_Nil [simp]: "itoa n \<noteq> []"
  by (simp add: itoa_def)

lemma parseIPv4Fields_field:
  assumes "n < 256" "cs \<noteq> []" "length fs < 3"
  shows "parseIPv4Fields (itoa n @ CHR ''.'' # cs) 0 0 fs = parseIPv4Fields cs 0 0 (fs @ [n])"
proof -
  obtain k where "k > 0"
    and "parseIPv4Fields (itoa n @ CHR ''.'' # cs) 0 0 fs = parseIPv4Fields (CHR ''.'' # cs) n k fs"
    using parseIPv4Fields_itoa [OF assms(1)] by blast
  with assms(2,3) show ?thesis by (simp add: is_digit_def)
qed

lemma parseIPv4Fields_last:
  assumes "n < 256" "length fs = 3"
  shows "parseIPv4Fields (itoa n) 0 0 fs = Some (fs @ [n])"
  using parseIPv4Fields_itoa [OF assms(1), of "[]" fs] assms(2) by auto

lemma length4: "length xs = 4 \<longleftrightarrow> (\<exists>a b c d. xs = [a, b, c, d])"
  by (auto simp: numeral_eq_Suc length_Suc_conv)

lemma parseIPv4Fields_string4:
  "length b = 4 \<Longrightarrow> parseIPv4Fields (string4 b) 0 0 [] = Some (map unat b)"
  by (auto simp: length4 string4_def parseIPv4Fields_field parseIPv4Fields_last)

lemma find_first_of: "\<exists>x\<in>set xs. P x \<Longrightarrow> \<forall>x\<in>set xs. P x \<longrightarrow> x = c \<Longrightarrow> find P xs = Some c"
  by (induction xs) auto

lemma itoa_digits: "c \<in> set (itoa n) \<Longrightarrow> is_digit c"
  unfolding itoa_def by (rule digits_base_10_digits)

lemma set_Join: "set (Join sep xs) \<subseteq> \<Union> (set ` set xs) \<union> set sep"
  by (induction sep xs rule: Join.induct) auto

lemma string4_chars: "c \<in> set (string4 b) \<Longrightarrow> is_digit c \<or> c = CHR ''.''"
  using set_Join [of "''.''" "map (\<lambda>x. itoa (unat x)) b"]
  by (auto simp: string4_def dest: itoa_digits)

lemma ParseAddr_string4:
  assumes "length b = 4"
  shows "ParseAddr (string4 b) = Some (Addr4 b)"
proof -
  have "CHR ''.'' \<in> set (string4 b)"
    using assms by (auto simp: length4 string4_def)
  moreover have "\<not> is_digit (CHR '':'')" "\<not> is_digit (CHR ''%'')"
    by (simp_all add: is_digit_def)
  ultimately have "find (\<lambda>c. c = CHR ''.'' \<or> c = CHR '':'' \<or> c = CHR ''%'') (string4 b) = Some (CHR ''.'')"
    by (intro find_first_of) (auto dest: string4_chars)
  with assms show ?thesis
    by (simp add: ParseAddr_def parseIPv4Fields_string4 comp_def)
qed

subsection \<open>IPv6\<close>

definition group_bytes :: "nat list \<Rightarrow> nat list" where
  "group_bytes gs = concat (map (\<lambda>g. [g div 256, g mod 256]) gs)"

lemma group_bytes_simps [simp]:
  "group_bytes [] = []"
  "group_bytes (g # gs) = [g div 256, g mod 256] @ group_bytes gs"
  "group_bytes (gs @ hs) = group_bytes gs @ group_bytes hs"
  "length (group_bytes gs) = 2 * length gs"
  by (induction gs) (auto simp: group_bytes_def)

lemma hex_group_chars: "c \<in> set (hex_group g) \<Longrightarrow> is_hex_digit c"
  unfolding hex_group_def by (rule digits_base_16_hex)

lemma hex_group_Cons: "\<exists>c cs. hex_group g = c # cs \<and> c \<noteq> CHR '':''"
proof -
  obtain c cs where "hex_group g = c # cs" by (metis digits_base_not_Nil hex_group_def list.exhaust)
  moreover from this have "is_hex_digit c" using hex_group_chars [of c g] by simp
  then have "c \<noteq> CHR '':''" by (auto simp: is_hex_digit_def)
  ultimately show ?thesis by blast
qed

lemma Join_hex_Cons: "gs \<noteq> [] \<Longrightarrow> \<exists>c cs. Join '':'' (map hex_group gs) @ r = c # cs \<and> c \<noteq> CHR '':''"
  using hex_group_Cons [of "hd gs"] by (cases gs; cases "tl gs") auto

lemma ipv6_loop_last:
  assumes "g < 65536"
  shows "ipv6_loop (Suc n) (hex_group g) ip ell = Some ([], ip @ [g div 256, g mod 256], ell)"
  using scan_group_hex_group [OF assms, of "[]"] by auto

lemma ipv6_loop_group:
  assumes "g < 65536" and "c \<noteq> CHR '':''"
  shows "ipv6_loop (Suc n) (hex_group g @ CHR '':'' # c # cs) ip ell
    = ipv6_loop n (c # cs) (ip @ [g div 256, g mod 256]) ell"
  using scan_group_hex_group [OF assms(1), of "CHR '':'' # c # cs"] assms(2)
  by (auto simp: hex_val_def)

lemma ipv6_loop_ellipsis:
  assumes "g < 65536"
  shows "ipv6_loop (Suc n) (hex_group g @ ''::'' @ cs) ip None
    = (if cs = [] then Some ([], ip @ [g div 256, g mod 256], Some (length ip + 2))
       else ipv6_loop n cs (ip @ [g div 256, g mod 256]) (Some (length ip + 2)))"
  using scan_group_hex_group [OF assms(1), of "''::'' @ cs"]
  by (auto simp: hex_val_def)

declare ipv6_loop.simps [simp del]

lemma ipv6_loop_groups:
  assumes "gs \<noteq> []" "length gs \<le> n" "\<forall>g\<in>set gs. g < 65536"
  shows "ipv6_loop n (Join '':'' (map hex_group gs)) ip ell = Some ([], ip @ group_bytes gs, ell)"
  using assms
proof (induction gs arbitrary: n ip)
  case Nil
  then show ?case by simp
next
  case (Cons g gs)
  then obtain m where n: "n = Suc m" by (cases n) auto
  show ?case
  proof (cases "gs = []")
    case True
    with Cons.prems n show ?thesis by (simp add: ipv6_loop_last)
  next
    case False
    then obtain c cs where c: "Join '':'' (map hex_group gs) = c # cs" "c \<noteq> CHR '':''"
      using Join_hex_Cons [of gs "[]"] by auto
    have "ipv6_loop n (Join '':'' (map hex_group (g # gs))) ip ell
        = ipv6_loop (Suc m) (hex_group g @ CHR '':'' # c # cs) ip ell"
      using False n c by (simp add: Join_Cons)
    also have "\<dots> = ipv6_loop m (Join '':'' (map hex_group gs)) (ip @ [g div 256, g mod 256]) ell"
      using Cons.prems c by (simp add: ipv6_loop_group)
    also have "\<dots> = Some ([], (ip @ [g div 256, g mod 256]) @ group_bytes gs, ell)"
      using Cons.prems False n by (intro Cons.IH) auto
    finally show ?thesis by simp
  qed
qed

lemma ipv6_loop_compressed:
  assumes "pre \<noteq> []" "length pre + length suf \<le> n" "\<forall>g\<in>set (pre @ suf). g < 65536"
  shows "ipv6_loop n (Join '':'' (map hex_group pre) @ ''::'' @ Join '':'' (map hex_group suf)) ip None
    = Some ([], ip @ group_bytes (pre @ suf), Some (length ip + 2 * length pre))"
  using assms
proof (induction pre arbitrary: n ip)
  case Nil
  then show ?case by simp
next
  case (Cons g pre)
  then obtain m where n: "n = Suc m" by (cases n) auto
  show ?case
  proof (cases "pre = []")
    case True
    show ?thesis
    proof (cases "suf = []")
      case True
      with \<open>pre = []\<close> Cons.prems n show ?thesis
        using ipv6_loop_ellipsis [of g m "[]" ip] by simp
    next
      case False
      then have ne: "Join '':'' (map hex_group suf) \<noteq> []"
        using Join_hex_Cons [of suf "[]"] by auto
      have "ipv6_loop m (Join '':'' (map hex_group suf)) (ip @ [g div 256, g mod 256]) (Some (length ip + 2))
          = Some ([], (ip @ [g div 256, g mod 256]) @ group_bytes suf, Some (length ip + 2))"
        using False Cons.prems n \<open>pre = []\<close> by (intro ipv6_loop_groups) auto
      with ne \<open>pre = []\<close> Cons.prems n show ?thesis
        using ipv6_loop_ellipsis [of g m "Join '':'' (map hex_group suf)" ip] by simp
    qed
  next
    case False
    let ?r = "''::'' @ Join '':'' (map hex_group suf)"
    obtain c cs where c: "Join '':'' (map hex_group pre) @ ?r = c # cs" "c \<noteq> CHR '':''"
      using Join_hex_Cons [OF False, of ?r] by auto
    have "ipv6_loop n (Join '':'' (map hex_group (g # pre)) @ ?r) ip None
        = ipv6_loop (Suc m) (hex_group g @ CHR '':'' # c # cs) ip None"
      using False n c by (simp add: Join_Cons)
    also have "\<dots> = ipv6_loop m (Join '':'' (map hex_group pre) @ ?r) (ip @ [g div 256, g mod 256]) None"
      using Cons.prems c by (simp add: ipv6_loop_group)
    also have "\<dots> = Some ([], (ip @ [g div 256, g mod 256]) @ group_bytes (pre @ suf),
        Some (length (ip @ [g div 256, g mod 256]) + 2 * length pre))"
      using Cons.prems False n by (intro Cons.IH) auto
    finally show ?thesis by simp
  qed
qed


lemma run_at_le: "i \<le> length gs \<Longrightarrow> i + run_at gs i \<le> length gs"
proof -
  assume "i \<le> length gs"
  moreover have "run_at gs i \<le> length (drop i gs)" unfolding run_at_def by (rule length_takeWhile_le)
  ultimately show ?thesis by simp
qed

lemma run_at_zeros: "take (run_at gs i) (drop i gs) = replicate (run_at gs i) 0"
proof -
  have eq: "take (run_at gs i) (drop i gs) = takeWhile (\<lambda>g. g = 0) (drop i gs)"
    by (metis run_at_def takeWhile_eq_take)
  have "\<forall>x\<in>set (takeWhile (\<lambda>g. g = 0) (drop i gs)). x = 0"
    by (meson set_takeWhileD)
  then have "takeWhile (\<lambda>g. g = 0) (drop i gs) = replicate (run_at gs i) 0"
    by (metis replicate_length_same run_at_def)
  with eq show ?thesis by simp
qed

lemma foldl_invariant: "P a \<Longrightarrow> (\<And>p i. i \<in> set is \<Longrightarrow> P p \<Longrightarrow> P (f p i)) \<Longrightarrow> P (foldl f a is)"
  by (induction "is" arbitrary: a) auto

lemma best_run_is_run: "best_run gs = (s, l) \<Longrightarrow> l \<noteq> 0 \<Longrightarrow> 2 \<le> l \<and> l = run_at gs s \<and> s < 8"
proof -
  have "case best_run gs of (s, l) \<Rightarrow> l \<noteq> 0 \<longrightarrow> 2 \<le> l \<and> l = run_at gs s \<and> s < 8"
    unfolding best_run_def by (rule foldl_invariant) (auto split: if_splits)
  then show "best_run gs = (s, l) \<Longrightarrow> l \<noteq> 0 \<Longrightarrow> ?thesis" by simp
qed

lemma group_bytes_replicate: "group_bytes (replicate n 0) = replicate (2 * n) 0"
  by (induction n) auto

lemma Join_hex_no_dcolon: "gs \<noteq> [] \<Longrightarrow> \<not> HasPrefix (Join '':'' (map hex_group gs) @ r) ''::''"
  using Join_hex_Cons [of gs r] by (metis HasPrefix.simps(3))

lemma ipv6_expand_compressed:
  assumes "length pre + l + length suf = 8" "0 < l"
  shows "ipv6_expand ([], group_bytes (pre @ suf), Some (2 * length pre))
    = Some (group_bytes (pre @ replicate l 0 @ suf))"
proof -
  have "16 - length (group_bytes (pre @ suf)) = 2 * l" "length (group_bytes (pre @ suf)) < 16"
    using assms by auto
  then show ?thesis by (simp add: ipv6_expand_def group_bytes_replicate)
qed

lemma ipv6_body_compressed:
  assumes sum: "length pre + l + length suf = 8" "0 < l" and small: "\<forall>g\<in>set (pre @ suf). g < 65536"
  shows "ipv6_body (Join '':'' (map hex_group pre) @ ''::'' @ Join '':'' (map hex_group suf))
    = Some (group_bytes (pre @ replicate l 0 @ suf))"
proof (cases "pre = []")
  case False
  then show ?thesis
    using ipv6_loop_compressed [OF False, of suf 8 "[]"] Join_hex_no_dcolon [OF False] sum small
      ipv6_expand_compressed [OF sum] by (simp add: ipv6_body_def)
next
  case pre: True
  show ?thesis
  proof (cases "suf = []")
    case True
    with pre sum show ?thesis by (simp add: ipv6_body_def group_bytes_replicate)
  next
    case False
    then have "Join '':'' (map hex_group suf) \<noteq> []" using Join_hex_Cons [of suf "[]"] by auto
    moreover have "ipv6_loop 8 (Join '':'' (map hex_group suf)) [] (Some 0) = Some ([], group_bytes suf, Some 0)"
      using ipv6_loop_groups [OF False, of 8 "[]" "Some 0"] sum small by simp
    ultimately show ?thesis
      using pre ipv6_expand_compressed [OF sum] by (simp add: ipv6_body_def)
  qed
qed

lemma ipv6_body_string_groups:
  assumes len: "length gs = 8" and small: "\<forall>g\<in>set gs. g < 65536"
  shows "ipv6_body (string_groups gs) = Some (group_bytes gs)"
proof -
  obtain s l where sl: "best_run gs = (s, l)" by (cases "best_run gs")
  show ?thesis
  proof (cases "l = 0")
    case True
    have ne: "gs \<noteq> []" using len by auto
    with ipv6_loop_groups [OF ne, of 8 "[]" None] Join_hex_no_dcolon [OF ne, of "[]"] True sl len small
    show ?thesis by (simp add: string_groups_def ipv6_body_def ipv6_expand_def)
  next
    case False
    with best_run_is_run [OF sl] have l: "2 \<le> l" "l = run_at gs s" "s < 8" by auto
    with run_at_le [of s gs] len have sum: "s + l \<le> 8" by simp
    have gs: "take s gs @ replicate l 0 @ drop (s + l) gs = gs"
      using run_at_zeros [of gs s] l(2) by (metis add.commute append_take_drop_id drop_drop)
    have "\<forall>g\<in>set (take s gs @ drop (s + l) gs). g < 65536"
      using small by (auto dest: in_set_takeD in_set_dropD)
    with sl False sum l(1) len
    have "ipv6_body (string_groups gs) = Some (group_bytes (take s gs @ replicate l 0 @ drop (s + l) gs))"
      using ipv6_body_compressed [of "take s gs" l "drop (s + l) gs"] by (simp add: string_groups_def)
    then show ?thesis by (simp only: gs)
  qed
qed

lemma parseIPv4Fields_length: "parseIPv4Fields s v d fs = Some r \<Longrightarrow> length fs \<le> 3 \<Longrightarrow> length r = 4"
  by (induction s v d fs rule: parseIPv4Fields.induct) (auto split: if_splits)

lemma ipv6_loop_length:
  "ipv6_loop n s ip ell = Some (s', ip', ell') \<Longrightarrow> length ip + 2 * n \<le> 16 \<Longrightarrow> length ip' \<le> 16"
proof (induction n s ip ell rule: ipv6_loop.induct)
  case (2 n s ip ell)
  from "2.prems" obtain off acc r where g: "scan_group s 0 0 = Some (off, acc, r)" "off \<noteq> 0"
    by (auto simp: ipv6_loop.simps split: option.splits if_splits)
  show ?case
  proof (cases r)
    case Nil
    with g "2.prems" show ?thesis by (auto simp: ipv6_loop.simps)
  next
    case (Cons c cs)
    with g "2.prems" "2.IH" show ?thesis
      by (auto simp: ipv6_loop.simps split: if_splits list.splits dest!: parseIPv4Fields_length)
  qed
qed (simp add: ipv6_loop.simps)

lemma string_groups_chars: "c \<in> set (string_groups gs) \<Longrightarrow> is_hex_digit c \<or> c = CHR '':''"
proof -
  have J: "c \<in> set (Join '':'' (map hex_group xs)) \<Longrightarrow> is_hex_digit c \<or> c = CHR '':''" for xs
    using set_Join [of "'':''" "map hex_group xs"] by (auto dest: hex_group_chars)
  assume "c \<in> set (string_groups gs)"
  then show ?thesis
    by (auto simp: string_groups_def split: prod.splits if_splits dest: J)
qed

lemma string_groups_colon: "length gs = 8 \<Longrightarrow> CHR '':'' \<in> set (string_groups gs)"
proof -
  assume "length gs = 8"
  then obtain a b cs where "gs = a # b # cs" by (auto simp: numeral_eq_Suc length_Suc_conv)
  then show ?thesis by (cases "best_run gs") (auto simp: string_groups_def)
qed

lemma Index_None: "Index s [c] = None \<longleftrightarrow> c \<notin> set s"
  by (metis Contains_def Contains_single)

lemma ParseAddr_string_groups:
  assumes "length gs = 8" and "\<forall>g\<in>set gs. g < 65536"
  shows "ParseAddr (string_groups gs) = Some (Addr6 (map of_nat (group_bytes gs)) [])"
proof -
  have no: "\<not> is_hex_digit (CHR ''.'')" "\<not> is_hex_digit (CHR ''%'')"
    by (simp_all add: is_hex_digit_def)
  then have "CHR ''%'' \<notin> set (string_groups gs)" by (auto dest: string_groups_chars)
  moreover have "find (\<lambda>c. c = CHR ''.'' \<or> c = CHR '':'' \<or> c = CHR ''%'') (string_groups gs) = Some (CHR '':'')"
    using string_groups_colon [OF assms(1)] no by (intro find_first_of) (auto dest: string_groups_chars)
  ultimately show ?thesis
    using ipv6_body_string_groups [OF assms] Index_None [of "string_groups gs" "CHR ''%''"]
    by (simp add: ParseAddr_def parseIPv6_def)
qed

lemma groups_of_bounds: "g \<in> set (groups_of b) \<Longrightarrow> g < 65536"
proof (induction b rule: groups_of.induct)
  case (1 x y bs)
  have "unat x * 256 + unat y < 65536"
    using unat_byte_less [of x] unat_byte_less [of y] by linarith
  with 1 show ?case by auto
qed auto

lemma group_bytes_groups_of: "even (length b) \<Longrightarrow> map of_nat (group_bytes (groups_of b)) = b"
  by (induction b rule: groups_of.induct) (auto simp: div_add1_eq)

lemma length_groups_of: "length (groups_of b) = length b div 2"
  by (induction b rule: groups_of.induct) auto

lemma ParseIP_IPString:
  assumes "length ip = 16"
  shows "ParseIP (IPString ip) = Some ip"
proof (cases "To4 ip")
  case None
  have "ParseAddr (string_groups (groups_of ip)) = Some (Addr6 (map of_nat (group_bytes (groups_of ip))) [])"
    using assms by (intro ParseAddr_string_groups) (auto simp: length_groups_of dest: groups_of_bounds)
  with None assms show ?thesis by (simp add: ParseIP_def IPString_def group_bytes_groups_of)
next
  case (Some b)
  with assms have b: "take 12 ip = v4InV6Prefix" "b = drop 12 ip" by (auto simp: To4_def split: if_splits)
  with assms have "length b = 4" by simp
  with Some b assms show ?thesis
    by (simp add: ParseIP_def IPString_def ParseAddr_string4) (metis append_take_drop_id)
qed

lemma ParseIP_IPString4:
  "length b = 4 \<Longrightarrow> ParseIP (IPString b) = Some (v4InV6Prefix @ b)"
  by (simp add: ParseIP_def IPString_def To4_def ParseAddr_string4)


lemma ipv6_expand_length: "ipv6_expand (s, ip, ell) = Some r \<Longrightarrow> length ip \<le> 16 \<Longrightarrow> length r = 16"
  by (auto simp: ipv6_expand_def split: if_splits option.splits)

lemma ipv6_body_length: "ipv6_body s = Some ip \<Longrightarrow> length ip = 16"
  by (auto simp: ipv6_body_def bind_eq_Some_conv split: if_splits dest!: ipv6_loop_length ipv6_expand_length)

lemma ParseAddr_length:
  "ParseAddr s = Some (Addr4 b) \<Longrightarrow> length b = 4"
  "ParseAddr s = Some (Addr6 b z) \<Longrightarrow> length b = 16"
  by (auto simp: ParseAddr_def parseIPv6_def split: option.splits if_splits
      dest!: parseIPv4Fields_length ipv6_body_length)

lemma ParseIP_length [simp]: "ParseIP s = Some ip \<Longrightarrow> length ip = 16"
proof -
  assume "ParseIP s = Some ip"
  then obtain a where "ParseAddr s = Some a" "ip = As16 a"
    by (auto simp: ParseIP_def split: option.splits if_splits)
  then show ?thesis by (cases a) (auto dest: ParseAddr_length simp: v4InV6Prefix_def)
qed

section \<open>What a network contains\<close>

text \<open>
  The specification of a CIDR match: the bit strings of the two addresses agree on the first
  \<open>n\<close> bits, the most significant bit first.
\<close>

definition byte_bits :: "byte \<Rightarrow> bool list" where
  "byte_bits b = map (\<lambda>j. bit b (7 - j)) [0..<8]"

definition addr_bits :: "bytes \<Rightarrow> bool list" where
  "addr_bits ip = concat (map byte_bits ip)"

definition prefix_agrees :: "nat \<Rightarrow> bytes \<Rightarrow> bytes \<Rightarrow> bool" where
  "prefix_agrees n a b \<longleftrightarrow> take n (addr_bits a) = take n (addr_bits b)"

lemma length_byte_bits [simp]: "length (byte_bits b) = 8"
  by (simp add: byte_bits_def)

lemma byte_255: "(255 :: byte) = - 1"
  by simp

lemma bit_mask_byte: "bit (mask_byte n) j \<longleftrightarrow> j < 8 \<and> 8 \<le> j + n"
proof (cases "8 \<le> n")
  case True
  then show ?thesis by (simp add: mask_byte_def byte_255)
next
  case False
  then have "mask_byte n = NOT (mask (8 - n))" by (simp add: mask_byte_def byte_255)
  then show ?thesis
    using False by (auto simp: bit_not_iff bit_mask_iff)
qed

lemma and_mask_byte_eq_iff:
  "a AND mask_byte n = b AND mask_byte n \<longleftrightarrow> take n (byte_bits a) = take n (byte_bits b)"
proof -
  have "a AND mask_byte n = b AND mask_byte n \<longleftrightarrow> (\<forall>j<8. 8 \<le> j + n \<longrightarrow> bit a j = bit b j)"
    by (auto simp: bit_eq_iff bit_and_iff bit_mask_byte)
  also have "\<dots> \<longleftrightarrow> (\<forall>i<8. i < n \<longrightarrow> bit a (7 - i) = bit b (7 - i))"
  proof safe
    fix i assume "\<forall>j<8. 8 \<le> j + n \<longrightarrow> bit a j = bit b j" "i < 8" "i < n" "bit a (7 - i)"
    then show "bit b (7 - i)" by simp
  next
    fix i assume "\<forall>j<8. 8 \<le> j + n \<longrightarrow> bit a j = bit b j" "i < 8" "i < n" "bit b (7 - i)"
    then show "bit a (7 - i)" by simp
  next
    fix j assume *: "\<forall>i<8. i < n \<longrightarrow> bit a (7 - i) = bit b (7 - i)" "j < 8" "8 \<le> j + n"
    from *(1) [rule_format, of "7 - j"] *(2,3) show "bit a j \<Longrightarrow> bit b j" by simp
    from *(1) [rule_format, of "7 - j"] *(2,3) show "bit b j \<Longrightarrow> bit a j" by simp
  qed
  also have "\<dots> \<longleftrightarrow> take n (byte_bits a) = take n (byte_bits b)"
    by (auto simp: byte_bits_def list_eq_iff_nth_eq)
  finally show ?thesis .
qed

fun masks :: "nat \<Rightarrow> nat \<Rightarrow> bytes" where
  "masks n 0 = []"
| "masks n (Suc k) = mask_byte n # masks (n - 8) k"

lemma CIDRMask_masks: "CIDRMask n (8 * k) = masks n k"
proof (induction k arbitrary: n)
  case (Suc k)
  have "CIDRMask n (8 * Suc k) = mask_byte n # CIDRMask (n - 8) (8 * k)"
    by (simp add: CIDRMask_def upt_conv_Cons map_Suc_upt [symmetric] comp_def del: upt_Suc)
  with Suc show ?case by simp
qed (simp add: CIDRMask_def)

lemma masks_agree:
  "length a = k \<Longrightarrow> length b = k \<Longrightarrow>
     map2 (AND) a (masks n k) = map2 (AND) b (masks n k) \<longleftrightarrow> prefix_agrees n a b"
proof (induction k arbitrary: a b n)
  case (Suc k)
  then obtain x a' y b' where ab: "a = x # a'" "b = y # b'" "length a' = k" "length b' = k"
    by (auto simp: length_Suc_conv)
  have "take n (byte_bits x) = take n (byte_bits y) \<and> take (n - 8) (addr_bits a') = take (n - 8) (addr_bits b')
      \<longleftrightarrow> take n (addr_bits a) = take n (addr_bits b)"
    by (simp add: ab addr_bits_def)
  with Suc.IH [OF ab(3,4), of "n - 8"] show ?case
    by (simp add: ab and_mask_byte_eq_iff prefix_agrees_def)
qed (simp add: prefix_agrees_def)

lemma masks_absorb: "length a = k \<Longrightarrow> map2 (AND) (map2 (AND) a (masks n k)) (masks n k) = map2 (AND) a (masks n k)"
  by (induction k arbitrary: a n) (auto simp: length_Suc_conv and.assoc)

lemma length_masks [simp]: "length (masks n k) = k"
  by (induction k arbitrary: n) auto


lemma length_v4InV6Prefix [simp]: "length v4InV6Prefix = 12"
  by (simp add: v4InV6Prefix_def)

definition net_of :: "Addr \<Rightarrow> nat \<Rightarrow> IPNet" where
  "net_of a n = \<lparr>netIP = MaskIP (As16 a) (CIDRMask n (BitLen a)), netMask = CIDRMask n (BitLen a)\<rparr>"

lemma ParseCIDR_net_of:
  "ParseCIDR s = Some net \<Longrightarrow>
     \<exists>k a n. Index s ''/'' = Some k \<and> ParseAddr (take k s) = Some a \<and> Zone a = []
       \<and> dtoi (drop (k + 1) s) = Some (n, length s - (k + 1)) \<and> n \<le> BitLen a \<and> net = net_of a n"
  by (auto simp: ParseCIDR_def net_of_def not_less split: option.splits if_splits)

lemma NetContains_v4:
  assumes "length b = 4" "length ip = 16"
  shows "NetContains (net_of (Addr4 b) n) ip \<longleftrightarrow> (\<exists>x. To4 ip = Some x \<and> prefix_agrees n b x)"
proof -
  have m: "CIDRMask n 32 = masks n 4" using CIDRMask_masks [of n 4] by simp
  have net: "networkNumberAndMask (net_of (Addr4 b) n) = (map2 (AND) b (masks n 4), masks n 4)"
    using assms by (simp add: networkNumberAndMask_def net_of_def MaskIP_def m To4_def)
  show ?thesis
  proof (cases "To4 ip")
    case None
    with net assms show ?thesis by (simp add: NetContains_def)
  next
    case (Some x)
    with assms have "length x = 4" by (auto simp: To4_def split: if_splits)
    with Some net assms show ?thesis
      by (simp add: NetContains_def masks_absorb masks_agree)
  qed
qed

lemma masks_nth: "i < k \<Longrightarrow> masks n k ! i = mask_byte (n - 8 * i)"
  by (induction k arbitrary: n i) (auto simp: nth_Cons split: nat.splits)

lemma and_mask_byte_full: "a AND mask_byte n = 255 \<Longrightarrow> 8 \<le> n"
proof -
  assume "a AND mask_byte n = 255"
  then have "bit (a AND mask_byte n) 0" by (simp add: byte_255)
  then show "8 \<le> n" by (simp add: bit_and_iff bit_mask_byte)
qed

lemma mapped_prefix_masked:
  assumes "length ip = 16" "take 12 (map2 (AND) ip (masks n 16)) = v4InV6Prefix"
  shows "take 12 ip = v4InV6Prefix"
proof -
  have nth: "ip ! i AND mask_byte (n - 8 * i) = v4InV6Prefix ! i" if "i < 12" for i
  proof -
    have "v4InV6Prefix ! i = take 12 (map2 (AND) ip (masks n 16)) ! i" by (simp only: assms(2))
    also have "\<dots> = ip ! i AND mask_byte (n - 8 * i)" using that assms(1) by (simp add: masks_nth)
    finally show ?thesis by simp
  qed
  have "ip ! 11 AND mask_byte (n - 88) = 255"
    using nth [of 11] by (simp add: v4InV6Prefix_def)
  then have "8 \<le> n - 88" by (rule and_mask_byte_full)
  then have "96 \<le> n" by simp
  then have "mask_byte (n - 8 * i) = - 1" if "i < 12" for i
    using that by (simp add: mask_byte_def byte_255)
  with nth assms(1) show ?thesis
    by (intro nth_equalityI) auto
qed

lemma NetContains_v6:
  assumes "length b = 16" "length ip = 16" "To4 ip = None"
  shows "NetContains (net_of (Addr6 b z) n) ip \<longleftrightarrow> prefix_agrees n b ip"
proof -
  have m: "CIDRMask n 128 = masks n 16" using CIDRMask_masks [of n 16] by simp
  have netIP: "netIP (net_of (Addr6 b z) n) = map2 (AND) b (masks n 16)"
    using assms by (simp add: net_of_def MaskIP_def m)
  show ?thesis
  proof (cases "To4 (netIP (net_of (Addr6 b z) n))")
    case None
    then have "networkNumberAndMask (net_of (Addr6 b z) n) = (map2 (AND) b (masks n 16), masks n 16)"
      using assms netIP by (simp add: networkNumberAndMask_def m) (simp add: net_of_def m)
    with assms show ?thesis by (simp add: NetContains_def masks_absorb masks_agree)
  next
    case (Some c)
    with netIP assms(1) have c: "take 12 (map2 (AND) b (masks n 16)) = v4InV6Prefix" "length c = 4"
      by (auto simp: To4_def split: if_splits)
    have "\<not> prefix_agrees n b ip"
    proof
      assume "prefix_agrees n b ip"
      with assms have "map2 (AND) b (masks n 16) = map2 (AND) ip (masks n 16)" by (simp add: masks_agree)
      with c assms have "take 12 ip = v4InV6Prefix" by (simp add: mapped_prefix_masked)
      with assms show False by (simp add: To4_def)
    qed
    moreover have "fst (networkNumberAndMask (net_of (Addr6 b z) n)) \<in> {c, []}"
      using Some by (simp add: networkNumberAndMask_def)
    ultimately show ?thesis
      using c(2) assms by (auto simp: NetContains_def split: prod.splits)
  qed
qed

end
