(* ===== verification/Config.thy ===== *)
theory Config
  imports GoBase
begin

text \<open>
  The configuration types of \<^verbatim>\<open>src/pkg/config/types.go\<close>.  A struct is a record whose fields carry a
  short prefix for the struct; a pointer field that may be nil is an \<open>option\<close>; a Go \<open>int\<close> read from
  JSON is an \<open>int\<close>.  A Go map is the list of its entries in the order in which a \<^verbatim>\<open>range\<close> loop visits
  them: Go leaves that order open, and the theorems hold for every list, so for every order.  The
  keys of a map are distinct, which the predicate \<open>map_wf\<close> says where a proof needs it.
\<close>

section \<open>Go maps\<close>

type_synonym ('k, 'v) gomap = "('k \<times> 'v) list"

definition map_wf :: "('k, 'v) gomap \<Rightarrow> bool" where
  "map_wf m = distinct (map fst m)"

fun map_put :: "'k \<Rightarrow> 'v \<Rightarrow> ('k, 'v) gomap \<Rightarrow> ('k, 'v) gomap" where
  "map_put k v [] = [(k, v)]"
| "map_put k v ((k', v') # m) = (if k = k' then (k, v) # m else (k', v') # map_put k v m)"

fun map_del :: "'k \<Rightarrow> ('k, 'v) gomap \<Rightarrow> ('k, 'v) gomap" where
  "map_del k [] = []"
| "map_del k ((k', v') # m) = (if k = k' then map_del k m else (k', v') # map_del k m)"

lemma map_of_put [simp]: "map_of (map_put k v m) k' = (if k' = k then Some v else map_of m k')"
  by (induction m) auto

lemma map_of_del [simp]: "map_of (map_del k m) k' = (if k' = k then None else map_of m k')"
  by (induction m) auto

lemma keys_put [simp]: "fst ` set (map_put k v m) = insert k (fst ` set m)"
  unfolding dom_map_of_conv_image_fst [symmetric] by (auto simp: dom_def split: if_splits)

lemma keys_del [simp]: "fst ` set (map_del k m) = fst ` set m - {k}"
  unfolding dom_map_of_conv_image_fst [symmetric] by (auto simp: dom_def split: if_splits)

lemma map_wf_Nil [simp]: "map_wf []"
  by (simp add: map_wf_def)

lemma map_wf_put [simp]: "map_wf m \<Longrightarrow> map_wf (map_put k v m)"
proof (induction m)
  case Nil
  then show ?case by (simp add: map_wf_def)
next
  case (Cons p m)
  then show ?case
    by (cases p) (auto simp: map_wf_def image_iff dest: arg_cong [where f = "image fst"])
qed

lemma map_wf_del [simp]: "map_wf m \<Longrightarrow> map_wf (map_del k m)"
proof (induction m)
  case (Cons p m)
  then show ?case by (cases p) (auto simp: map_wf_def)
qed simp

lemma length_put: "length (map_put k v m) = (if map_of m k = None then length m + 1 else length m)"
  by (induction m) auto

lemma length_del: "map_wf m \<Longrightarrow> length (map_del k m) = (if map_of m k = None then length m else length m - 1)"
proof (induction m)
  case (Cons p m)
  obtain k' v' where p: "p = (k', v')" by (cases p)
  from Cons.prems p have wf: "map_wf m" and fresh: "k' \<notin> fst ` set m" by (auto simp: map_wf_def)
  have none: "map_of m k' = None" using fresh by (simp add: map_of_eq_None_iff)
  show ?case
  proof (cases "k = k'")
    case True
    with Cons.IH [OF wf] none p show ?thesis by simp
  next
    case False
    with Cons.IH [OF wf] p show ?thesis
      by (cases "map_of m k"; cases m) auto
  qed
qed simp

lemma map_del_fresh: "map_of m k = None \<Longrightarrow> map_del k m = m"
  by (induction m) (auto split: if_splits)

section \<open>Structs\<close>

record DnsRecord =
  drType :: string
  drAddress :: string
  drTarget :: string
  drData :: "string list"
  drPriority :: "int option"
  drExchange :: string
  drWeight :: "int option"
  drPort :: "int option"

record TlsConfig =
  tcCert :: string
  tcKey :: string
  tcCa :: string
  tcServerName :: string

record HttpProxyConfig =
  hpEnabled :: bool
  hpUpstream :: string
  hpHeaders :: "(string, string) gomap"
  hpForwardRequestBody :: bool
  hpMaxRequestBodyBytes :: int
  hpClientTls :: "TlsConfig option"

record TlsProxyConfig =
  tpTargetPort :: int
  tpTargetIp :: string

record RedirectConfig =
  rcEnabled :: bool
  rcCode :: int
  rcTarget :: string

record HostConfig =
  hcRecords :: "DnsRecord list"
  hcHttpProxy :: "HttpProxyConfig option"
  hcTlsProxy :: "TlsProxyConfig option"
  hcRedirect :: "RedirectConfig option"

record FirewallConfig =
  DefaultPolicy :: string
  AllowlistDomains :: "string list"
  BlocklistDomains :: "string list"
  AllowlistRanges :: "string list"
  BlocklistRanges :: "string list"
  AllowlistIps :: "string list"
  BlocklistIps :: "string list"

record ControlPlaneConfig =
  cpEnabled :: "bool option"
  cpPort :: int
  cpSocketPath :: string
  cpApiKey :: string
  cpTls :: "TlsConfig option"

record ServerConfig =
  scPort :: int
  scHttpPort :: "int option"
  scHttpsPort :: "int option"
  scTls :: "TlsConfig option"
  scDotPort :: "int option"
  scDohPort :: "int option"
  scFallbackDns :: string
  scFirewall :: "FirewallConfig option"
  scControlPlane :: "ControlPlaneConfig option"
  scDnsCacheMaxSize :: int
  scDnsCacheTtlMs :: int
  scMaxTcpConnections :: int
  scTcpIdleTimeoutMs :: int
  scRateLimitMaxRequests :: int
  scRateLimitWindowMs :: int
  scUpstreamHttpProxy :: string
  scUpstreamHttpsProxy :: string
  scUpstreamNoProxy :: string
  scHosts :: "(string, HostConfig) gomap"

text \<open>The zero value \<^verbatim>\<open>config.HostConfig{}\<close>.\<close>

definition emptyHostConfig :: HostConfig where
  "emptyHostConfig = \<lparr>hcRecords = [], hcHttpProxy = None, hcTlsProxy = None, hcRedirect = None\<rparr>"

section \<open>Protocol constants\<close>

named_theorems dns_consts \<open>values of the DNS protocol constants\<close>

definition DnsClassIn :: u16 where [dns_consts]: "DnsClassIn = 1"
definition DnsTypeA :: u16 where [dns_consts]: "DnsTypeA = 1"
definition DnsTypeNS :: u16 where [dns_consts]: "DnsTypeNS = 2"
definition DnsTypeCNAME :: u16 where [dns_consts]: "DnsTypeCNAME = 5"
definition DnsTypePTR :: u16 where [dns_consts]: "DnsTypePTR = 12"
definition DnsTypeMX :: u16 where [dns_consts]: "DnsTypeMX = 15"
definition DnsTypeTXT :: u16 where [dns_consts]: "DnsTypeTXT = 16"
definition DnsTypeAAAA :: u16 where [dns_consts]: "DnsTypeAAAA = 28"
definition DnsTypeSRV :: u16 where [dns_consts]: "DnsTypeSRV = 33"
definition DnsTypeOPT :: u16 where [dns_consts]: "DnsTypeOPT = 41"
definition DnsTypeRRSIG :: u16 where [dns_consts]: "DnsTypeRRSIG = 46"
definition DnsTypeDNSKEY :: u16 where [dns_consts]: "DnsTypeDNSKEY = 48"
definition DnsRcodeNoError :: nat where [dns_consts]: "DnsRcodeNoError = 0"
definition DnsRcodeServFail :: nat where [dns_consts]: "DnsRcodeServFail = 2"
definition DnsRcodeNxDomain :: nat where [dns_consts]: "DnsRcodeNxDomain = 3"
definition DnsRcodeRefused :: nat where [dns_consts]: "DnsRcodeRefused = 5"
definition FlagQR :: u16 where [dns_consts]: "FlagQR = push_bit 15 1"
definition FlagAA :: u16 where [dns_consts]: "FlagAA = push_bit 10 1"
definition FlagRD :: u16 where [dns_consts]: "FlagRD = push_bit 8 1"

end
