(* ===== verification/Firewall.thy ===== *)
theory Firewall
  imports GoNet Config
begin

text \<open>
  The policy engine of \<^verbatim>\<open>src/pkg/firewall/firewall.go\<close>: matching of addresses, networks and domain
  patterns, the built-in list of restricted outbound addresses, and the evaluation of a
  configuration.  The verdicts are the strings \<^verbatim>\<open>ALLOW\<close> and \<^verbatim>\<open>DENY\<close> of the source; a nil
  configuration is \<open>None\<close>.

  The lemmas show what the string-based code decides about addresses: \<open>NormalizeIp\<close> is a canonical
  form, the evaluation of an address is a decision list over parsed addresses, and the hard-coded
  byte tests of \<open>IsRestrictedOutbound\<close> are exactly a list of CIDR blocks.
\<close>

section \<open>The engine\<close>

definition MatchCidr :: "string \<Rightarrow> string \<Rightarrow> bool" where
  "MatchCidr ipStr cidrStr =
     (case ParseIP ipStr of
        None \<Rightarrow> False
      | Some ip \<Rightarrow>
          (case ParseCIDR cidrStr of
             None \<Rightarrow> False
           | Some ipNet \<Rightarrow> NetContains ipNet ip))"

definition MatchDomain :: "golib \<Rightarrow> string \<Rightarrow> string \<Rightarrow> bool" where
  "MatchDomain L domain pattern =
     (if pattern = ''*'' then True
      else
        let normDomain = ToLower L (TrimSuffix domain ''.'');
            normPattern = ToLower L (TrimSuffix pattern ''.'')
        in if normPattern = normDomain then True
           else if HasPrefix normPattern ''*.'' then
             HasSuffix normDomain (''.'' @ drop 2 normPattern)
           else False)"

definition NormalizeIp :: "string \<Rightarrow> string" where
  "NormalizeIp ipStr =
     (case ParseIP ipStr of
        None \<Rightarrow> ipStr
      | Some ip \<Rightarrow> (case To4 ip of Some ip4 \<Rightarrow> IPString ip4 | None \<Rightarrow> IPString ip))"

definition restricted4 :: "byte \<Rightarrow> byte \<Rightarrow> bool" where
  "restricted4 b0 b1 =
     (if b0 = 0 then True
      else if b0 = 10 then True
      else if b0 = 127 then True
      else if b0 = 100 \<and> 64 \<le> b1 \<and> b1 \<le> 127 then True
      else if b0 = 169 \<and> b1 = 254 then True
      else if b0 = 172 \<and> 16 \<le> b1 \<and> b1 \<le> 31 then True
      else if b0 = 192 \<and> b1 = 168 then True
      else if 224 \<le> b0 then True
      else False)"

definition restricted6 :: "golib \<Rightarrow> bytes \<Rightarrow> bool" where
  "restricted6 L ip =
     (let normalizedIPv6 = ToLower L (IPString ip)
      in if normalizedIPv6 = ''::1'' \<or> normalizedIPv6 = ''::'' then True
         else if ip ! 0 AND 0xfe = 0xfc then True
         else if ip ! 0 = 0xfe \<and> ip ! 1 AND 0xc0 = 0x80 then True
         else False)"

definition IsRestrictedOutbound :: "golib \<Rightarrow> string \<Rightarrow> bool" where
  "IsRestrictedOutbound L ipStr =
     (case ParseIP (NormalizeIp ipStr) of
        None \<Rightarrow> True
      | Some ip \<Rightarrow>
          (case To4 ip of
             Some ip4 \<Rightarrow> restricted4 (ip4 ! 0) (ip4 ! 1)
           | None \<Rightarrow> if length ip = 16 then restricted6 L ip else False))"

definition matchAllowlistIps :: "string \<Rightarrow> FirewallConfig option \<Rightarrow> bool" where
  "matchAllowlistIps normalized fw =
     (case fw of
        None \<Rightarrow> False
      | Some f \<Rightarrow> list_ex (\<lambda>ip. NormalizeIp ip = normalized) (AllowlistIps f))"

definition matchAllowlistRanges :: "string \<Rightarrow> FirewallConfig option \<Rightarrow> bool" where
  "matchAllowlistRanges normalized fw =
     (case fw of
        None \<Rightarrow> False
      | Some f \<Rightarrow> list_ex (\<lambda>rangeStr. MatchCidr normalized rangeStr) (AllowlistRanges f))"

definition EvaluateOutbound :: "golib \<Rightarrow> string \<Rightarrow> FirewallConfig option \<Rightarrow> string" where
  "EvaluateOutbound L ipStr fw =
     (let normalized = NormalizeIp ipStr
      in if matchAllowlistIps normalized fw \<or> matchAllowlistRanges normalized fw then ''ALLOW''
         else if IsRestrictedOutbound L normalized then ''DENY''
         else ''ALLOW'')"

definition EvaluateIp :: "string \<Rightarrow> FirewallConfig option \<Rightarrow> string" where
  "EvaluateIp ipStr fw =
     (case fw of
        None \<Rightarrow> ''ALLOW''
      | Some f \<Rightarrow>
          let normalized = NormalizeIp ipStr
          in (case ParseIP normalized of
                None \<Rightarrow> ''DENY''
              | Some ip \<Rightarrow>
                  if list_ex (\<lambda>bip. NormalizeIp bip = normalized) (BlocklistIps f) then ''DENY''
                  else if matchAllowlistIps normalized fw then ''ALLOW''
                  else if list_ex (\<lambda>rangeStr. MatchCidr normalized rangeStr) (BlocklistRanges f) then ''DENY''
                  else if matchAllowlistRanges normalized fw then ''ALLOW''
                  else if DefaultPolicy f = ''allow'' then ''ALLOW''
                  else ''DENY''))"

definition EvaluateDomain :: "golib \<Rightarrow> string \<Rightarrow> FirewallConfig option \<Rightarrow> string" where
  "EvaluateDomain L domain fw =
     (case fw of
        None \<Rightarrow> ''ALLOW''
      | Some f \<Rightarrow>
          if list_ex (\<lambda>pattern. MatchDomain L domain pattern) (BlocklistDomains f) then ''DENY''
          else if list_ex (\<lambda>pattern. MatchDomain L domain pattern) (AllowlistDomains f) then ''ALLOW''
          else if DefaultPolicy f = ''allow'' then ''ALLOW''
          else ''DENY'')"

section \<open>Normal forms of addresses\<close>

lemma To4_ParseIP: "ParseIP s = Some ip \<Longrightarrow> To4 ip = Some b \<Longrightarrow> ip = v4InV6Prefix @ b \<and> length b = 4"
proof -
  assume "ParseIP s = Some ip" "To4 ip = Some b"
  then have "length ip = 16" "take 12 ip = v4InV6Prefix" "b = drop 12 ip"
    by (auto simp: To4_def split: if_splits dest: ParseIP_length)
  moreover have "ip = take 12 ip @ drop 12 ip" by simp
  ultimately show ?thesis by simp
qed

lemma IPString_To4: "length ip = 16 \<Longrightarrow> To4 ip = Some b \<Longrightarrow> IPString b = IPString ip"
proof -
  assume a: "length ip = 16" "To4 ip = Some b"
  then have "length b = 4" by (auto simp: To4_def split: if_splits)
  with a show ?thesis by (simp add: IPString_def) (simp add: To4_def)
qed

lemma NormalizeIp_IPString: "ParseIP s = Some ip \<Longrightarrow> NormalizeIp s = IPString ip"
  by (auto simp: NormalizeIp_def IPString_To4 split: option.splits)

lemma ParseIP_NormalizeIp [simp]: "ParseIP (NormalizeIp s) = ParseIP s"
proof (cases "ParseIP s")
  case None
  then show ?thesis by (simp add: NormalizeIp_def)
next
  case (Some ip)
  then have "NormalizeIp s = IPString ip" "length ip = 16"
    by (simp_all add: NormalizeIp_IPString)
  with Some show ?thesis by (simp add: ParseIP_IPString)
qed

lemma NormalizeIp_idem [simp]: "NormalizeIp (NormalizeIp s) = NormalizeIp s"
proof (cases "ParseIP s")
  case None
  then show ?thesis by (simp add: NormalizeIp_def)
next
  case (Some ip)
  then show ?thesis
    using NormalizeIp_IPString [of s ip] NormalizeIp_IPString [of "NormalizeIp s" ip]
      ParseIP_NormalizeIp [of s] by metis
qed

lemma NormalizeIp_eq_iff:
  assumes "ParseIP s = Some ip"
  shows "NormalizeIp t = NormalizeIp s \<longleftrightarrow> ParseIP t = Some ip"
  using assms ParseIP_NormalizeIp [of t] ParseIP_NormalizeIp [of s] NormalizeIp_IPString
  by metis

lemma MatchCidr_NormalizeIp [simp]: "MatchCidr (NormalizeIp s) = MatchCidr s"
  by (simp add: MatchCidr_def fun_eq_iff)

lemma IsRestrictedOutbound_NormalizeIp [simp]:
  "IsRestrictedOutbound L (NormalizeIp s) = IsRestrictedOutbound L s"
  by (simp add: IsRestrictedOutbound_def)

section \<open>The restricted addresses as CIDR blocks\<close>

lemma restricted_masks:
  "(b :: byte) AND 192 = 64 \<longleftrightarrow> 64 \<le> b \<and> b \<le> 127"
  "(b :: byte) AND 240 = 16 \<longleftrightarrow> 16 \<le> b \<and> b \<le> 31"
  "(b :: byte) AND 224 = 224 \<longleftrightarrow> 224 \<le> b"
proof -
  have "n div 64 * 64 = 64 \<longleftrightarrow> 64 \<le> n \<and> n \<le> 127" "n div 16 * 16 = 16 \<longleftrightarrow> 16 \<le> n \<and> n \<le> 31"
    "n < 256 \<Longrightarrow> n div 32 * 32 = 224 \<longleftrightarrow> 224 \<le> n" for n :: nat
    by auto
  from this(1) [of "unat b"] this(2) [of "unat b"] this(3) [of "unat b", OF unat_byte_less]
  show "b AND 192 = 64 \<longleftrightarrow> 64 \<le> b \<and> b \<le> 127" "b AND 240 = 16 \<longleftrightarrow> 16 \<le> b \<and> b \<le> 31"
    "b AND 224 = 224 \<longleftrightarrow> 224 \<le> b"
    unfolding and_high_eq [OF high_masks(1)] and_high_eq [OF high_masks(2)] and_high_eq [OF high_masks(3)]
      word_le_nat_alt by simp_all
qed

definition restricted_blocks :: "string list" where
  "restricted_blocks =
     [''0.0.0.0/8'', ''10.0.0.0/8'', ''127.0.0.0/8'', ''100.64.0.0/10'', ''169.254.0.0/16'',
      ''172.16.0.0/12'', ''192.168.0.0/16'', ''224.0.0.0/3'',
      ''::1/128'', ''::/128'', ''fc00::/7'', ''fe80::/10'']"

definition restricted_nets :: "(bytes \<times> bytes) list" where
  "restricted_nets =
    [([0, 0, 0, 0], [255, 0, 0, 0]), ([10, 0, 0, 0], [255, 0, 0, 0]),
     ([127, 0, 0, 0], [255, 0, 0, 0]), ([100, 64, 0, 0], [255, 192, 0, 0]),
     ([169, 254, 0, 0], [255, 255, 0, 0]), ([172, 16, 0, 0], [255, 240, 0, 0]),
     ([192, 168, 0, 0], [255, 255, 0, 0]), ([224, 0, 0, 0], [224, 0, 0, 0]),
     (replicate 15 0 @ [1], replicate 16 255), (replicate 16 0, replicate 16 255),
     (0xfc # replicate 15 0, 0xfe # replicate 15 0),
     (0xfe # 0x80 # replicate 14 0, 0xff # 0xc0 # replicate 14 0)]"

lemma restricted_blocks_parsed:
  "map (\<lambda>c. map_option networkNumberAndMask (ParseCIDR c)) restricted_blocks = map Some restricted_nets"
  by code_simp

definition block_contains :: "bytes \<Rightarrow> bytes \<times> bytes \<Rightarrow> bool" where
  "block_contains x b = (length x = length (fst b) \<and> map2 (AND) (fst b) (snd b) = map2 (AND) x (snd b))"

lemma MatchCidr_restricted:
  assumes "ParseIP s = Some ip"
  shows "list_ex (MatchCidr s) restricted_blocks \<longleftrightarrow>
    list_ex (block_contains (case To4 ip of Some x \<Rightarrow> x | None \<Rightarrow> ip)) restricted_nets"
proof -
  have "MatchCidr s = (\<lambda>c. \<exists>b. map_option networkNumberAndMask (ParseCIDR c) = Some b
      \<and> block_contains (case To4 ip of Some x \<Rightarrow> x | None \<Rightarrow> ip) b)"
    using assms
    by (auto simp: MatchCidr_def NetContains_def block_contains_def Let_def fun_eq_iff split: option.splits)
  then show ?thesis
    using list_ex_map_option [OF restricted_blocks_parsed] by simp
qed

lemma block_contains_length: "length x \<noteq> length (fst b) \<Longrightarrow> \<not> block_contains x b"
  by (simp add: block_contains_def)

lemma and_255: "b AND 255 = (b :: byte)"
  by (simp add: byte_255)

lemma block_contains4:
  "block_contains [a, b, c, d] ([p, q, r, s], [k, l, m, n]) \<longleftrightarrow>
     a AND k = p AND k \<and> b AND l = q AND l \<and> c AND m = r AND m \<and> d AND n = s AND n"
  by (auto simp: block_contains_def)

lemma restricted4_cases:
  "restricted4 a b \<longleftrightarrow> a = 0 \<or> a = 10 \<or> a = 127 \<or> a = 100 \<and> b AND 192 = 64 \<or> a = 169 \<and> b = 254
    \<or> a = 172 \<and> b AND 240 = 16 \<or> a = 192 \<and> b = 168 \<or> a AND 224 = 224"
  unfolding restricted4_def restricted_masks by simp

lemma nets4:
  "block_contains [a, b, c, d] ([n, 0, 0, 0], [255, 0, 0, 0]) \<longleftrightarrow> a = n"
  "block_contains [a, b, c, d] ([n, k, 0, 0], [255, 255, 0, 0]) \<longleftrightarrow> a = n \<and> b = k"
  "block_contains [a, b, c, d] ([100, 64, 0, 0], [255, 192, 0, 0]) \<longleftrightarrow> a = 100 \<and> b AND 192 = 64"
  "block_contains [a, b, c, d] ([172, 16, 0, 0], [255, 240, 0, 0]) \<longleftrightarrow> a = 172 \<and> b AND 240 = 16"
  "block_contains [a, b, c, d] ([224, 0, 0, 0], [224, 0, 0, 0]) \<longleftrightarrow> a AND 224 = 224"
  by (simp_all add: block_contains4 and_255)

lemma nets4_other:
  "length n = 16 \<Longrightarrow> block_contains [a, b, c, d] (n, m) \<longleftrightarrow> False"
  "length x = 16 \<Longrightarrow> block_contains x ([a, b, c, d], m) \<longleftrightarrow> False"
  by (simp_all add: block_contains_length)

lemma restricted4_nets:
  assumes "length x = 4"
  shows "restricted4 (x ! 0) (x ! 1) \<longleftrightarrow> list_ex (block_contains x) restricted_nets"
proof -
  obtain a b c d where x: "x = [a, b, c, d]" using iffD1 [OF length4 assms] by blast
  have "length (replicate 15 0 @ [1 :: byte]) = 16" "length (replicate 16 (0 :: byte)) = 16"
    "length (0xfc # replicate 15 (0 :: byte)) = 16" "length (0xfe # 0x80 # replicate 14 (0 :: byte)) = 16"
    by simp_all
  note other = this [THEN nets4_other(1)]
  show ?thesis
    unfolding x restricted_nets_def list_ex_Nil_iff list_ex_Cons_iff nets4 other nth_Cons_0 One_nat_def nth_Cons_Suc
      restricted4_cases by blast
qed

lemma IPString_v6_lower: "length ip = 16 \<Longrightarrow> To4 ip = None \<Longrightarrow> ToLower L (IPString ip) = IPString ip"
  by (rule ToLower_fixed) (auto simp: IPString_def is_hex_digit_def dest!: string_groups_chars)

lemma IPString_loopback:
  assumes "length ip = 16"
  shows "IPString ip = ''::1'' \<longleftrightarrow> ip = replicate 15 0 @ [1]" "IPString ip = ''::'' \<longleftrightarrow> ip = replicate 16 0"
proof -
  have "ParseIP ''::1'' = Some (replicate 15 0 @ [1])" "IPString (replicate 15 0 @ [1]) = ''::1''"
    "ParseIP ''::'' = Some (replicate 16 0)" "IPString (replicate 16 0) = ''::''"
    by code_simp+
  with ParseIP_IPString [OF assms] show "IPString ip = ''::1'' \<longleftrightarrow> ip = replicate 15 0 @ [1]"
    "IPString ip = ''::'' \<longleftrightarrow> ip = replicate 16 0" by (metis option.inject)+
qed

lemma length16:
  "length xs = 16 \<longleftrightarrow> (\<exists>a b ys. xs = a # b # ys \<and> length ys = 14)"
  by (auto simp: numeral_eq_Suc length_Suc_conv)

lemma map2_and_zero: "map2 (AND) xs (replicate (length xs) (0 :: byte)) = replicate (length xs) 0"
  by (induction xs) auto

lemma map2_and_ones: "map2 (AND) xs (replicate (length xs) (255 :: byte)) = xs"
  by (induction xs) (auto simp: byte_255)

lemma block_contains_ones: "length b = 16 \<Longrightarrow> length x = 16 \<Longrightarrow> block_contains x (b, replicate 16 255) \<longleftrightarrow> x = b"
  using map2_and_ones [of x] map2_and_ones [of b] by (auto simp: block_contains_def)

lemma nets6:
  assumes "length ip = 16"
  shows "block_contains ip (0xfc # replicate 15 0, 0xfe # replicate 15 0) \<longleftrightarrow> ip ! 0 AND 0xfe = 0xfc"
    "block_contains ip (0xfe # 0x80 # replicate 14 0, 0xff # 0xc0 # replicate 14 0)
      \<longleftrightarrow> ip ! 0 = 0xfe \<and> ip ! 1 AND 0xc0 = 0x80"
    "block_contains ip (replicate 15 0 @ [1], replicate 16 255) \<longleftrightarrow> ip = replicate 15 0 @ [1]"
    "block_contains ip (replicate 16 0, replicate 16 255) \<longleftrightarrow> ip = replicate 16 0"
proof -
  obtain a b ys where ip: "ip = a # b # ys" "length ys = 14" using iffD1 [OF length16 assms] by blast
  have z: "map2 (AND) (replicate n 0) (replicate n (0 :: byte)) = replicate n 0" for n
    using map2_and_zero [of "replicate n 0"] by simp
  show "block_contains ip (0xfc # replicate 15 0, 0xfe # replicate 15 0) \<longleftrightarrow> ip ! 0 AND 0xfe = 0xfc"
    using ip map2_and_zero [of "b # ys"] z [of 15]
    by (simp add: block_contains_def)
  show "block_contains ip (0xfe # 0x80 # replicate 14 0, 0xff # 0xc0 # replicate 14 0)
      \<longleftrightarrow> ip ! 0 = 0xfe \<and> ip ! 1 AND 0xc0 = 0x80"
    using ip map2_and_zero [of ys] z [of 14]
    by (simp add: block_contains_def and_255)
qed (simp_all add: assms block_contains_ones)

lemma restricted6_nets:
  assumes "length ip = 16" "To4 ip = None"
  shows "restricted6 L ip \<longleftrightarrow> list_ex (block_contains ip) restricted_nets"
  unfolding restricted_nets_def list_ex_Nil_iff list_ex_Cons_iff nets6 [OF assms(1)] nets4_other(2) [OF assms(1)]
    restricted6_def Let_def IPString_v6_lower [OF assms] IPString_loopback [OF assms(1)] if_bool_eq_disj
  by blast

lemma restricted_iff:
  "IsRestrictedOutbound L s \<longleftrightarrow> ParseIP s = None \<or> list_ex (MatchCidr s) restricted_blocks"
proof (cases "ParseIP s")
  case (Some ip)
  then have len: "length ip = 16" by simp
  then have "To4 ip = Some x \<Longrightarrow> length x = 4" for x by (auto simp: To4_def split: if_splits)
  with Some len show ?thesis
    by (simp add: IsRestrictedOutbound_def MatchCidr_restricted restricted4_nets restricted6_nets
        del: One_nat_def split: option.splits)
qed (simp add: IsRestrictedOutbound_def)

section \<open>Wildcards\<close>

lemma wildcard_labels:
  "HasPrefix p ''*.'' \<and> HasSuffix d (''.'' @ drop 2 p) \<longleftrightarrow>
    (\<exists>q ls. p = ''*.'' @ q \<and> ls \<noteq> [] \<and> Split (CHR ''.'') d = ls @ Split (CHR ''.'') q)"
  (is "?l = (\<exists>q. ?r q)")
proof
  assume ?l
  then show "\<exists>q. ?r q" using HasSuffix_labels [of d] by (auto simp: HasPrefix_iff)
next
  assume "\<exists>q. ?r q"
  then show ?l using HasSuffix_labels [of d] by (auto simp: HasPrefix_iff)
qed

section \<open>Decision lists\<close>

text \<open>
  The contract both evaluators implement: a configuration stands for a list of rules, the first rule
  that matches gives the verdict, and the default policy decides when none does.
\<close>

locale decision_list =
  fixes rules :: "'c \<Rightarrow> (('q \<Rightarrow> bool) \<times> string) list"
    and fallback :: "'c \<Rightarrow> string"
    and verdict :: "'c \<Rightarrow> 'q \<Rightarrow> string"
  assumes verdict_first:
    "verdict c q = (case find (\<lambda>r. fst r q) (rules c) of Some r \<Rightarrow> snd r | None \<Rightarrow> fallback c)"
begin

lemma verdict_at:
  assumes "rules c = pre @ r # post" "\<And>p. p \<in> set pre \<Longrightarrow> \<not> fst p q" "fst r q"
  shows "verdict c q = snd r"
proof -
  have "find (\<lambda>r. fst r q) (pre @ r # post) = Some r"
    using assms(2,3) by (induction pre) auto
  then show ?thesis by (simp add: verdict_first assms(1))
qed

lemma verdict_default:
  "(\<And>r. r \<in> set (rules c) \<Longrightarrow> \<not> fst r q) \<Longrightarrow> verdict c q = fallback c"
proof -
  assume "\<And>r. r \<in> set (rules c) \<Longrightarrow> \<not> fst r q"
  then have "find (\<lambda>r. fst r q) (rules c) = None" by (metis find_None_iff)
  then show ?thesis by (simp add: verdict_first)
qed

lemma verdict_cong:
  "(\<And>r. r \<in> set (rules c) \<Longrightarrow> fst r q = fst r q') \<Longrightarrow> verdict c q = verdict c q'"
proof -
  assume "\<And>r. r \<in> set (rules c) \<Longrightarrow> fst r q = fst r q'"
  then have "find (\<lambda>r. fst r q) (rules c) = find (\<lambda>r. fst r q') (rules c)"
    by (intro find_cong) auto
  then show ?thesis by (simp add: verdict_first)
qed

end

definition default_action :: "FirewallConfig \<Rightarrow> string" where
  "default_action f = (if DefaultPolicy f = ''allow'' then ''ALLOW'' else ''DENY'')"

text \<open>
  The rules of a configuration for an address, over the address the string stands for: equality of
  parsed addresses, and membership in the parsed networks.
\<close>

definition same_address :: "string list \<Rightarrow> string \<Rightarrow> bool" where
  "same_address as s = list_ex (\<lambda>a. ParseIP a = ParseIP s) as"

definition in_networks :: "string list \<Rightarrow> string \<Rightarrow> bool" where
  "in_networks cs s = list_ex (\<lambda>c. MatchCidr s c) cs"

definition ip_rules :: "FirewallConfig \<Rightarrow> ((string \<Rightarrow> bool) \<times> string) list" where
  "ip_rules f =
     [(\<lambda>s. ParseIP s = None, ''DENY''),
      (same_address (BlocklistIps f), ''DENY''), (same_address (AllowlistIps f), ''ALLOW''),
      (in_networks (BlocklistRanges f), ''DENY''), (in_networks (AllowlistRanges f), ''ALLOW'')]"

definition domain_rules :: "golib \<Rightarrow> FirewallConfig \<Rightarrow> ((string \<Rightarrow> bool) \<times> string) list" where
  "domain_rules L f =
     [(\<lambda>d. list_ex (MatchDomain L d) (BlocklistDomains f), ''DENY''),
      (\<lambda>d. list_ex (MatchDomain L d) (AllowlistDomains f), ''ALLOW'')]"

lemma same_address_normalized:
  "ParseIP s = Some ip \<Longrightarrow>
     list_ex (\<lambda>a. NormalizeIp a = NormalizeIp s) as = same_address as s"
  by (simp add: same_address_def NormalizeIp_eq_iff)

lemma EvaluateIp_rules:
  "EvaluateIp s (Some f) =
     (case find (\<lambda>r. fst r s) (ip_rules f) of Some r \<Rightarrow> snd r | None \<Rightarrow> default_action f)"
proof (cases "ParseIP s")
  case (Some ip)
  then show ?thesis
    by (simp add: EvaluateIp_def ip_rules_def default_action_def in_networks_def matchAllowlistIps_def
        matchAllowlistRanges_def same_address_normalized Let_def)
qed (simp add: EvaluateIp_def ip_rules_def)

interpretation ips: decision_list ip_rules default_action "\<lambda>f s. EvaluateIp s (Some f)"
  by unfold_locales (rule EvaluateIp_rules)

interpretation domains: decision_list "domain_rules L" default_action "\<lambda>f d. EvaluateDomain L d (Some f)"
  for L
  by unfold_locales (simp add: EvaluateDomain_def domain_rules_def default_action_def)

lemma EvaluateIp_cases:
  "EvaluateIp s (Some f) =
     (if ParseIP s = None then ''DENY'' else if same_address (BlocklistIps f) s then ''DENY''
      else if same_address (AllowlistIps f) s then ''ALLOW''
      else if in_networks (BlocklistRanges f) s then ''DENY''
      else if in_networks (AllowlistRanges f) s then ''ALLOW'' else default_action f)"
  unfolding ips.verdict_first by (simp add: ip_rules_def)

lemma same_address_iff:
  "ParseIP s = Some ip \<Longrightarrow> same_address as s \<longleftrightarrow> Some ip \<in> ParseIP ` set as"
  by (force simp: same_address_def list_ex_iff image_iff)

lemma in_networks_iff:
  "ParseIP s = Some ip \<Longrightarrow>
     in_networks cs s \<longleftrightarrow> (\<exists>c\<in>set cs. \<exists>net. ParseCIDR c = Some net \<and> NetContains net ip)"
  by (auto simp: in_networks_def list_ex_iff MatchCidr_def split: option.splits)

lemma EvaluateOutbound_cases:
  "ParseIP s = Some ip \<Longrightarrow> EvaluateOutbound L s (Some f) = ''DENY'' \<longleftrightarrow>
     \<not> same_address (AllowlistIps f) s \<and> \<not> in_networks (AllowlistRanges f) s
     \<and> list_ex (MatchCidr s) restricted_blocks"
  by (simp add: EvaluateOutbound_def matchAllowlistIps_def matchAllowlistRanges_def in_networks_def
      same_address_normalized restricted_iff Let_def)

section \<open>Properties\<close>

text \<open>A configuration the witnesses evaluate.\<close>

definition example_firewall :: FirewallConfig where
  "example_firewall =
     \<lparr>DefaultPolicy = ''deny'', AllowlistDomains = [''*.example.com''],
      BlocklistDomains = [''Ads.example.com''], AllowlistRanges = [''192.168.0.0/16''],
      BlocklistRanges = [''10.0.0.0/8''], AllowlistIps = [''::1''], BlocklistIps = [''192.168.0.7'']\<rparr>"

text \<open>
  The verdict on an address is decided by the parsed address alone, never by its spelling.  In
  this order: an unparsable address is denied, a blocklisted address is denied, an allowlisted one
  allowed, an address in a blocklisted network is denied, one in an allowlisted network allowed, and
  the default policy decides the rest.
\<close>

theorem EvaluateIp_policy:
  "EvaluateIp s (Some f) =
     (case ParseIP s of
        None \<Rightarrow> ''DENY''
      | Some ip \<Rightarrow>
          if Some ip \<in> ParseIP ` set (BlocklistIps f) then ''DENY''
          else if Some ip \<in> ParseIP ` set (AllowlistIps f) then ''ALLOW''
          else if \<exists>c\<in>set (BlocklistRanges f). \<exists>net. ParseCIDR c = Some net \<and> NetContains net ip then ''DENY''
          else if \<exists>c\<in>set (AllowlistRanges f). \<exists>net. ParseCIDR c = Some net \<and> NetContains net ip then ''ALLOW''
          else if DefaultPolicy f = ''allow'' then ''ALLOW'' else ''DENY'')"
proof (cases "ParseIP s")
  case None
  then show ?thesis by (simp add: EvaluateIp_cases)
next
  case (Some ip)
  then show ?thesis
    unfolding EvaluateIp_cases same_address_iff [OF Some] in_networks_iff [OF Some] default_action_def
    by (simp only: option.simps if_False)
qed

text \<open>
  Two spellings of one address (leading zeros of a group, upper-case digits, an IPv4 address
  written as an IPv4-mapped IPv6 address) always receive the same verdict, for inbound and for
  outbound evaluation.
\<close>

theorem Evaluate_spelling:
  assumes "ParseIP s = ParseIP t" "ParseIP s \<noteq> None"
  shows "EvaluateIp s fw = EvaluateIp t fw \<and> EvaluateOutbound L s fw = EvaluateOutbound L t fw"
proof -
  have eq: "NormalizeIp s = NormalizeIp t" using assms NormalizeIp_IPString by (metis not_None_eq)
  show ?thesis unfolding EvaluateIp_def EvaluateOutbound_def eq by simp
qed

theorem Evaluate_spelling_witness:
  "EvaluateIp ''::FFFF:192.168.0.7'' (Some example_firewall) = EvaluateIp ''192.168.0.7'' (Some example_firewall)
   \<and> EvaluateOutbound undefined ''::FFFF:192.168.0.7'' (Some example_firewall)
       = EvaluateOutbound undefined ''192.168.0.7'' (Some example_firewall)"
  by (rule Evaluate_spelling) code_simp+

text \<open>
  C15: the hard-coded byte tests of \<^verbatim>\<open>IsRestrictedOutbound\<close> accept exactly the addresses outside of
  twelve CIDR blocks: this network, private, loopback, carrier-grade NAT, link-local, multicast and
  reserved for IPv4; loopback, unspecified, unique-local and link-local for IPv6.  An IPv4-mapped
  address is treated as the IPv4 address it stands for.
\<close>

theorem IsRestrictedOutbound_blocks:
  "IsRestrictedOutbound L s \<longleftrightarrow> ParseIP s = None \<or> list_ex (MatchCidr s) restricted_blocks"
  by (rule restricted_iff)

text \<open>
  C8: an outbound connection is refused exactly when the destination is restricted (or not an
  address at all) and the configuration does not list it, as an address or through a network.
\<close>

theorem EvaluateOutbound_deny:
  "EvaluateOutbound L s (Some f) = ''DENY'' \<longleftrightarrow>
     (ParseIP s = None \<and> s \<notin> set (map NormalizeIp (AllowlistIps f)))
   \<or> (\<exists>ip. ParseIP s = Some ip \<and> list_ex (MatchCidr s) restricted_blocks
        \<and> Some ip \<notin> ParseIP ` set (AllowlistIps f)
        \<and> \<not> (\<exists>c\<in>set (AllowlistRanges f). \<exists>net. ParseCIDR c = Some net \<and> NetContains net ip))"
proof (cases "ParseIP s")
  case None
  then have "NormalizeIp s = s" "\<not> MatchCidr s c" for c
    by (simp_all add: NormalizeIp_def MatchCidr_def)
  then show ?thesis using None
    by (auto simp: EvaluateOutbound_def matchAllowlistIps_def matchAllowlistRanges_def list_ex_iff
        IsRestrictedOutbound_def Let_def)
next
  case (Some ip)
  then show ?thesis
    unfolding EvaluateOutbound_cases [OF Some] same_address_iff [OF Some] in_networks_iff [OF Some]
    by auto
qed

text \<open>
  A domain pattern is the star, or the name itself up to case and a trailing dot, or a wildcard
  whose remainder is the tail of the name's labels after at least one more label: a wildcard never
  matches inside a label and never matches its own apex.
\<close>

theorem MatchDomain_labels:
  "MatchDomain L domain pattern \<longleftrightarrow>
     pattern = ''*''
   \<or> ToLower L (TrimSuffix pattern ''.'') = ToLower L (TrimSuffix domain ''.'')
   \<or> (\<exists>q ls. ToLower L (TrimSuffix pattern ''.'') = ''*.'' @ q \<and> ls \<noteq> []
         \<and> Split (CHR ''.'') (ToLower L (TrimSuffix domain ''.'')) = ls @ Split (CHR ''.'') q)"
  unfolding MatchDomain_def Let_def wildcard_labels [symmetric] by (simp only: if_bool_eq_disj) blast

text \<open>
  The verdict on a domain name depends neither on the case of its letters nor on the trailing dot
  of a fully qualified name.
\<close>

theorem EvaluateDomain_spelling:
  assumes "isASCII d" "\<not> HasSuffix d ''.''"
  shows "EvaluateDomain L (ToLower L d @ ''.'') fw = EvaluateDomain L d fw"
proof (cases fw)
  case (Some f)
  have "MatchDomain L (ToLower L d @ ''.'') = MatchDomain L d"
    using assms by (simp add: MatchDomain_def fun_eq_iff TrimSuffix_append TrimSuffix_id ToLower_idem_ascii)
  then show ?thesis
    unfolding Some by (intro domains.verdict_cong) (auto simp: domain_rules_def)
qed (simp add: EvaluateDomain_def)

theorem EvaluateDomain_spelling_witness:
  "EvaluateDomain undefined (ToLower undefined ''ADS.Example.com'' @ ''.'') (Some example_firewall) = ''DENY''
   \<and> EvaluateDomain undefined ''ADS.Example.com'' (Some example_firewall) = ''DENY''"
proof -
  have "isASCII ''ADS.Example.com''" "\<not> HasSuffix ''ADS.Example.com'' ''.''"
    "EvaluateDomain undefined ''ADS.Example.com'' (Some example_firewall) = ''DENY''"
    by code_simp+
  then show ?thesis
    using EvaluateDomain_spelling [of "''ADS.Example.com''" undefined "Some example_firewall"] by simp
qed

end
