(* ===== verification/Wire.thy ===== *)
theory Wire
  imports GoNet Config
begin

text \<open>
  The DNS wire format of \<^verbatim>\<open>src/pkg/dns/wire.go\<close>: a growing write buffer, bounded readers, domain
  names with compression pointers, the record encoders and the question section.  The reader reports
  malformed input to the audit log and goes on; the record's extra field \<open>Errors\<close> holds the
  messages it has sent there, oldest first.

  The writer implements an append-only byte sink, every name the writer produces is read back,
  reading terminates on every buffer (at most five compression jumps) and never leaves the buffer,
  and the question section is parsed with strictly increasing offsets.
\<close>

section \<open>The buffer\<close>

record DnsWireFormat =
  Buf :: bytes
  Offset :: nat
  Errors :: "string list"

definition NewDnsWireFormat :: "bytes option \<Rightarrow> DnsWireFormat" where
  "NewDnsWireFormat buffer =
     \<lparr>Buf = (case buffer of None \<Rightarrow> replicate 4096 0 | Some b \<Rightarrow> b), Offset = 0, Errors = []\<rparr>"

definition grow :: "nat \<Rightarrow> DnsWireFormat \<Rightarrow> DnsWireFormat" where
  "grow n dw =
     (let newLen = (if length (Buf dw) * 2 < Offset dw + n then Offset dw + n + 1024
                    else length (Buf dw) * 2)
      in dw\<lparr>Buf := put_bytes 0 (take newLen (Buf dw)) (replicate newLen 0)\<rparr>)"

definition WriteUint16 :: "u16 \<Rightarrow> DnsWireFormat \<Rightarrow> DnsWireFormat" where
  "WriteUint16 val dw =
     (let dw = (if Offset dw + 2 > length (Buf dw) then grow 2 dw else dw)
      in dw\<lparr>Buf := put_bytes (Offset dw) (be16 val) (Buf dw), Offset := Offset dw + 2\<rparr>)"

definition WriteUint8 :: "byte \<Rightarrow> DnsWireFormat \<Rightarrow> DnsWireFormat" where
  "WriteUint8 val dw =
     (let dw = (if Offset dw + 1 > length (Buf dw) then grow 1 dw else dw)
      in dw\<lparr>Buf := (Buf dw)[Offset dw := val], Offset := Offset dw + 1\<rparr>)"

definition WriteBytes :: "bytes \<Rightarrow> DnsWireFormat \<Rightarrow> DnsWireFormat" where
  "WriteBytes data dw =
     (let dw = (if Offset dw + length data > length (Buf dw) then grow (length data) dw else dw)
      in dw\<lparr>Buf := put_bytes (Offset dw) data (Buf dw), Offset := Offset dw + length data\<rparr>)"

definition WriteUint32 :: "u32 \<Rightarrow> DnsWireFormat \<Rightarrow> DnsWireFormat" where
  "WriteUint32 val dw =
     (let dw = (if Offset dw + 4 > length (Buf dw) then grow 4 dw else dw)
      in dw\<lparr>Buf := put_bytes (Offset dw) (be32 val) (Buf dw), Offset := Offset dw + 4\<rparr>)"

fun writeLabels :: "string list \<Rightarrow> DnsWireFormat \<Rightarrow> DnsWireFormat" where
  "writeLabels [] dw = dw"
| "writeLabels (label # labels) dw =
     (if length label = 0 then writeLabels labels dw
      else writeLabels labels (WriteBytes (bytes_of label) (WriteUint8 (of_nat (length label)) dw)))"

definition WriteDomainName :: "string \<Rightarrow> DnsWireFormat \<Rightarrow> DnsWireFormat" where
  "WriteDomainName name dw = WriteUint8 0 (writeLabels (Split (CHR ''.'') name) dw)"

definition Finish :: "DnsWireFormat \<Rightarrow> bytes" where
  "Finish dw = take (Offset dw) (Buf dw)"

section \<open>Reading\<close>

definition logError :: "string \<Rightarrow> DnsWireFormat \<Rightarrow> DnsWireFormat" where
  "logError msg dw = dw\<lparr>Errors := Errors dw @ [msg]\<rparr>"

definition ReadUint16 :: "DnsWireFormat \<Rightarrow> u16 \<times> DnsWireFormat" where
  "ReadUint16 dw =
     (if Offset dw + 2 > length (Buf dw) then
        (0, (logError ''DnsWireFormat out of bounds read attempt: ReadUint16'' dw)\<lparr>Offset := length (Buf dw)\<rparr>)
      else (get16 (Buf dw) (Offset dw), dw\<lparr>Offset := Offset dw + 2\<rparr>))"

definition ReadUint8 :: "DnsWireFormat \<Rightarrow> byte \<times> DnsWireFormat" where
  "ReadUint8 dw =
     (if Offset dw + 1 > length (Buf dw) then
        (0, (logError ''DnsWireFormat out of bounds read attempt: ReadUint8'' dw)\<lparr>Offset := length (Buf dw)\<rparr>)
      else (Buf dw ! Offset dw, dw\<lparr>Offset := Offset dw + 1\<rparr>))"

definition ReadUint32 :: "DnsWireFormat \<Rightarrow> u32 \<times> DnsWireFormat" where
  "ReadUint32 dw =
     (if Offset dw + 4 > length (Buf dw) then
        (0, (logError ''DnsWireFormat out of bounds read attempt: ReadUint32'' dw)\<lparr>Offset := length (Buf dw)\<rparr>)
      else (get32 (Buf dw) (Offset dw), dw\<lparr>Offset := Offset dw + 4\<rparr>))"

text \<open>
  The loop of \<^verbatim>\<open>ReadDomainName\<close>.  Its state is the number of jumps, the current offset, the offset
  saved at the first pointer (\<open>None\<close> for -1) and the labels read; it returns the last three and the
  messages logged.  A label moves the offset forward and a pointer uses up one of the five jumps.
\<close>

definition maxJumps :: nat where
  "maxJumps = 5"

definition pointer_target :: "byte \<Rightarrow> byte \<Rightarrow> nat" where
  "pointer_target len low = push_bit 8 (unat (len AND 0x3f)) OR unat low"

function readName :: "bytes \<Rightarrow> nat \<Rightarrow> nat \<Rightarrow> nat option \<Rightarrow> string list
    \<Rightarrow> nat \<times> nat option \<times> string list \<times> string list" where
  "readName buf jumps cur saved labels =
     (if cur \<ge> length buf then
        (cur, saved, labels, [''DnsWireFormat out of bounds read attempt: ReadDomainName bounds exceeded''])
      else
        let len = buf ! cur; cur = cur + 1
        in if len = 0 then (cur, saved, labels, [])
           else if len AND 0xc0 = 0xc0 then
             (if jumps + 1 > maxJumps then
                (cur, saved, labels, [''DnsWireFormat pointer loop detected: ReadDomainName max jumps exceeded''])
              else if cur \<ge> length buf then
                (cur, saved, labels, [''DnsWireFormat out of bounds read attempt: ReadDomainName pointer read''])
              else readName buf (jumps + 1) (pointer_target len (buf ! cur))
                     (case saved of None \<Rightarrow> Some (cur + 1) | Some s \<Rightarrow> Some s) labels)
           else if len > 63 \<or> cur + unat len > length buf then
             (cur, saved, labels, [''DnsWireFormat malformed label length: ReadDomainName bounds exceeded''])
           else readName buf jumps (cur + unat len) saved
                  (labels @ [string_of (take (unat len) (drop cur buf))]))"
  by auto
termination
  by (relation "(\<lambda>(buf, jumps, cur, _, _). maxJumps - jumps) <*mlex*> measure (\<lambda>(buf, _, cur, _, _). length buf - cur)")
    (auto intro: mlex_less mlex_leq simp: wf_mlex)

declare readName.simps [simp del]

definition ReadDomainName :: "DnsWireFormat \<Rightarrow> string \<times> DnsWireFormat" where
  "ReadDomainName dw =
     (case readName (Buf dw) 0 (Offset dw) None [] of
        (currentOffset, savedOffset, labels, errs) \<Rightarrow>
          (Join ''.'' labels,
           dw\<lparr>Offset := (case savedOffset of Some s \<Rightarrow> s | None \<Rightarrow> currentOffset), Errors := Errors dw @ errs\<rparr>))"

section \<open>Record encoders\<close>

definition EncodeARecord :: "string \<Rightarrow> bytes option" where
  "EncodeARecord address =
     (case ParseIP address of
        None \<Rightarrow> None
      | Some ip \<Rightarrow> To4 ip)"

definition EncodeAAAARecord :: "string \<Rightarrow> bytes option" where
  "EncodeAAAARecord address =
     (case ParseIP address of
        None \<Rightarrow> None
      | Some ip \<Rightarrow> To16 ip)"

definition EncodeCNAME :: "string \<Rightarrow> bytes" where
  "EncodeCNAME target = Finish (WriteDomainName target (NewDnsWireFormat None))"

definition encodeChunk :: "string \<Rightarrow> DnsWireFormat \<Rightarrow> DnsWireFormat" where
  "encodeChunk txt encoder =
     (let bs = bytes_of txt;
          chunkLen = (if length bs > 255 then 255 else length bs);
          bs = (if length bs > 255 then take 255 bs else bs)
      in WriteBytes bs (WriteUint8 (of_nat chunkLen) encoder))"

definition EncodeTXT :: "string list \<Rightarrow> bytes" where
  "EncodeTXT data = Finish (fold encodeChunk data (NewDnsWireFormat None))"

definition EncodeMX :: "u16 \<Rightarrow> string \<Rightarrow> bytes" where
  "EncodeMX priority exchange =
     Finish (WriteDomainName exchange (WriteUint16 priority (NewDnsWireFormat None)))"

definition EncodeNS :: "string \<Rightarrow> bytes" where
  "EncodeNS target = Finish (WriteDomainName target (NewDnsWireFormat None))"

definition EncodeSRV :: "u16 \<Rightarrow> u16 \<Rightarrow> u16 \<Rightarrow> string \<Rightarrow> bytes" where
  "EncodeSRV priority weight port target =
     Finish (WriteDomainName target
       (WriteUint16 port (WriteUint16 weight (WriteUint16 priority (NewDnsWireFormat None)))))"

definition EncodePTR :: "string \<Rightarrow> bytes" where
  "EncodePTR target = Finish (WriteDomainName target (NewDnsWireFormat None))"

section \<open>The question section\<close>

record ParsedQuestion =
  pqName :: string
  pqType :: u16
  NextOffset :: nat

definition parseQuestion :: "bytes \<Rightarrow> nat \<Rightarrow> (string + ParsedQuestion) \<times> string list" where
  "parseQuestion query baseOffset =
     (let decoder = (NewDnsWireFormat (Some query))\<lparr>Offset := baseOffset\<rparr>;
          (name, decoder) = ReadDomainName decoder
      in if int (Offset decoder) > int (length query) - 4 then
           (Inl ''out of bounds question parsing'', Errors decoder)
         else
           let (qtype, decoder) = ReadUint16 decoder;
               (qclass, decoder) = ReadUint16 decoder
           in if qclass \<noteq> 1 \<and> qclass \<noteq> 255 then (Inl ''unsupported DNS class'', Errors decoder)
              else (Inr \<lparr>pqName = name, pqType = qtype, NextOffset = Offset decoder\<rparr>, Errors decoder))"

fun extractLoop :: "nat \<Rightarrow> bytes \<Rightarrow> nat \<Rightarrow> ParsedQuestion list \<times> string list" where
  "extractLoop 0 query offset = ([], [])"
| "extractLoop (Suc n) query offset =
     (case parseQuestion query offset of
        (Inl err, errs) \<Rightarrow> ([], errs)
      | (Inr q, errs) \<Rightarrow>
          (case extractLoop n query (NextOffset q) of (qs, errs') \<Rightarrow> (q # qs, errs @ errs')))"

definition ExtractQuestions :: "bytes \<Rightarrow> ParsedQuestion list \<times> string list" where
  "ExtractQuestions query =
     (if length query < 12 then ([], [])
      else extractLoop (unat (get16 query 4)) query 12)"

section \<open>Writing: an append-only byte sink\<close>

text \<open>
  The contract of a write operation: it keeps the offset inside the buffer and appends the bytes of
  its argument to what \<open>Finish\<close> returns.  A sequence of writes then appends the concatenation.
\<close>

locale byte_sink =
  fixes ok :: "'s \<Rightarrow> bool" and contents :: "'s \<Rightarrow> bytes"
    and put :: "'w \<Rightarrow> 's \<Rightarrow> 's" and enc :: "'w \<Rightarrow> bytes"
  assumes ok_put: "ok s \<Longrightarrow> ok (put w s)"
    and contents_put: "ok s \<Longrightarrow> contents (put w s) = contents s @ enc w"
begin

lemma ok_puts: "ok s \<Longrightarrow> ok (fold put ws s)"
  by (induction ws arbitrary: s) (auto simp: ok_put)

lemma contents_puts: "ok s \<Longrightarrow> contents (fold put ws s) = contents s @ concat (map enc ws)"
  by (induction ws arbitrary: s) (auto simp: ok_put contents_put)

end

definition sink_ok :: "DnsWireFormat \<Rightarrow> bool" where
  "sink_ok dw \<longleftrightarrow> Offset dw \<le> length (Buf dw)"

lemma length_grow: "length (Buf dw) \<le> length (Buf (grow n dw)) \<and> Offset dw + n \<le> length (Buf (grow n dw))"
  by (auto simp: grow_def Let_def put_bytes_def)

lemma grow_simps [simp]: "Offset (grow n dw) = Offset dw" "Errors (grow n dw) = Errors dw"
  by (auto simp: grow_def Let_def)

lemma take_grow: "sink_ok dw \<Longrightarrow> take (Offset dw) (Buf (grow n dw)) = take (Offset dw) (Buf dw)"
  by (auto simp: grow_def Let_def put_bytes_def sink_ok_def)

text \<open>The slot the write goes to is always inside the buffer, so no write panics.\<close>

lemma room:
  "Offset dw + n \<le> length (Buf (if Offset dw + n > length (Buf dw) then grow n dw else dw))"
  using length_grow [of dw n] by auto

lemma WriteBytes_sink:
  assumes "sink_ok dw"
  shows "sink_ok (WriteBytes data dw) \<and> Finish (WriteBytes data dw) = Finish dw @ data"
proof -
  define dw' where "dw' = (if Offset dw + length data > length (Buf dw) then grow (length data) dw else dw)"
  have "Offset dw + length data \<le> length (Buf dw')" "Offset dw' = Offset dw"
    "take (Offset dw) (Buf dw') = take (Offset dw) (Buf dw)"
    using room [of dw "length data"] take_grow [OF assms] by (simp_all add: dw'_def)
  then show ?thesis
    by (simp add: WriteBytes_def dw'_def [symmetric] Finish_def sink_ok_def take_put_bytes)
qed

lemma WriteUint16_as_bytes: "WriteUint16 v = WriteBytes (be16 v)"
  by (simp add: WriteUint16_def WriteBytes_def fun_eq_iff)

lemma WriteUint32_as_bytes: "WriteUint32 v = WriteBytes (be32 v)"
  by (simp add: WriteUint32_def WriteBytes_def fun_eq_iff)

lemma put_bytes_single: "i < length b \<Longrightarrow> put_bytes i [v] b = b[i := v]"
  by (simp add: put_bytes_def upd_conv_take_nth_drop)

lemma WriteUint8_as_bytes: "WriteUint8 v = WriteBytes [v]"
proof
  fix dw
  show "WriteUint8 v dw = WriteBytes [v] dw"
    using room [of dw 1] by (auto simp: WriteUint8_def WriteBytes_def Let_def put_bytes_single)
qed

lemmas write_as_bytes = WriteUint8_as_bytes WriteUint16_as_bytes WriteUint32_as_bytes

interpretation wbytes: byte_sink sink_ok Finish WriteBytes "\<lambda>b. b"
  by unfold_locales (simp_all add: WriteBytes_sink)

interpretation w8: byte_sink sink_ok Finish WriteUint8 "\<lambda>b. [b]"
  by unfold_locales (simp_all add: WriteUint8_as_bytes WriteBytes_sink)

interpretation w16: byte_sink sink_ok Finish WriteUint16 be16
  by unfold_locales (simp_all add: WriteUint16_as_bytes WriteBytes_sink)

interpretation w32: byte_sink sink_ok Finish WriteUint32 be32
  by unfold_locales (simp_all add: WriteUint32_as_bytes WriteBytes_sink)

text \<open>What a label, a name and a character string are on the wire.\<close>

definition label_wire :: "string \<Rightarrow> bytes" where
  "label_wire l = of_nat (length l) # bytes_of l"

definition labels_of :: "string \<Rightarrow> string list" where
  "labels_of name = filter (\<lambda>l. l \<noteq> []) (Split (CHR ''.'') name)"

definition name_wire :: "string \<Rightarrow> bytes" where
  "name_wire name = concat (map label_wire (labels_of name)) @ [0]"

definition chunk_wire :: "string \<Rightarrow> bytes" where
  "chunk_wire t = of_nat (min 255 (length t)) # take 255 (bytes_of t)"

interpretation wlabel: byte_sink sink_ok Finish "\<lambda>l dw. WriteBytes (bytes_of l) (WriteUint8 (of_nat (length l)) dw)" label_wire
  by unfold_locales (simp_all add: wbytes.ok_put wbytes.contents_put w8.ok_put w8.contents_put label_wire_def)

interpretation wchunk: byte_sink sink_ok Finish encodeChunk chunk_wire
  by unfold_locales (simp_all add: encodeChunk_def Let_def wbytes.ok_put wbytes.contents_put w8.ok_put
      w8.contents_put chunk_wire_def min_def)

lemma writeLabels_fold:
  "writeLabels ls = fold (\<lambda>l dw. WriteBytes (bytes_of l) (WriteUint8 (of_nat (length l)) dw)) (filter (\<lambda>l. l \<noteq> []) ls)"
proof
  fix dw show "writeLabels ls dw = fold (\<lambda>l dw. WriteBytes (bytes_of l) (WriteUint8 (of_nat (length l)) dw)) (filter (\<lambda>l. l \<noteq> []) ls) dw"
    by (induction ls arbitrary: dw) auto
qed

interpretation wname: byte_sink sink_ok Finish WriteDomainName name_wire
  by unfold_locales
    (simp_all add: WriteDomainName_def writeLabels_fold w8.ok_put w8.contents_put wlabel.ok_puts
      wlabel.contents_puts name_wire_def labels_of_def)

lemma new_encoder [simp]: "sink_ok (NewDnsWireFormat b)" "Finish (NewDnsWireFormat b) = []"
  by (simp_all add: NewDnsWireFormat_def sink_ok_def Finish_def)

lemmas sink_simps = wbytes.ok_put wbytes.contents_put w8.ok_put w8.contents_put w16.ok_put
  w16.contents_put w32.ok_put w32.contents_put wname.ok_put wname.contents_put

text \<open>
  The encoders produce exactly the wire formats of RFC 1035 and RFC 2782 for their arguments, with
  the name as length-prefixed labels and the terminating zero byte, however often the buffer had to
  grow while writing.
\<close>

theorem encoders_wire:
  "EncodeCNAME t = name_wire t \<and> EncodeNS t = name_wire t \<and> EncodePTR t = name_wire t
   \<and> EncodeMX p t = be16 p @ name_wire t
   \<and> EncodeSRV p w port t = be16 p @ be16 w @ be16 port @ name_wire t
   \<and> EncodeTXT ts = concat (map chunk_wire ts)"
  by (simp add: EncodeCNAME_def EncodeNS_def EncodePTR_def EncodeMX_def EncodeSRV_def EncodeTXT_def
      sink_simps wchunk.contents_puts)

section \<open>Reading names\<close>

text \<open>The offset \<open>ReadDomainName\<close> leaves behind, and the size of the labels read.\<close>

definition finalOffset :: "nat \<times> nat option \<times> string list \<times> string list \<Rightarrow> nat" where
  "finalOffset r = (case r of (cur, saved, _, _) \<Rightarrow> (case saved of Some s \<Rightarrow> s | None \<Rightarrow> cur))"

definition readLabels :: "nat \<times> nat option \<times> string list \<times> string list \<Rightarrow> string list" where
  "readLabels r = (case r of (_, _, labels, _) \<Rightarrow> labels)"

definition label_size :: "string list \<Rightarrow> nat" where
  "label_size ls = (\<Sum>l\<leftarrow>ls. length l + 1)"

text \<open>
  The induction the lemmas below use: the loop stops at the current offset or one byte after it, or
  follows a pointer, or reads a label.
\<close>

lemma readName_step:
  assumes "cur < length buf"
  shows "(\<exists>e. readName buf jumps cur saved labels = (cur + 1, saved, labels, e))
    \<or> (jumps < maxJumps \<and> cur + 1 < length buf \<and> readName buf jumps cur saved labels
         = readName buf (jumps + 1) (pointer_target (buf ! cur) (buf ! (cur + 1)))
             (case saved of None \<Rightarrow> Some (cur + 1 + 1) | Some s \<Rightarrow> Some s) labels)
    \<or> (0 < unat (buf ! cur) \<and> unat (buf ! cur) \<le> 63 \<and> cur + 1 + unat (buf ! cur) \<le> length buf
         \<and> readName buf jumps cur saved labels = readName buf jumps (cur + 1 + unat (buf ! cur)) saved
             (labels @ [string_of (take (unat (buf ! cur)) (drop (cur + 1) buf))]))"
proof -
  have len: "unat (buf ! cur) \<le> 63 \<longleftrightarrow> \<not> buf ! cur > 63" "0 < unat (buf ! cur) \<longleftrightarrow> buf ! cur \<noteq> 0"
    by (simp_all add: word_less_nat_alt linorder_not_less unat_gt_0)
  show ?thesis
    unfolding len readName.simps [of buf jumps cur saved labels] Let_def
    using assms by (auto split: if_splits)
qed

lemma readName_ind [case_names beyond stop pointer label]:
  assumes beyond: "\<And>jumps cur saved labels e. length buf \<le> cur \<Longrightarrow> P jumps cur saved labels (cur, saved, labels, e)"
    and stop: "\<And>jumps cur saved labels e. cur < length buf \<Longrightarrow> P jumps cur saved labels (cur + 1, saved, labels, e)"
    and pointer: "\<And>jumps cur saved labels t r. jumps < maxJumps \<Longrightarrow> cur + 1 < length buf \<Longrightarrow>
      P (jumps + 1) t (case saved of None \<Rightarrow> Some (cur + 1 + 1) | Some s \<Rightarrow> Some s) labels r \<Longrightarrow> P jumps cur saved labels r"
    and label: "\<And>jumps cur saved labels l r. 0 < length l \<Longrightarrow> length l \<le> 63 \<Longrightarrow> cur + 1 + length l \<le> length buf \<Longrightarrow>
      P jumps (cur + 1 + length l) saved (labels @ [l]) r \<Longrightarrow> P jumps cur saved labels r"
  shows "P jumps cur saved labels (readName buf jumps cur saved labels)"
proof (induction "(maxJumps - jumps, length buf - cur)" arbitrary: jumps cur saved labels
    rule: wf_induct_rule [OF wf_lex_prod [OF wf_less_than wf_less_than]])
  case (1 jumps cur)
  show ?case
  proof (cases "cur < length buf")
    case False
    then show ?thesis by (subst readName.simps) (simp add: beyond)
  next
    case True
    let ?l = "string_of (take (unat (buf ! cur)) (drop (cur + 1) buf))"
    from readName_step [OF True, of jumps saved labels] show ?thesis
    proof (elim disjE conjE exE)
      fix e assume "readName buf jumps cur saved labels = (cur + 1, saved, labels, e)"
      then show ?thesis using stop [OF True] by simp
    next
      assume *: "jumps < maxJumps" "cur + 1 < length buf" and
        "readName buf jumps cur saved labels = readName buf (jumps + 1) (pointer_target (buf ! cur) (buf ! (cur + 1)))
             (case saved of None \<Rightarrow> Some (cur + 1 + 1) | Some s \<Rightarrow> Some s) labels"
      moreover have "P (jumps + 1) t s ls (readName buf (jumps + 1) t s ls)" for t s ls
        by (rule 1) (use * in \<open>simp add: diff_less_mono2\<close>)
      ultimately show ?thesis using pointer [OF *] by metis
    next
      assume *: "0 < unat (buf ! cur)" "unat (buf ! cur) \<le> 63" "cur + 1 + unat (buf ! cur) \<le> length buf"
        and eq: "readName buf jumps cur saved labels = readName buf jumps (cur + 1 + unat (buf ! cur)) saved (labels @ [?l])"
      then have "length ?l = unat (buf ! cur)" by simp
      with * eq show ?thesis using label [of ?l cur jumps saved labels] 1 [of jumps "cur + 1 + length ?l"] by simp
    qed
  qed
qed

lemma readName_offset:
  "(case saved of None \<Rightarrow> cur \<le> length buf | Some s \<Rightarrow> s \<le> length buf) \<Longrightarrow>
     (case saved of None \<Rightarrow> cur | Some s \<Rightarrow> s) \<le> finalOffset (readName buf jumps cur saved labels)
     \<and> finalOffset (readName buf jumps cur saved labels) \<le> length buf"
  by (rule readName_ind [of buf "\<lambda>jumps cur saved labels r.
        (case saved of None \<Rightarrow> cur \<le> length buf | Some s \<Rightarrow> s \<le> length buf) \<longrightarrow>
        (case saved of None \<Rightarrow> cur | Some s \<Rightarrow> s) \<le> finalOffset r \<and> finalOffset r \<le> length buf", rule_format])
    (auto simp: finalOffset_def split: option.splits)

lemma readName_progress:
  assumes "cur < length buf"
  shows "cur < finalOffset (readName buf jumps cur None labels)"
  using readName_step [OF assms, of jumps None labels]
proof (elim disjE conjE exE)
  assume "cur + 1 < length buf" "readName buf jumps cur None labels = readName buf (jumps + 1)
      (pointer_target (buf ! cur) (buf ! (cur + 1))) (case None of None \<Rightarrow> Some (cur + 1 + 1) | Some s \<Rightarrow> Some s) labels"
  then show ?thesis
    using readName_offset [where saved = "Some (cur + 1 + 1)" and buf = buf and jumps = "jumps + 1"
        and cur = "pointer_target (buf ! cur) (buf ! (cur + 1))" and labels = labels] by simp
next
  let ?l = "labels @ [string_of (take (unat (buf ! cur)) (drop (cur + 1) buf))]"
  assume "cur + 1 + unat (buf ! cur) \<le> length buf" "readName buf jumps cur None labels
      = readName buf jumps (cur + 1 + unat (buf ! cur)) None ?l"
  then show ?thesis
    using readName_offset [where saved = None and buf = buf and jumps = jumps
        and cur = "cur + 1 + unat (buf ! cur)" and labels = ?l] by simp
qed (simp add: finalOffset_def)

lemma readName_size:
  "jumps \<le> maxJumps \<Longrightarrow> label_size (readLabels (readName buf jumps cur saved labels))
     \<le> label_size labels + (maxJumps - jumps) * length buf + (length buf - cur)"
proof (rule readName_ind [of buf "\<lambda>jumps cur saved labels r. jumps \<le> maxJumps \<longrightarrow> label_size (readLabels r)
     \<le> label_size labels + (maxJumps - jumps) * length buf + (length buf - cur)", rule_format])
  fix jumps cur saved labels t r
  assume "jumps < maxJumps" and IH: "jumps + 1 \<le> maxJumps \<Longrightarrow>
    label_size (readLabels r) \<le> label_size labels + (maxJumps - (jumps + 1)) * length buf + (length buf - t)"
  moreover have "(maxJumps - jumps) * length buf = (maxJumps - (jumps + 1)) * length buf + length buf"
    using \<open>jumps < maxJumps\<close> by (simp add: Suc_diff_Suc [symmetric])
  ultimately show "label_size (readLabels r) \<le> label_size labels + (maxJumps - jumps) * length buf + (length buf - cur)"
    by simp
qed (auto simp: readLabels_def label_size_def)

definition wire_labels :: "string list \<Rightarrow> bool" where
  "wire_labels ls \<longleftrightarrow> (\<forall>l\<in>set ls. 0 < length l \<and> length l \<le> 63)"

lemma wire_labels_snoc:
  "wire_labels (ls @ [l]) \<longleftrightarrow> wire_labels ls \<and> 0 < length l \<and> length l \<le> 63"
  by (auto simp: wire_labels_def)

lemma readName_labels:
  "wire_labels labels \<Longrightarrow> wire_labels (readLabels (readName buf jumps cur saved labels))"
proof -
  have "wire_labels labels \<longrightarrow> wire_labels (readLabels (readName buf jumps cur saved labels))"
    by (rule readName_ind [of buf "\<lambda>_ _ _ labels r. wire_labels labels \<longrightarrow> wire_labels (readLabels r)"])
      (auto simp: readLabels_def wire_labels_snoc)
  then show "wire_labels labels \<Longrightarrow> ?thesis" by simp
qed

lemma length_Join_dot: "length (Join ''.'' ls) \<le> label_size ls"
proof (induction ls)
  case (Cons l ls)
  then show ?case by (cases "ls = []") (auto simp: label_size_def Join_Cons)
qed (simp add: label_size_def)

lemma len_not_pointer: "unat len \<le> 63 \<Longrightarrow> (len :: byte) AND 0xc0 \<noteq> 0xc0"
proof
  assume "unat len \<le> 63" "len AND 0xc0 = 0xc0"
  then have "unat len div 64 * 64 = 192" using and_high_eq [OF high_masks(1), of len 192] by simp
  with \<open>unat len \<le> 63\<close> show False by simp
qed

lemma readName_label:
  "cur < length buf \<Longrightarrow> 0 < unat (buf ! cur) \<Longrightarrow> unat (buf ! cur) \<le> 63 \<Longrightarrow> cur + 1 + unat (buf ! cur) \<le> length buf \<Longrightarrow>
     readName buf jumps cur saved labels = readName buf jumps (cur + 1 + unat (buf ! cur)) saved
       (labels @ [string_of (take (unat (buf ! cur)) (drop (cur + 1) buf))])"
  using len_not_pointer [of "buf ! cur"]
  by (simp add: readName.simps [of buf jumps cur] Let_def word_less_nat_alt unat_gt_0)

lemma readName_written:
  assumes "wire_labels ls"
  shows "readName (pre @ concat (map label_wire ls) @ 0 # post) jumps (length pre) saved acc
    = (length pre + length (concat (map label_wire ls)) + 1, saved, acc @ ls, [])"
  using assms
proof (induction ls arbitrary: pre acc)
  case Nil
  then show ?case by (subst readName.simps) (simp add: nth_append)
next
  case (Cons l ls)
  let ?rest = "concat (map label_wire ls) @ 0 # post" and ?n = "of_nat (length l) :: byte"
  have l: "0 < length l" "length l \<le> 63" "wire_labels ls" using Cons.prems by (auto simp: wire_labels_def)
  then have u: "unat ?n = length l" by (simp add: unat_of_nat)
  have w: "label_wire l = ?n # bytes_of l" by (simp add: label_wire_def)
  have "readName (pre @ ?n # bytes_of l @ ?rest) jumps (length pre) saved acc
      = readName (pre @ ?n # bytes_of l @ ?rest) jumps (length pre + 1 + length l) saved (acc @ [l])"
    using readName_label [of "length pre" "pre @ ?n # bytes_of l @ ?rest" jumps saved acc] l u
    by (simp add: nth_append)
  also have "\<dots> = readName ((pre @ label_wire l) @ ?rest) jumps (length (pre @ label_wire l)) saved (acc @ [l])"
    by (simp add: w)
  finally show ?case
    using Cons.IH [of "pre @ label_wire l" "acc @ [l]"] l by (simp add: w)
qed

section \<open>Properties of the reader\<close>

lemma ReadDomainName_simps:
  "Buf (snd (ReadDomainName dw)) = Buf dw"
  "Offset (snd (ReadDomainName dw)) = finalOffset (readName (Buf dw) 0 (Offset dw) None [])"
  "fst (ReadDomainName dw) = Join ''.'' (readLabels (readName (Buf dw) 0 (Offset dw) None []))"
  by (simp_all add: ReadDomainName_def finalOffset_def readLabels_def split: prod.splits)



lemma name_wire_labels: "wire_labels (Split (CHR ''.'') name) \<Longrightarrow> labels_of name = Split (CHR ''.'') name"
  by (auto simp: labels_of_def wire_labels_def filter_id_conv)

lemma ReadDomainName_at:
  assumes "wire_labels (Split (CHR ''.'') name)"
  shows "ReadDomainName \<lparr>Buf = pre @ name_wire name @ post, Offset = length pre, Errors = errs\<rparr>
    = (name, \<lparr>Buf = pre @ name_wire name @ post, Offset = length pre + length (name_wire name), Errors = errs\<rparr>)"
  using readName_written [OF assms, of pre post 0 None "[]"] assms
  by (simp add: ReadDomainName_def name_wire_def name_wire_labels)

text \<open>
  A name whose labels have between 1 and 63 bytes, written at the end of any buffer, is read back
  unchanged from where it was written; the reader stops right after it and reports nothing.
\<close>

theorem ReadDomainName_WriteDomainName:
  assumes "sink_ok dw" "list_all (\<lambda>l. 0 < length l \<and> length l \<le> 63) (Split (CHR ''.'') name)"
  shows "ReadDomainName \<lparr>Buf = Finish (WriteDomainName name dw), Offset = length (Finish dw), Errors = []\<rparr>
    = (name, \<lparr>Buf = Finish (WriteDomainName name dw), Offset = length (Finish (WriteDomainName name dw)), Errors = []\<rparr>)"
  using ReadDomainName_at [of name "Finish dw" "[]" "[]"] assms
  by (simp add: wname.contents_put wire_labels_def list_all_iff)

theorem ReadDomainName_WriteDomainName_witness:
  "fst (ReadDomainName \<lparr>Buf = Finish (WriteDomainName ''www.example.com'' (NewDnsWireFormat (Some []))),
     Offset = 0, Errors = []\<rparr>) = ''www.example.com''"
proof -
  have "list_all (\<lambda>l. 0 < length l \<and> length l \<le> 63) (Split (CHR ''.'') ''www.example.com'')" by code_simp
  from ReadDomainName_WriteDomainName [OF new_encoder(1) [of "Some []"] this] show ?thesis by simp
qed

lemma decoder_at: "(NewDnsWireFormat (Some b))\<lparr>Offset := off\<rparr> = \<lparr>Buf = b, Offset = off, Errors = []\<rparr>"
  by (simp add: NewDnsWireFormat_def)

lemma parseQuestion_offset:
  assumes "parseQuestion query off = (Inr q, errs)" "off \<le> length query"
  shows "off + 5 \<le> NextOffset q \<and> NextOffset q \<le> length query"
proof -
  obtain name d where r: "ReadDomainName \<lparr>Buf = query, Offset = off, Errors = []\<rparr> = (name, d)"
    by force
  have d: "Buf d = query" "off \<le> Offset d" "off < length query \<Longrightarrow> off < Offset d" "Offset d \<le> length query"
    using assms(2) readName_offset [of off query None 0 "[]"] readName_progress [of off query 0 "[]"]
      ReadDomainName_simps [of "\<lparr>Buf = query, Offset = off, Errors = []\<rparr>"]
    by (simp_all add: r)
  have "Offset d + 4 \<le> length query \<and> NextOffset q = Offset d + 4"
    using assms(1) d(1) by (auto simp: parseQuestion_def decoder_at r ReadUint16_def split: prod.splits if_splits)
  with d assms(2) show ?thesis by (cases "off < length query") auto
qed

lemma extractLoop_offsets:
  "off \<le> length query \<Longrightarrow> extractLoop n query off = (qs, errs) \<Longrightarrow>
     length qs \<le> n \<and> off + 5 * length qs \<le> length query
     \<and> sorted_wrt (\<lambda>p q. NextOffset p + 5 \<le> NextOffset q) qs
     \<and> (\<forall>q\<in>set qs. off + 5 \<le> NextOffset q \<and> NextOffset q \<le> length query)"
proof (induction n arbitrary: off qs errs)
  case (Suc n)
  show ?case
  proof (cases "fst (parseQuestion query off)")
    case (Inl e)
    then show ?thesis using Suc.prems by (auto split: prod.splits)
  next
    case (Inr q)
    then obtain es where pq: "parseQuestion query off = (Inr q, es)" by (metis prod.collapse)
    obtain qs' es' where loop: "extractLoop n query (NextOffset q) = (qs', es')" by force
    have "off + 5 \<le> NextOffset q" "NextOffset q \<le> length query"
      using parseQuestion_offset [OF pq Suc.prems(1)] by auto
    moreover have "qs = q # qs'" using Suc.prems(2) pq loop by simp
    ultimately show ?thesis using Suc.IH [OF _ loop] by auto
  qed
qed simp

text \<open>
  On any packet, the question section is parsed with at most as many questions as the header
  announces; each question starts at or after the end of the one before it, uses at least five bytes
  and ends inside the packet, so the number of questions is bounded by the packet's length.
\<close>

theorem ExtractQuestions_bounds:
  "let qs = fst (ExtractQuestions query)
   in list_all (\<lambda>q. 17 \<le> NextOffset q \<and> NextOffset q \<le> length query) qs
    \<and> sorted_wrt (\<lambda>p q. NextOffset p + 5 \<le> NextOffset q) qs
    \<and> length qs \<le> unat (get16 query 4) \<and> 5 * length qs \<le> length query - 12"
proof (cases "length query < 12")
  case False
  obtain qs errs where "extractLoop (unat (get16 query 4)) query 12 = (qs, errs)" by force
  with extractLoop_offsets [OF _ this] False show ?thesis
    by (auto simp: ExtractQuestions_def Let_def list_all_iff)
qed (simp add: ExtractQuestions_def)

definition question_wire :: "string \<times> u16 \<Rightarrow> bytes" where
  "question_wire q = name_wire (fst q) @ be16 (snd q) @ be16 DnsClassIn"

lemma ReadUint16_at:
  "length pre = off \<Longrightarrow> ReadUint16 \<lparr>Buf = pre @ be16 v @ post, Offset = off, Errors = es\<rparr>
     = (v, \<lparr>Buf = pre @ be16 v @ post, Offset = off + 2, Errors = es\<rparr>)"
  using get16_shift [of pre "be16 v @ post" 0] get16_append [of 0 "be16 v" post]
  by (simp add: ReadUint16_def)

lemma parseQuestion_at:
  assumes "wire_labels (Split (CHR ''.'') (fst q))"
  shows "parseQuestion (pre @ question_wire q @ post) (length pre)
    = (Inr \<lparr>pqName = fst q, pqType = snd q, NextOffset = length (pre @ question_wire q)\<rparr>, [])"
proof -
  let ?n = "pre @ name_wire (fst q)" and ?t = "be16 (snd q)" and ?c = "be16 DnsClassIn"
  have "ReadDomainName \<lparr>Buf = ?n @ ?t @ ?c @ post, Offset = length pre, Errors = []\<rparr>
      = (fst q, \<lparr>Buf = ?n @ ?t @ ?c @ post, Offset = length ?n, Errors = []\<rparr>)"
    using ReadDomainName_at [OF assms, of pre "?t @ ?c @ post"] by simp
  moreover have "ReadUint16 \<lparr>Buf = ?n @ ?t @ ?c @ post, Offset = length ?n, Errors = []\<rparr>
      = (snd q, \<lparr>Buf = ?n @ ?t @ ?c @ post, Offset = length ?n + 2, Errors = []\<rparr>)"
    by (rule ReadUint16_at) simp
  moreover have "ReadUint16 \<lparr>Buf = ?n @ ?t @ ?c @ post, Offset = length ?n + 2, Errors = []\<rparr>
      = (DnsClassIn, \<lparr>Buf = ?n @ ?t @ ?c @ post, Offset = length ?n + 4, Errors = []\<rparr>)"
    using ReadUint16_at [of "?n @ ?t" "length ?n + 2" DnsClassIn post "[]"] by simp
  ultimately show ?thesis
    by (simp add: parseQuestion_def question_wire_def NewDnsWireFormat_def DnsClassIn_def)
qed

fun parsed_questions :: "nat \<Rightarrow> (string \<times> u16) list \<Rightarrow> ParsedQuestion list" where
  "parsed_questions off [] = []"
| "parsed_questions off (q # qs) =
     \<lparr>pqName = fst q, pqType = snd q, NextOffset = off + length (question_wire q)\<rparr>
       # parsed_questions (off + length (question_wire q)) qs"

lemma extractLoop_encoded:
  "\<forall>q\<in>set qs. wire_labels (Split (CHR ''.'') (fst q)) \<Longrightarrow>
     extractLoop (length qs) (pre @ concat (map question_wire qs) @ post) (length pre)
       = (parsed_questions (length pre) qs, [])"
proof (induction qs arbitrary: pre)
  case (Cons q qs)
  then show ?case
    using Cons.IH [of "pre @ question_wire q"]
      parseQuestion_at [of q pre "concat (map question_wire qs) @ post"] by simp
qed simp

text \<open>
  C20: the questions of a well-formed packet are recovered exactly: a packet made of a header that
  announces them, the encoded questions and any further sections yields these names and types, in
  order, each with the offset where it ends.
\<close>

theorem ExtractQuestions_encoded:
  assumes "length hdr = 12" "unat (get16 hdr 4) = length qs"
    and "list_all (\<lambda>q. list_all (\<lambda>l. 0 < length l \<and> length l \<le> 63) (Split (CHR ''.'') (fst q))) qs"
  shows "ExtractQuestions (hdr @ concat (map question_wire qs) @ post) = (parsed_questions 12 qs, [])"
  using extractLoop_encoded [of qs hdr post] assms
  by (simp add: ExtractQuestions_def get16_append wire_labels_def list_all_iff)

theorem ExtractQuestions_encoded_witness:
  "ExtractQuestions ([0, 1, 1, 0, 0, 1, 0, 0, 0, 0, 0, 0]
     @ concat (map question_wire [(''a.example'', DnsTypeA)]) @ [7])
   = ([\<lparr>pqName = ''a.example'', pqType = 1, NextOffset = 27\<rparr>], [])"
proof -
  have *: "unat (get16 [0, 1, 1, 0, 0, 1, 0, 0, 0, 0, 0, 0] 4) = length [(''a.example'', DnsTypeA)]"
    "list_all (\<lambda>q. list_all (\<lambda>l. 0 < length l \<and> length l \<le> 63) (Split (CHR ''.'') (fst q))) [(''a.example'', DnsTypeA)]"
    "parsed_questions 12 [(''a.example'', DnsTypeA)] = [\<lparr>pqName = ''a.example'', pqType = 1, NextOffset = 27\<rparr>]"
    by code_simp+
  have "length [0, 1, 1, 0, 0, 1, 0, 0, 0, 0, 0, 0 :: byte] = 12" by simp
  from ExtractQuestions_encoded [OF this *(1,2), of "[7]"] show ?thesis unfolding *(3) .
qed

end
