(* ===== verification/GoHash.thy ===== *)
theory GoHash
  imports GoBase
begin

text \<open>
  Packages \<^verbatim>\<open>crypto/sha256\<close> and \<^verbatim>\<open>crypto/hmac\<close> as the gateway uses them: \<open>Sha256\<close> is the digest
  of FIPS 180-4 on 32-bit words and \<open>HmacSha256\<close> the construction of RFC 2104 on top of it.  What the
  clients use of them is that a digest has 32 bytes.
\<close>

section \<open>SHA-256\<close>

fun words_of :: "bytes \<Rightarrow> u32 list" where
  "words_of (a # b # c # d # bs) = get32 [a, b, c, d] 0 # words_of bs"
| "words_of _ = []"

text \<open>The round constants, as the hexadecimal text of the standard.\<close>

definition sha_K :: "u32 list" where
  "sha_K = words_of (the (DecodeString (concat
     [''428a2f9871374491b5c0fbcfe9b5dba53956c25b59f111f1923f82a4ab1c5ed5'',
      ''d807aa9812835b01243185be550c7dc372be5d7480deb1fe9bdc06a7c19bf174'',
      ''e49b69c1efbe47860fc19dc6240ca1cc2de92c6f4a7484aa5cb0a9dc76f988da'',
      ''983e5152a831c66db00327c8bf597fc7c6e00bf3d5a7914706ca635114292967'',
      ''27b70a852e1b21384d2c6dfc53380d13650a7354766a0abb81c2c92e92722c85'',
      ''a2bfe8a1a81a664bc24b8b70c76c51a3d192e819d6990624f40e3585106aa070'',
      ''19a4c1161e376c082748774c34b0bcb5391c0cb34ed8aa4a5b9cca4f682e6ff3'',
      ''748f82ee78a5636f84c878148cc7020890befffaa4506cebbef9a3f7c67178f2''])))"

type_synonym sha_state = "u32 \<times> u32 \<times> u32 \<times> u32 \<times> u32 \<times> u32 \<times> u32 \<times> u32"

definition sha_init :: sha_state where
  "sha_init =
     (0x6a09e667, 0xbb67ae85, 0x3c6ef372, 0xa54ff53a, 0x510e527f, 0x9b05688c, 0x1f83d9ab, 0x5be0cd19)"

definition rotr :: "nat \<Rightarrow> u32 \<Rightarrow> u32" where
  "rotr n x = drop_bit n x OR push_bit (32 - n) x"

definition small_sigma0 :: "u32 \<Rightarrow> u32" where
  "small_sigma0 x = rotr 7 x XOR rotr 18 x XOR drop_bit 3 x"

definition small_sigma1 :: "u32 \<Rightarrow> u32" where
  "small_sigma1 x = rotr 17 x XOR rotr 19 x XOR drop_bit 10 x"

text \<open>The message schedule, newest word first.\<close>

fun sha_extend :: "nat \<Rightarrow> u32 list \<Rightarrow> u32 list" where
  "sha_extend 0 w = w"
| "sha_extend (Suc n) w =
     sha_extend n ((small_sigma1 (w ! 1) + w ! 6 + small_sigma0 (w ! 14) + w ! 15) # w)"

definition sha_round :: "u32 \<times> u32 \<Rightarrow> sha_state \<Rightarrow> sha_state" where
  "sha_round = (\<lambda>(k, w) (a, b, c, d, e, f, g, h).
     let t1 = h + (rotr 6 e XOR rotr 11 e XOR rotr 25 e) + ((e AND f) XOR (NOT e AND g)) + k + w;
         t2 = (rotr 2 a XOR rotr 13 a XOR rotr 22 a) + ((a AND b) XOR (a AND c) XOR (b AND c))
     in (t1 + t2, a, b, c, d + t1, e, f, g))"

definition sha_add :: "sha_state \<Rightarrow> sha_state \<Rightarrow> sha_state" where
  "sha_add = (\<lambda>(a, b, c, d, e, f, g, h) (a', b', c', d', e', f', g', h').
     (a + a', b + b', c + c', d + d', e + e', f + f', g + g', h + h'))"

definition sha_block :: "bytes \<Rightarrow> sha_state \<Rightarrow> sha_state" where
  "sha_block block s =
     sha_add s (fold sha_round (zip sha_K (rev (sha_extend 48 (rev (words_of block))))) s)"

function sha_blocks :: "bytes \<Rightarrow> sha_state \<Rightarrow> sha_state" where
  "sha_blocks msg s = (if length msg < 64 then s else sha_blocks (drop 64 msg) (sha_block (take 64 msg) s))"
  by auto
termination
  by (relation "measure (\<lambda>(msg, s). length msg)") auto

declare sha_blocks.simps [simp del]

definition be64 :: "u64 \<Rightarrow> bytes" where
  "be64 v = be32 (ucast (drop_bit 32 v)) @ be32 (ucast v)"

definition sha_pad :: "bytes \<Rightarrow> bytes" where
  "sha_pad msg = msg @ [0x80] @ replicate ((119 - length msg mod 64) mod 64) 0 @ be64 (of_nat (8 * length msg))"

definition Sha256 :: "bytes \<Rightarrow> bytes" where
  "Sha256 msg =
     (case sha_blocks (sha_pad msg) sha_init of (a, b, c, d, e, f, g, h) \<Rightarrow>
        be32 a @ be32 b @ be32 c @ be32 d @ be32 e @ be32 f @ be32 g @ be32 h)"

lemma length_Sha256 [simp]: "length (Sha256 msg) = 32"
  by (simp add: Sha256_def split: prod.splits)

section \<open>HMAC\<close>

definition hmac_key :: "bytes \<Rightarrow> bytes" where
  "hmac_key key =
     (let k = (if length key > 64 then Sha256 key else key) in k @ replicate (64 - length k) 0)"

definition HmacSha256 :: "bytes \<Rightarrow> bytes \<Rightarrow> bytes" where
  "HmacSha256 key msg =
     Sha256 (map (\<lambda>b. b XOR 0x5c) (hmac_key key) @ Sha256 (map (\<lambda>b. b XOR 0x36) (hmac_key key) @ msg))"

lemma length_HmacSha256 [simp]: "length (HmacSha256 key msg) = 32"
  by (simp add: HmacSha256_def)

end
