(* ===== verification/Cache.thy ===== *)
theory Cache
  imports Wire GoHash
begin

text \<open>
  The response cache of \<^verbatim>\<open>src/pkg/dns/cache.go\<close>: a map of entries with a list of keys in order of
  use, eviction of the least recently used entry, expiry, and the rewriting of the TTL fields of a
  stored response.  Times are nanoseconds; each operation takes the time its call of \<^verbatim>\<open>time.Now\<close>
  returns.  The mutex makes every operation atomic, so an execution is a sequence of operations.

  The eviction loop of \<^verbatim>\<open>Put\<close> runs while the map is full and only makes progress while the key list
  is not empty; it is a partial function, and the invariant shows that it ends.
\<close>

section \<open>Operations\<close>

record CacheEntry =
  ceResponse :: bytes
  InsertedAt :: int
  TtlMs :: int

record DnsCache =
  cacheMap :: "(string, CacheEntry) gomap"
  keyList :: "string list"
  maxSize :: int
  defaultTtl :: int

definition NewDnsCache :: "int \<Rightarrow> int \<Rightarrow> DnsCache" where
  "NewDnsCache maxEntries defaultTtlMs =
     \<lparr>cacheMap = [], keyList = [], maxSize = (if maxEntries \<le> 0 then 1024 else maxEntries),
      defaultTtl = defaultTtlMs\<rparr>"

definition rawCacheKey :: "ParsedQuestion list \<Rightarrow> string" where
  "rawCacheKey questions =
     Join ''|'' (map (\<lambda>q. EncodeToString (bytes_of (pqName q)) @ '':'' @ itoa (unat (pqType q))) questions)"

definition GenerateCacheKey :: "ParsedQuestion list \<Rightarrow> string" where
  "GenerateCacheKey questions = EncodeToString (Sha256 (bytes_of (rawCacheKey questions)))"

definition touchKey :: "string \<Rightarrow> DnsCache \<Rightarrow> DnsCache" where
  "touchKey key c = c\<lparr>keyList := remove1 key (keyList c) @ [key]\<rparr>"

definition deleteKey :: "string \<Rightarrow> DnsCache \<Rightarrow> DnsCache" where
  "deleteKey key c = c\<lparr>cacheMap := map_del key (cacheMap c), keyList := remove1 key (keyList c)\<rparr>"

definition evictOldest :: "DnsCache \<Rightarrow> DnsCache" where
  "evictOldest c = (case keyList c of [] \<Rightarrow> c | oldest # _ \<Rightarrow> deleteKey oldest c)"

partial_function (option) evictLoop :: "DnsCache \<Rightarrow> DnsCache option" where
  "evictLoop c = (if int (length (cacheMap c)) \<ge> maxSize c then evictLoop (evictOldest c) else Some c)"

declare evictLoop.simps [code]

text \<open>The name part of \<^verbatim>\<open>skipQuestionSection\<close>; \<open>None\<close> is the early return of the saved offset.\<close>

function skipName :: "bytes \<Rightarrow> nat \<Rightarrow> nat option" where
  "skipName buffer offset =
     (if offset < length buffer then
        let len = buffer ! offset
        in if len = 0 then Some (offset + 1)
           else if len AND 0xc0 = 0xc0 then
             (if offset + 1 \<ge> length buffer then None else Some (offset + 2))
           else if offset + 1 + unat len > length buffer then None
           else skipName buffer (offset + 1 + unat len)
      else Some offset)"
  by auto
termination
  by (relation "measure (\<lambda>(buffer, offset). length buffer - offset)") auto

declare skipName.simps [simp del]

definition skipQuestionSection :: "bytes \<Rightarrow> nat \<Rightarrow> nat" where
  "skipQuestionSection buffer offset =
     (case skipName buffer offset of
        None \<Rightarrow> offset
      | Some off \<Rightarrow> if off + 4 > length buffer then offset else off + 4)"

fun skipQuestions :: "nat \<Rightarrow> bytes \<Rightarrow> nat \<Rightarrow> nat" where
  "skipQuestions 0 response offset = offset"
| "skipQuestions (Suc n) response offset =
     (let nextOffset = skipQuestionSection response offset
      in if nextOffset = offset then offset else skipQuestions n response nextOffset)"

fun rewriteAnswers :: "nat \<Rightarrow> bytes \<Rightarrow> u32 \<Rightarrow> nat \<Rightarrow> bytes \<Rightarrow> bytes" where
  "rewriteAnswers 0 response newTtl offset result = result"
| "rewriteAnswers (Suc n) response newTtl offset result =
     (if offset < length response then
        let ttlOffset = skipQuestionSection response offset
        in if ttlOffset = offset \<or> ttlOffset + 4 > length response then result
           else
             let result = put_bytes ttlOffset (be32 newTtl) result;
                 rdLengthOffset = ttlOffset + 4
             in if rdLengthOffset + 2 > length response then result
                else rewriteAnswers n response newTtl
                       (rdLengthOffset + 2 + unat (get16 response rdLengthOffset)) result
      else result)"

definition rewriteResponseTtl :: "bytes \<Rightarrow> u32 \<Rightarrow> bytes" where
  "rewriteResponseTtl response newTtl =
     (if length response < 12 then response
      else rewriteAnswers (unat (get16 response 6)) response newTtl
             (skipQuestions (unat (get16 response 4)) response 12) response)"

definition Get :: "string \<Rightarrow> int \<Rightarrow> DnsCache \<Rightarrow> (bytes \<times> int) option \<times> DnsCache" where
  "Get key now c =
     (if defaultTtl c \<le> 0 then (None, c)
      else (case map_of (cacheMap c) key of
          None \<Rightarrow> (None, c)
        | Some entry \<Rightarrow>
            let elapsed = go_quot (now - InsertedAt entry) 1000000
            in if elapsed \<ge> defaultTtl c then (None, deleteKey key c)
               else
                 let c = touchKey key c;
                     remainingTtlMs = defaultTtl c - elapsed;
                     remainingSeconds = go_quot remainingTtlMs 1000;
                     remainingSeconds = (if remainingSeconds \<le> 0 then 1 else remainingSeconds)
                 in (Some (rewriteResponseTtl (ceResponse entry) (word_of_int remainingSeconds), remainingTtlMs), c)))"

definition Put :: "string \<Rightarrow> bytes \<Rightarrow> int \<Rightarrow> DnsCache \<Rightarrow> DnsCache option" where
  "Put key response now c =
     (if defaultTtl c \<le> 0 \<or> length response < 12 then Some c
      else if map_of (cacheMap c) key \<noteq> None then
        Some (touchKey key (c\<lparr>cacheMap := map_put key
          \<lparr>ceResponse = response, InsertedAt = now, TtlMs = defaultTtl c\<rparr> (cacheMap c)\<rparr>))
      else
        (case evictLoop c of
           None \<Rightarrow> None
         | Some c \<Rightarrow>
             let remainingSeconds = go_quot (defaultTtl c) 1000;
                 remainingSeconds = (if remainingSeconds \<le> 0 then 1 else remainingSeconds);
                 modified = rewriteResponseTtl response (word_of_int remainingSeconds)
             in Some (c\<lparr>cacheMap := map_put key
                  \<lparr>ceResponse = modified, InsertedAt = now, TtlMs = defaultTtl c\<rparr> (cacheMap c),
                  keyList := keyList c @ [key]\<rparr>)))"

section \<open>Least recently used\<close>

text \<open>
  The abstract cache is the list of its items, least recently used first.  An operation on key \<open>j\<close>
  leaves the list alone, drops the item of \<open>j\<close> (it has expired), moves or replaces it to the back, or
  adds a new item at the back, evicting the front one when the cache is full.
\<close>

inductive lru_step :: "int \<Rightarrow> 'k \<Rightarrow> ('k \<times> 'e) list \<Rightarrow> ('k \<times> 'e) list \<Rightarrow> bool"
  for cap :: int and j :: 'k and xs :: "('k \<times> 'e) list" where
  lru_same: "lru_step cap j xs xs"
| lru_drop: "lru_step cap j xs (filter (\<lambda>p. fst p \<noteq> j) xs)"
| lru_use: "j \<in> fst ` set xs \<Longrightarrow> lru_step cap j xs (filter (\<lambda>p. fst p \<noteq> j) xs @ [(j, e)])"
| lru_add: "j \<notin> fst ` set xs \<Longrightarrow> int (length xs) < cap \<Longrightarrow> lru_step cap j xs (xs @ [(j, e)])"
| lru_evict: "j \<notin> fst ` set xs \<Longrightarrow> cap \<le> int (length xs) \<Longrightarrow> lru_step cap j xs (tl xs @ [(j, e)])"

inductive_cases lru_stepE: "lru_step cap j xs ys"

fun run_all :: "('o \<Rightarrow> 's \<Rightarrow> 's option) \<Rightarrow> 'o list \<Rightarrow> 's \<Rightarrow> 's option" where
  "run_all run [] s = Some s"
| "run_all run (p # ps) s = (case run p s of None \<Rightarrow> None | Some t \<Rightarrow> run_all run ps t)"

text \<open>An item with \<open>n\<close> items behind it survives an operation on another key with at most one more
  item behind it, unless it is the front item of a full cache.\<close>

lemma lru_step_behind:
  assumes "lru_step cap j (us @ (k, e) # vs) ys" "j \<noteq> k" "int (length vs) + 1 < cap"
  shows "\<exists>us' vs'. ys = us' @ (k, e) # vs' \<and> length vs' \<le> length vs + 1"
  using assms(1)
proof (cases rule: lru_step.cases)
  case lru_same
  then show ?thesis by (intro exI [of _ us] exI [of _ vs]) simp
next
  case lru_drop
  moreover have "filter (\<lambda>p. fst p \<noteq> j) (us @ (k, e) # vs)
      = filter (\<lambda>p. fst p \<noteq> j) us @ (k, e) # filter (\<lambda>p. fst p \<noteq> j) vs" using assms(2) by simp
  moreover have "length (filter (\<lambda>p. fst p \<noteq> j) vs) \<le> length vs + 1"
    using length_filter_le [of _ vs] by (rule le_trans) simp
  ultimately show ?thesis by blast
next
  case (lru_use e')
  have "ys = filter (\<lambda>p. fst p \<noteq> j) us @ (k, e) # (filter (\<lambda>p. fst p \<noteq> j) vs @ [(j, e')])"
    using lru_use assms(2) by simp
  moreover have "length (filter (\<lambda>p. fst p \<noteq> j) vs @ [(j, e')]) \<le> length vs + 1" by simp
  ultimately show ?thesis by blast
next
  case (lru_add e')
  then have "ys = us @ (k, e) # (vs @ [(j, e')])" by simp
  moreover have "length (vs @ [(j, e')]) \<le> length vs + 1" by simp
  ultimately show ?thesis by blast
next
  case (lru_evict e')
  then have "us \<noteq> []" using assms(3) by auto
  with lru_evict have "ys = tl us @ (k, e) # (vs @ [(j, e')])" by simp
  moreover have "length (vs @ [(j, e')]) \<le> length vs + 1" by simp
  ultimately show ?thesis by blast
qed

locale lru_cache =
  fixes inv :: "'s \<Rightarrow> bool" and capacity :: "'s \<Rightarrow> int" and items :: "'s \<Rightarrow> ('k \<times> 'e) list"
    and run :: "'o \<Rightarrow> 's \<Rightarrow> 's option" and op_key :: "'o \<Rightarrow> 'k"
  assumes run_total: "inv s \<Longrightarrow> \<exists>t. run p s = Some t"
    and run_inv: "inv s \<Longrightarrow> run p s = Some t \<Longrightarrow> inv t \<and> capacity t = capacity s"
    and run_lru: "inv s \<Longrightarrow> run p s = Some t \<Longrightarrow> lru_step (capacity s) (op_key p) (items s) (items t)"
    and inv_items: "inv s \<Longrightarrow> distinct (map fst (items s)) \<and> int (length (items s)) \<le> capacity s"
begin

lemma runs_total: "inv s \<Longrightarrow> \<exists>t. run_all run ps s = Some t \<and> inv t \<and> capacity t = capacity s"
proof (induction ps arbitrary: s)
  case (Cons p ps)
  obtain t where "run p s = Some t" "inv t" "capacity t = capacity s"
    using run_total [OF Cons.prems] run_inv [OF Cons.prems] by blast
  then show ?case using Cons.IH [of t] by simp
qed simp

lemma recent_item_kept:
  "inv s \<Longrightarrow> items s = us @ (k, e) # vs \<Longrightarrow> list_all (\<lambda>p. op_key p \<noteq> k) ps \<Longrightarrow>
     int (length vs + length ps) < capacity s \<Longrightarrow> run_all run ps s = Some t \<Longrightarrow> map_of (items t) k = Some e"
proof (induction ps arbitrary: s us vs)
  case Nil
  then have "distinct (map fst (items s))" "(k, e) \<in> set (items s)" using inv_items [OF Nil(1)] by auto
  then have "map_of (items s) k = Some e" by (rule map_of_is_SomeI)
  then show ?case using Nil by simp
next
  case (Cons p ps)
  obtain r where r: "run p s = Some r" "run_all run ps r = Some t"
    using Cons.prems(5) by (auto split: option.splits)
  have "lru_step (capacity s) (op_key p) (us @ (k, e) # vs) (items r)"
    using run_lru [OF Cons.prems(1) r(1)] Cons.prems(2) by simp
  then obtain us' vs' where "items r = us' @ (k, e) # vs'" "length vs' \<le> length vs + 1"
    using lru_step_behind [of "capacity s" "op_key p" us k e vs "items r"] Cons.prems(3,4) by auto
  moreover have "inv r" "capacity r = capacity s" using run_inv [OF Cons.prems(1) r(1)] by auto
  ultimately show ?case
    using Cons.IH [of r us' vs'] Cons.prems(3,4) r(2) by simp
qed

end

section \<open>The cache is an LRU cache\<close>

definition cache_inv :: "DnsCache \<Rightarrow> bool" where
  "cache_inv c \<longleftrightarrow> map_wf (cacheMap c) \<and> distinct (keyList c) \<and> set (keyList c) = fst ` set (cacheMap c)
     \<and> 0 < maxSize c \<and> int (length (cacheMap c)) \<le> maxSize c"

definition cache_items :: "DnsCache \<Rightarrow> (string \<times> CacheEntry) list" where
  "cache_items c = map (\<lambda>k. (k, the (map_of (cacheMap c) k))) (keyList c)"

datatype cache_op = OpGet string int | OpPut string bytes int

fun cache_op_key :: "cache_op \<Rightarrow> string" where
  "cache_op_key (OpGet key now) = key"
| "cache_op_key (OpPut key response now) = key"

fun run_cache :: "cache_op \<Rightarrow> DnsCache \<Rightarrow> DnsCache option" where
  "run_cache (OpGet key now) c = Some (snd (Get key now c))"
| "run_cache (OpPut key response now) c = Put key response now c"

lemma cache_inv_length: "cache_inv c \<Longrightarrow> length (keyList c) = length (cacheMap c)"
  unfolding cache_inv_def map_wf_def by (metis distinct_card length_map list.set_map)

lemma cache_inv_keys: "cache_inv c \<Longrightarrow> k \<in> set (keyList c) \<longleftrightarrow> map_of (cacheMap c) k \<noteq> None"
  by (auto simp: cache_inv_def map_of_eq_None_iff)

lemma map_of_items: "cache_inv c \<Longrightarrow> map_of (cache_items c) k = map_of (cacheMap c) k"
  using cache_inv_keys [of c k]
  by (cases "map_of (cacheMap c) k") (auto simp: cache_items_def map_of_map_restrict restrict_map_def)

lemma keys_items [simp]: "fst ` set (cache_items c) = set (keyList c)" "map fst (cache_items c) = keyList c"
  by (auto simp: cache_items_def comp_def image_image)

lemma length_items [simp]: "length (cache_items c) = length (keyList c)"
  by (simp add: cache_items_def)

lemma touchKey_inv: "cache_inv c \<Longrightarrow> map_of (cacheMap c) k \<noteq> None \<Longrightarrow> cache_inv (touchKey k c)"
  by (auto simp: cache_inv_def touchKey_def map_of_eq_None_iff)

lemma deleteKey_inv: "cache_inv c \<Longrightarrow> cache_inv (deleteKey k c)"
  by (auto simp: cache_inv_def deleteKey_def length_del)

lemma filter_map_fst: "filter (\<lambda>p. fst p \<noteq> k) (map (\<lambda>k. (k, f k)) ks) = map (\<lambda>k. (k, f k)) (filter (\<lambda>j. j \<noteq> k) ks)"
  by (induction ks) auto

lemma remove1_filter: "distinct ks \<Longrightarrow> remove1 k ks = filter (\<lambda>j. j \<noteq> k) ks"
  by (induction ks) (auto intro: filter_True [symmetric])

lemma touchKey_items:
  "cache_inv c \<Longrightarrow> map_of (cacheMap c) k = Some e \<Longrightarrow>
     cache_items (touchKey k c) = filter (\<lambda>p. fst p \<noteq> k) (cache_items c) @ [(k, e)]"
  by (simp add: cache_items_def touchKey_def filter_map_fst cache_inv_def remove1_filter)

lemma deleteKey_items: "cache_inv c \<Longrightarrow> cache_items (deleteKey k c) = filter (\<lambda>p. fst p \<noteq> k) (cache_items c)"
  by (auto simp: cache_items_def deleteKey_def filter_map_fst cache_inv_def remove1_filter)

lemma evictOldest_inv:
  assumes "cache_inv c" "keyList c \<noteq> []"
  shows "cache_inv (evictOldest c)" "cache_items (evictOldest c) = tl (cache_items c)"
    "length (cacheMap (evictOldest c)) + 1 = length (cacheMap c)"
    "maxSize (evictOldest c) = maxSize c" "defaultTtl (evictOldest c) = defaultTtl c"
proof -
  obtain k ks where ks: "keyList c = k # ks" using assms(2) by (cases "keyList c") auto
  then have ev: "evictOldest c = deleteKey k c" by (simp add: evictOldest_def)
  show "cache_inv (evictOldest c)" unfolding ev using assms(1) by (rule deleteKey_inv)
  then have "length (cacheMap (evictOldest c)) = length (keyList (evictOldest c))"
    by (rule cache_inv_length [symmetric])
  then show "length (cacheMap (evictOldest c)) + 1 = length (cacheMap c)"
    using cache_inv_length [OF assms(1)] ks by (simp add: ev deleteKey_def)
  have "k \<notin> set ks" using assms(1) ks by (auto simp: cache_inv_def)
  then show "cache_items (evictOldest c) = tl (cache_items c)"
    by (auto simp: cache_items_def ev deleteKey_def ks)
qed (auto simp: evictOldest_def deleteKey_def split: list.splits)

text \<open>Under the invariant the eviction loop ends after at most one round.\<close>

lemma evictLoop_inv:
  assumes "cache_inv c"
  shows "evictLoop c = Some (if maxSize c \<le> int (length (cacheMap c)) then evictOldest c else c)"
proof (cases "maxSize c \<le> int (length (cacheMap c))")
  case True
  then have "keyList c \<noteq> []" using cache_inv_length [OF assms] assms by (auto simp: cache_inv_def)
  note ev = evictOldest_inv [OF assms this]
  have "evictLoop (evictOldest c) = Some (evictOldest c)"
    using ev(3,4) assms by (subst evictLoop.simps) (simp add: cache_inv_def)
  then show ?thesis using True by (subst evictLoop.simps) simp
qed (subst evictLoop.simps, simp)

lemma store_new_inv:
  assumes "cache_inv c" "map_of (cacheMap c) k = None" "int (length (cacheMap c)) < maxSize c"
  shows "cache_inv (c\<lparr>cacheMap := map_put k e (cacheMap c), keyList := keyList c @ [k]\<rparr>)"
    "cache_items (c\<lparr>cacheMap := map_put k e (cacheMap c), keyList := keyList c @ [k]\<rparr>) = cache_items c @ [(k, e)]"
  using assms cache_inv_keys [OF assms(1), of k] by (auto simp: cache_inv_def cache_items_def length_put)

lemma replace_inv:
  assumes "cache_inv c" "map_of (cacheMap c) k \<noteq> None"
  shows "cache_inv (touchKey k (c\<lparr>cacheMap := map_put k e (cacheMap c)\<rparr>))"
    "cache_items (touchKey k (c\<lparr>cacheMap := map_put k e (cacheMap c)\<rparr>)) = filter (\<lambda>p. fst p \<noteq> k) (cache_items c) @ [(k, e)]"
proof -
  let ?c = "c\<lparr>cacheMap := map_put k e (cacheMap c)\<rparr>"
  have "k \<in> fst ` set (cacheMap c)" using assms(2) by (metis map_of_eq_None_iff)
  then have inv: "cache_inv ?c" using assms by (auto simp: cache_inv_def length_put)
  then show "cache_inv (touchKey k ?c)" by (rule touchKey_inv) simp
  have "filter (\<lambda>p. fst p \<noteq> k) (cache_items ?c) = filter (\<lambda>p. fst p \<noteq> k) (cache_items c)"
    by (auto simp: cache_items_def filter_map_fst)
  then show "cache_items (touchKey k ?c) = filter (\<lambda>p. fst p \<noteq> k) (cache_items c) @ [(k, e)]"
    using touchKey_items [OF inv, of k e] by simp
qed


section \<open>TTL fields\<close>

text \<open>The offsets of the TTL fields the rewriting loop visits.\<close>

fun answerTtls :: "nat \<Rightarrow> bytes \<Rightarrow> nat \<Rightarrow> nat list" where
  "answerTtls 0 response offset = []"
| "answerTtls (Suc n) response offset =
     (let t = skipQuestionSection response offset
      in if offset < length response \<and> t \<noteq> offset \<and> t + 4 \<le> length response
         then t # (if t + 4 + 2 \<le> length response
                   then answerTtls n response (t + 4 + 2 + unat (get16 response (t + 4))) else [])
         else [])"

definition ttl_offsets :: "bytes \<Rightarrow> nat list" where
  "ttl_offsets response =
     (if length response < 12 then []
      else answerTtls (unat (get16 response 6)) response (skipQuestions (unat (get16 response 4)) response 12))"

lemma rewriteAnswers_fold:
  "rewriteAnswers n response ttl offset result = fold (\<lambda>t r. put_bytes t (be32 ttl) r) (answerTtls n response offset) result"
  by (induction n arbitrary: offset result) (auto simp: Let_def)

lemma rewriteResponseTtl_fold:
  "rewriteResponseTtl response ttl = fold (\<lambda>t r. put_bytes t (be32 ttl) r) (ttl_offsets response) response"
  by (simp add: rewriteResponseTtl_def ttl_offsets_def rewriteAnswers_fold)

lemma skipName_bounds: "skipName b off = Some r \<Longrightarrow> off \<le> r"
proof (induction b off rule: skipName.induct)
  case (1 b off)
  show ?case
    using 1(1) [OF _ refl] 1(2) by (auto simp: skipName.simps [of b off] Let_def split: if_splits)
qed

lemma skipQuestionSection_bounds:
  "skipQuestionSection b off \<noteq> off \<Longrightarrow> off + 4 \<le> skipQuestionSection b off \<and> skipQuestionSection b off \<le> length b"
  by (auto simp: skipQuestionSection_def dest: skipName_bounds split: option.splits if_splits)

text \<open>The fields lie inside the packet, after the offset, and do not overlap.\<close>

definition ttl_fields :: "nat \<Rightarrow> nat \<Rightarrow> nat list \<Rightarrow> bool" where
  "ttl_fields off len ts \<longleftrightarrow> sorted_wrt (\<lambda>s t. s + 6 \<le> t) ts \<and> (\<forall>t\<in>set ts. off + 4 \<le> t \<and> t + 4 \<le> len)"

lemma answerTtls_fields: "ttl_fields off (length response) (answerTtls n response off)"
proof (induction n arbitrary: off)
  case (Suc n)
  let ?t = "skipQuestionSection response off"
  show ?case
  proof (cases "off < length response \<and> ?t \<noteq> off \<and> ?t + 4 \<le> length response")
    case True
    then have "off + 4 \<le> ?t" using skipQuestionSection_bounds by blast
    then show ?thesis
      using True Suc.IH [of "?t + 4 + 2 + unat (get16 response (?t + 4))"]
      by (fastforce simp: Let_def ttl_fields_def)
  next
    case False
    then have "answerTtls (Suc n) response off = []" by (auto simp: Let_def)
    then show ?thesis by (simp add: ttl_fields_def)
  qed
qed (simp add: ttl_fields_def)

lemma skipQuestions_ge: "off \<le> skipQuestions n response off"
proof (induction n arbitrary: off)
  case (Suc n)
  show ?case
    using Suc [of "skipQuestionSection response off"] skipQuestionSection_bounds [of response off]
    by (auto simp: Let_def)
qed simp

lemma ttl_offsets_fields: "ttl_fields 12 (length response) (ttl_offsets response)"
proof (cases "length response < 12")
  case False
  then show ?thesis
    using answerTtls_fields [of "skipQuestions (unat (get16 response 4)) response 12" response "unat (get16 response 6)"]
      skipQuestions_ge [of 12 "unat (get16 response 4)" response]
    by (auto simp: ttl_offsets_def ttl_fields_def)
qed (simp add: ttl_offsets_def ttl_fields_def)

lemma nth_put_bytes:
  "t + length d \<le> length b \<Longrightarrow> k < length b \<Longrightarrow>
     put_bytes t d b ! k = (if t \<le> k \<and> k < t + length d then d ! (k - t) else b ! k)"
  by (auto simp: put_bytes_def nth_append min_def)

definition put_ttls :: "u32 \<Rightarrow> nat list \<Rightarrow> bytes \<Rightarrow> bytes" where
  "put_ttls ttl ts b = fold (\<lambda>t r. put_bytes t (be32 ttl) r) ts b"

lemma length_put_ttls: "ttl_fields off (length b) ts \<Longrightarrow> length (put_ttls ttl ts b) = length b"
  unfolding put_ttls_def by (induction ts arbitrary: b) (auto simp: ttl_fields_def)

lemma nth_put_ttls:
  "ttl_fields off (length b) ts \<Longrightarrow> k < length b \<Longrightarrow> put_ttls ttl ts b ! k =
     (case find (\<lambda>t. t \<le> k \<and> k < t + 4) ts of Some t \<Rightarrow> be32 ttl ! (k - t) | None \<Rightarrow> b ! k)"
proof (induction ts arbitrary: b)
  case (Cons t ts)
  have t: "t + 4 \<le> length b" "ttl_fields off (length b) ts" "\<forall>u\<in>set ts. t + 6 \<le> u"
    using Cons.prems by (auto simp: ttl_fields_def)
  have "k < t + 4 \<Longrightarrow> find (\<lambda>t. t \<le> k \<and> k < t + 4) ts = None"
    using t(3) by (fastforce simp: find_None_iff)
  then show ?case
    using Cons.IH [of "put_bytes t (be32 ttl) b"] Cons.prems(2) t
    by (auto simp: put_ttls_def nth_put_bytes split: option.splits)
qed (simp add: put_ttls_def)

lemma nth_put_ttls_other:
  "ttl_fields off (length b) ts \<Longrightarrow> k < length b \<Longrightarrow> \<forall>t\<in>set ts. \<not> (t \<le> k \<and> k < t + 4) \<Longrightarrow>
     put_ttls ttl ts b ! k = b ! k"
proof -
  assume "ttl_fields off (length b) ts" "k < length b" "\<forall>t\<in>set ts. \<not> (t \<le> k \<and> k < t + 4)"
  moreover from this(3) have "find (\<lambda>t. t \<le> k \<and> k < t + 4) ts = None" by (auto simp: find_None_iff)
  ultimately show ?thesis by (simp add: nth_put_ttls)
qed

lemma rewriteResponseTtl_put: "rewriteResponseTtl response ttl = put_ttls ttl (ttl_offsets response) response"
  by (simp add: rewriteResponseTtl_fold put_ttls_def)

lemma find_unique:
  assumes "sorted_wrt (\<lambda>s t. s + 6 \<le> t) ts" "t \<in> set ts" "t \<le> k" "k < t + 4"
  shows "find (\<lambda>t. t \<le> k \<and> k < t + 4) ts = Some (t :: nat)"
  using assms by (induction ts) fastforce+

text \<open>The parser looks only at the bytes it skips, so changing TTL fields does not change the offsets.\<close>

definition agree :: "bytes \<Rightarrow> bytes \<Rightarrow> nat \<Rightarrow> nat \<Rightarrow> bool" where
  "agree a b i j \<longleftrightarrow> length a = length b \<and> (\<forall>k. i \<le> k \<and> k < j \<and> k < length a \<longrightarrow> a ! k = b ! k)"

lemma agree_mono: "agree a b i j \<Longrightarrow> i \<le> i' \<Longrightarrow> j' \<le> j \<Longrightarrow> agree a b i' j'"
  by (auto simp: agree_def)

lemma skipName_local:
  "agree a b off (case skipName a off of Some r \<Rightarrow> r | None \<Rightarrow> length a) \<Longrightarrow> skipName b off = skipName a off"
proof (induction a off rule: skipName.induct)
  case (1 a off)
  show ?case
  proof (cases "off < length a")
    case True
    then have "off < (case skipName a off of Some r \<Rightarrow> r | None \<Rightarrow> length a)"
      using skipName_bounds [of a "off + 1 + unat (a ! off)"]
      by (auto simp: skipName.simps [of a off] Let_def split: option.splits)
    then have "a ! off = b ! off" "length a = length b" using 1(2) True by (auto simp: agree_def)
    moreover have "agree a b off j \<Longrightarrow> agree a b (off + 1 + unat (a ! off)) j" for j
      by (auto simp: agree_def)
    ultimately show ?thesis
      using 1 True by (auto simp: skipName.simps [of a off] skipName.simps [of b off] Let_def)
  next
    case False
    then show ?thesis using 1(2) by (simp add: skipName.simps agree_def)
  qed
qed

lemma skipQuestionSection_local:
  assumes "agree a b off (if skipQuestionSection a off = off then length a else skipQuestionSection a off)"
  shows "skipQuestionSection b off = skipQuestionSection a off"
proof -
  have len: "length a = length b" using assms by (simp add: agree_def)
  have "agree a b off (case skipName a off of Some r \<Rightarrow> r | None \<Rightarrow> length a)"
  proof (cases "skipName a off")
    case (Some r)
    then have "off \<le> r" by (rule skipName_bounds)
    then show ?thesis using assms Some by (auto simp: skipQuestionSection_def agree_def split: if_splits)
  qed (use assms in \<open>simp add: skipQuestionSection_def\<close>)
  from skipName_local [OF this] show ?thesis unfolding skipQuestionSection_def len by simp
qed

lemma skipQuestions_local:
  assumes "skipQuestions n a off = q" "skipQuestionSection a q \<noteq> q" "agree a b off q"
  shows "skipQuestions n b off = q"
  using assms
proof (induction n arbitrary: off)
  case (Suc n)
  let ?s = "skipQuestionSection a off"
  show ?case
  proof (cases "?s = off")
    case True
    then show ?thesis using Suc.prems by (simp add: Let_def)
  next
    case False
    then have q: "skipQuestions n a ?s = q" using Suc.prems(1) by (simp add: Let_def)
    have "off \<le> ?s" "?s \<le> q" using skipQuestionSection_bounds [OF False] skipQuestions_ge [of ?s n a] q by auto
    then have "agree a b off ?s" "agree a b ?s q" using Suc.prems(3) by (auto elim: agree_mono)
    then have "skipQuestionSection b off = ?s" using skipQuestionSection_local [of a b off] False by simp
    then show ?thesis using Suc.IH [OF q Suc.prems(2) \<open>agree a b ?s q\<close>] False by (simp add: Let_def)
  qed
qed simp

definition agree_off :: "nat list \<Rightarrow> bytes \<Rightarrow> bytes \<Rightarrow> nat \<Rightarrow> bool" where
  "agree_off ts a b i \<longleftrightarrow> length a = length b
     \<and> (\<forall>k. i \<le> k \<and> k < length a \<and> (\<forall>t\<in>set ts. \<not> (t \<le> k \<and> k < t + 4)) \<longrightarrow> a ! k = b ! k)"

lemma get16_agree: "a ! i = b ! i \<Longrightarrow> a ! (i + 1) = b ! (i + 1) \<Longrightarrow> get16 a i = get16 b i"
  by (simp add: get16_def)

lemma answerTtls_local:
  "agree_off (answerTtls n a off) a b off \<Longrightarrow> answerTtls n b off = answerTtls n a off"
proof (induction n arbitrary: off)
  case (Suc n)
  let ?t = "skipQuestionSection a off" and ?ts = "answerTtls (Suc n) a off"
  have len: "length a = length b" using Suc.prems by (simp add: agree_off_def)
  show ?case
  proof (cases "off < length a \<and> ?t \<noteq> off \<and> ?t + 4 \<le> length a")
    case False
    then have nil: "?ts = []" by (auto simp: Let_def)
    then have "agree a b off (length a)" using Suc.prems by (simp add: agree_off_def agree_def)
    then have "skipQuestionSection b off = ?t"
      using skipQuestionSection_bounds [of a off]
      by (intro skipQuestionSection_local) (auto elim: agree_mono)
    then show ?thesis using nil False len by (auto simp: Let_def)
  next
    case True
    define next_ts where "next_ts = answerTtls n a (?t + 4 + 2 + unat (get16 a (?t + 4)))"
    have ts: "?ts = ?t # (if ?t + 4 + 2 \<le> length a then next_ts else [])"
      using True by (simp add: Let_def next_ts_def)
    have ge: "\<forall>u\<in>set next_ts. ?t + 6 + unat (get16 a (?t + 4)) + 4 \<le> u"
      using answerTtls_fields [of "?t + 4 + 2 + unat (get16 a (?t + 4))" a n]
      by (auto simp: next_ts_def ttl_fields_def)
    have "\<forall>u\<in>set ?ts. \<not> (u \<le> k \<and> k < u + 4)" if "k < ?t \<or> ?t + 4 \<le> k \<and> k < ?t + 6" for k
      using ge that unfolding ts by auto
    then have same: "a ! k = b ! k" if "off \<le> k" "k < length a" "k < ?t \<or> ?t + 4 \<le> k \<and> k < ?t + 6" for k
      using Suc.prems that unfolding agree_off_def by blast
    have "off \<le> ?t" using skipQuestionSection_bounds [of a off] True by auto
    then have off: "agree a b off ?t" "?t + 4 + 2 \<le> length a \<Longrightarrow> get16 b (?t + 4) = get16 a (?t + 4)"
      using same len by (simp_all add: agree_def get16_def)
    have t: "skipQuestionSection b off = ?t" using skipQuestionSection_local [of a b off] off(1) True by simp
    have "?t + 4 + 2 \<le> length a \<Longrightarrow> agree_off next_ts a b (?t + 4 + 2 + unat (get16 a (?t + 4)))"
      using Suc.prems \<open>off \<le> ?t\<close> unfolding ts agree_off_def by auto
    from Suc.IH [of "?t + 4 + 2 + unat (get16 a (?t + 4))", folded next_ts_def, OF this]
    show ?thesis unfolding ts using t True off(2) len by (simp add: Let_def)
  qed
qed simp

lemma answerTtls_stuck: "skipQuestionSection a off = off \<Longrightarrow> answerTtls n a off = []"
  by (cases n) auto

lemma ttl_offsets_rewrite: "ttl_offsets (rewriteResponseTtl r ttl) = ttl_offsets r"
proof (cases "ttl_offsets r = []")
  case True
  then show ?thesis by (simp add: rewriteResponseTtl_put put_ttls_def)
next
  case False
  then have len: "12 \<le> length r" by (auto simp: ttl_offsets_def split: if_splits)
  define s q where "s = rewriteResponseTtl r ttl" and "q = skipQuestions (unat (get16 r 4)) r 12"
  have offs: "ttl_offsets r = answerTtls (unat (get16 r 6)) r q" using len by (simp add: ttl_offsets_def q_def)
  then have fields: "ttl_fields q (length r) (ttl_offsets r)" using answerTtls_fields by simp
  have q: "12 \<le> q" unfolding q_def by (rule skipQuestions_ge)
  have ag: "agree_off (ttl_offsets r) r s 0"
    using length_put_ttls [OF fields] nth_put_ttls_other [OF fields]
    by (simp add: agree_off_def s_def rewriteResponseTtl_put)
  have before: "k < q \<Longrightarrow> k < length r \<Longrightarrow> s ! k = r ! k" for k
  proof -
    assume k: "k < q" "k < length r"
    then have "\<forall>t\<in>set (ttl_offsets r). \<not> (t \<le> k \<and> k < t + 4)"
      using fields by (auto simp: ttl_fields_def)
    with ag k show "s ! k = r ! k" by (simp add: agree_off_def)
  qed
  have head: "get16 s 4 = get16 r 4" "get16 s 6 = get16 r 6"
    by (rule get16_agree; use before q len in simp)+
  have "skipQuestionSection r q \<noteq> q" using False answerTtls_stuck offs by metis
  moreover have "agree r s 12 q" using before ag by (simp add: agree_def agree_off_def)
  ultimately have q': "skipQuestions (unat (get16 s 4)) s 12 = q"
    unfolding head using skipQuestions_local q_def by metis
  have "agree_off (answerTtls (unat (get16 r 6)) r q) r s q"
    using ag by (simp add: agree_off_def offs)
  from answerTtls_local [OF this] show ?thesis
    using len ag head q' offs by (simp add: ttl_offsets_def [of s] agree_off_def flip: s_def)
qed

lemma put_ttls_twice:
  assumes "ttl_fields off (length b) ts"
  shows "put_ttls u ts (put_ttls v ts b) = put_ttls u ts b"
proof (rule nth_equalityI)
  have len: "length (put_ttls v ts b) = length b" using assms by (rule length_put_ttls)
  then have f: "ttl_fields off (length (put_ttls v ts b)) ts" using assms by simp
  show "length (put_ttls u ts (put_ttls v ts b)) = length (put_ttls u ts b)"
    using length_put_ttls [OF f] length_put_ttls [OF assms] len by simp
  fix k
  assume "k < length (put_ttls u ts (put_ttls v ts b))"
  then have "k < length b" using length_put_ttls [OF f] len by simp
  then show "put_ttls u ts (put_ttls v ts b) ! k = put_ttls u ts b ! k"
    using nth_put_ttls [OF f] nth_put_ttls [OF assms] len by (simp split: option.splits)
qed

lemma get32_put_ttls:
  assumes "ttl_fields off (length b) ts" "t \<in> set ts"
  shows "get32 (put_ttls v ts b) t = v"
proof -
  have sorted: "sorted_wrt (\<lambda>s t. s + 6 \<le> t) ts" and t: "t + 4 \<le> length b"
    using assms by (auto simp: ttl_fields_def)
  have "put_ttls v ts b ! (t + i) = be32 v ! i" if "i < 4" for i
    using nth_put_ttls [OF assms(1), of "t + i"] find_unique [OF sorted assms(2), of "t + i"] t that by simp
  from this [of 0] this [of 1] this [of 2] this [of 3] show ?thesis
    using get32_be32 [of v] by (simp add: get32_def numeral_2_eq_2)
qed

lemma rewrite_rewrite: "rewriteResponseTtl (rewriteResponseTtl r u) v = rewriteResponseTtl r v"
  unfolding rewriteResponseTtl_put [of "rewriteResponseTtl r u"] ttl_offsets_rewrite
  unfolding rewriteResponseTtl_put using ttl_offsets_fields by (rule put_ttls_twice)

lemma length_rewrite [simp]: "length (rewriteResponseTtl r ttl) = length r"
  unfolding rewriteResponseTtl_put using ttl_offsets_fields by (rule length_put_ttls)

section \<open>Operations under the invariant\<close>

lemma Get_inv:
  assumes "cache_inv c"
  shows "cache_inv (snd (Get k now c))" "maxSize (snd (Get k now c)) = maxSize c"
    "defaultTtl (snd (Get k now c)) = defaultTtl c"
    "lru_step (maxSize c) k (cache_items c) (cache_items (snd (Get k now c)))"
proof -
  have "snd (Get k now c) = c \<or> snd (Get k now c) = deleteKey k c
      \<or> (\<exists>e. map_of (cacheMap c) k = Some e \<and> snd (Get k now c) = touchKey k c)"
    by (auto simp: Get_def Let_def split: option.splits)
  moreover have "lru_step (maxSize c) k (cache_items c) (filter (\<lambda>p. fst p \<noteq> k) (cache_items c) @ [(k, e)])"
    if "map_of (cacheMap c) k = Some e" for e
    using cache_inv_keys [OF assms] that by (intro lru_use) simp
  ultimately show "cache_inv (snd (Get k now c))" "maxSize (snd (Get k now c)) = maxSize c"
    "defaultTtl (snd (Get k now c)) = defaultTtl c"
    "lru_step (maxSize c) k (cache_items c) (cache_items (snd (Get k now c)))"
    using assms deleteKey_inv [OF assms] touchKey_inv [OF assms] deleteKey_items [OF assms] touchKey_items [OF assms]
    by (auto simp: deleteKey_def touchKey_def intro: lru_same lru_drop)
qed

text \<open>What \<open>Put\<close> stores: the response itself when the key is present, the response with the default
  TTL when it is new.\<close>

definition put_entry :: "string \<Rightarrow> bytes \<Rightarrow> int \<Rightarrow> DnsCache \<Rightarrow> CacheEntry" where
  "put_entry k r now c =
     \<lparr>ceResponse = (if map_of (cacheMap c) k \<noteq> None then r
                    else rewriteResponseTtl r (word_of_int (let s = go_quot (defaultTtl c) 1000 in if s \<le> 0 then 1 else s))),
      InsertedAt = now, TtlMs = defaultTtl c\<rparr>"

lemma Put_stores:
  assumes "cache_inv c" "0 < defaultTtl c" "12 \<le> length r"
  shows "\<exists>c' us. Put k r now c = Some c' \<and> cache_inv c' \<and> maxSize c' = maxSize c \<and> defaultTtl c' = defaultTtl c
    \<and> cache_items c' = us @ [(k, put_entry k r now c)] \<and> lru_step (maxSize c) k (cache_items c) (cache_items c')"
proof (cases "map_of (cacheMap c) k = None")
  case False
  then have "k \<in> fst ` set (cache_items c)" using cache_inv_keys [OF assms(1)] by simp
  then show ?thesis
    using False assms replace_inv [OF assms(1) False]
    by (auto simp: Put_def put_entry_def touchKey_def intro: lru_use)
next
  case True
  let ?e = "put_entry k r now c"
  have new: "k \<notin> fst ` set (cache_items c)" using True cache_inv_keys [OF assms(1)] by simp
  show ?thesis
  proof (cases "maxSize c \<le> int (length (cacheMap c))")
    case room: False
    then show ?thesis
      using True assms store_new_inv [OF assms(1) True, of ?e] cache_inv_length [OF assms(1)] lru_add [OF new, of "maxSize c" ?e]
      by (simp add: Put_def evictLoop_inv put_entry_def Let_def)
  next
    case full: True
    then have ne: "keyList c \<noteq> []" using cache_inv_length [OF assms(1)] assms(1) by (auto simp: cache_inv_def)
    note ev = evictOldest_inv [OF assms(1) ne]
    have "map_of (cacheMap (evictOldest c)) k = None"
      using True by (auto simp: evictOldest_def deleteKey_def split: list.splits)
    moreover have "int (length (cacheMap (evictOldest c))) < maxSize (evictOldest c)"
      using ev(3,4) assms(1) by (simp add: cache_inv_def)
    ultimately show ?thesis
      using True full assms store_new_inv [OF ev(1), of k ?e] ev lru_evict [OF new, of "maxSize c" ?e] cache_inv_length [OF assms(1)]
      by (simp add: Put_def evictLoop_inv put_entry_def Let_def)
  qed
qed

lemma run_cache_inv:
  assumes "cache_inv c"
  shows "\<exists>c'. run_cache p c = Some c' \<and> cache_inv c' \<and> maxSize c' = maxSize c \<and> defaultTtl c' = defaultTtl c
    \<and> lru_step (maxSize c) (cache_op_key p) (cache_items c) (cache_items c')"
proof (cases p)
  case (OpGet k now)
  then show ?thesis using Get_inv [OF assms] by simp
next
  case (OpPut k r now)
  show ?thesis
  proof (cases "0 < defaultTtl c \<and> 12 \<le> length r")
    case True
    then show ?thesis using Put_stores [OF assms, of r k now] OpPut by auto
  next
    case False
    then show ?thesis using assms OpPut by (auto simp: Put_def intro: lru_same)
  qed
qed

interpretation dns_cache: lru_cache cache_inv maxSize cache_items run_cache cache_op_key
proof
  fix c p t
  assume inv: "cache_inv c"
  then obtain c' where c': "run_cache p c = Some c'" "cache_inv c'" "maxSize c' = maxSize c"
    "lru_step (maxSize c) (cache_op_key p) (cache_items c) (cache_items c')" using run_cache_inv [of c p] by auto
  then show "\<exists>t. run_cache p c = Some t" by simp
  assume "run_cache p c = Some t"
  then show "cache_inv t \<and> maxSize t = maxSize c"
    "lru_step (maxSize c) (cache_op_key p) (cache_items c) (cache_items t)" using c' by auto
next
  fix c assume "cache_inv c"
  then show "distinct (map fst (cache_items c)) \<and> int (length (cache_items c)) \<le> maxSize c"
    using cache_inv_length [of c] by (simp add: cache_inv_def)
qed

lemma run_all_ttl: "cache_inv c \<Longrightarrow> run_all run_cache ps c = Some t \<Longrightarrow> defaultTtl t = defaultTtl c"
proof (induction ps arbitrary: c)
  case (Cons p ps)
  then show ?case using run_cache_inv [of c p] by auto
qed simp


section \<open>Cache keys\<close>

lemma keyPart_split:
  "Split (CHR '':'') (EncodeToString b @ '':'' @ itoa n) = [EncodeToString b, itoa n]"
proof -
  have "CHR '':'' \<notin> set (EncodeToString b)" "CHR '':'' \<notin> set (itoa n)"
    by (auto simp: is_hex_digit_def is_digit_def dest!: EncodeToString_hex itoa_digits)
  then show ?thesis by (simp add: Split_append_sep Split_no_sep)
qed

lemma keyPart_no_bar: "CHR ''|'' \<notin> set (EncodeToString b @ '':'' @ itoa n)"
  by (auto simp: is_hex_digit_def is_digit_def dest!: EncodeToString_hex itoa_digits)

lemma keyPart_inj:
  "EncodeToString b @ '':'' @ itoa n = EncodeToString b' @ '':'' @ itoa n' \<Longrightarrow> b = b' \<and> n = n'"
  using keyPart_split [of b n] keyPart_split [of b' n'] by (auto dest: itoa_inj)

definition keyPart :: "string \<times> u16 \<Rightarrow> string" where
  "keyPart p = EncodeToString (bytes_of (fst p)) @ '':'' @ itoa (unat (snd p))"

lemma inj_keyPart: "inj keyPart"
proof (rule injI)
  fix p q
  assume "keyPart p = keyPart q"
  then have "bytes_of (fst p) = bytes_of (fst q) \<and> unat (snd p) = unat (snd q)"
    unfolding keyPart_def by (rule keyPart_inj)
  then show "p = q" by (simp add: prod_eq_iff word_unat_eq_iff)
qed

lemma rawCacheKey_parts: "rawCacheKey qs = Join ''|'' (map keyPart (map (\<lambda>q. (pqName q, pqType q)) qs))"
  by (simp add: rawCacheKey_def keyPart_def comp_def)

lemma rawCacheKey_split:
  "qs \<noteq> [] \<Longrightarrow> Split (CHR ''|'') (rawCacheKey qs) = map keyPart (map (\<lambda>q. (pqName q, pqType q)) qs)"
  unfolding rawCacheKey_parts using keyPart_no_bar by (intro Split_Join) (auto simp: keyPart_def)

lemma rawCacheKey_Nil: "rawCacheKey qs = [] \<longleftrightarrow> qs = []"
proof
  assume "rawCacheKey qs = []"
  then have "Split (CHR ''|'') (rawCacheKey qs) = [[]]" by simp
  then show "qs = []" using rawCacheKey_split [of qs] by (cases qs) (auto simp: keyPart_def)
qed (simp add: rawCacheKey_def)

lemma rawCacheKey_inj:
  assumes "rawCacheKey qs = rawCacheKey qs'"
  shows "map (\<lambda>q. (pqName q, pqType q)) qs = map (\<lambda>q. (pqName q, pqType q)) qs'"
proof (cases "qs = []")
  case True
  then have "rawCacheKey qs' = []" using assms rawCacheKey_Nil [of qs] by simp
  with True show ?thesis by (simp add: rawCacheKey_Nil)
next
  case False
  then have ne: "qs' \<noteq> []" using assms rawCacheKey_Nil [of qs] rawCacheKey_Nil [of qs'] by simp
  have "map keyPart (map (\<lambda>q. (pqName q, pqType q)) qs) = map keyPart (map (\<lambda>q. (pqName q, pqType q)) qs')"
    unfolding rawCacheKey_split [OF False, symmetric] rawCacheKey_split [OF ne, symmetric] assms ..
  then show ?thesis by (rule map_injective [OF _ inj_keyPart])
qed

text \<open>
  Two question sections share a cache key only when they ask for the same names and types in the
  same order, or when their encodings are a collision of SHA-256: the encoding itself never confuses
  two question sections.
\<close>

theorem GenerateCacheKey_distinct:
  "GenerateCacheKey qs = GenerateCacheKey qs' \<longleftrightarrow>
     map (\<lambda>q. (pqName q, pqType q)) qs = map (\<lambda>q. (pqName q, pqType q)) qs'
   \<or> (bytes_of (rawCacheKey qs) \<noteq> bytes_of (rawCacheKey qs')
      \<and> Sha256 (bytes_of (rawCacheKey qs)) = Sha256 (bytes_of (rawCacheKey qs')))"
proof (cases "rawCacheKey qs = rawCacheKey qs'")
  case True
  then show ?thesis using rawCacheKey_inj [OF True] by (simp add: GenerateCacheKey_def)
next
  case False
  then have "map (\<lambda>q. (pqName q, pqType q)) qs \<noteq> map (\<lambda>q. (pqName q, pqType q)) qs'"
    unfolding rawCacheKey_parts by metis
  with False show ?thesis by (simp add: GenerateCacheKey_def)
qed

section \<open>Properties\<close>

lemma NewDnsCache_inv: "cache_inv (NewDnsCache n ttl)"
  by (auto simp: cache_inv_def NewDnsCache_def)

text \<open>
  C28: after any sequence of lookups and insertions, every one of which returns, the key list holds
  each cached key exactly once and the number of entries does not exceed the configured size (1024
  when the configured size is not positive).
\<close>

theorem cache_bounded:
  "\<exists>c. run_all run_cache ops (NewDnsCache n ttl) = Some c \<and> distinct (keyList c)
     \<and> set (keyList c) = fst ` set (cacheMap c)
     \<and> int (length (cacheMap c)) \<le> (if n \<le> 0 then 1024 else n)"
  using dns_cache.runs_total [OF NewDnsCache_inv, of ops n ttl]
  by (auto simp: cache_inv_def NewDnsCache_def)

lemma int_div_less_iff: "0 < b \<Longrightarrow> a div b < m \<longleftrightarrow> a < m * (b :: int)"
proof -
  assume b: "0 < b"
  then have a: "a div b * b = a - a mod b" "0 \<le> a mod b" "a mod b < b"
    by (simp_all add: minus_mod_eq_div_mult)
  have "(a div b + 1) * b \<le> m * b" if "a div b < m" using b that by (intro mult_right_mono) auto
  moreover have "m * b \<le> a div b * b" if "m \<le> a div b" using b that by (intro mult_right_mono) auto
  ultimately show ?thesis using a by (cases "a div b < m") (auto simp: distrib_right not_less)
qed

lemma go_quot_less: "0 \<le> a \<Longrightarrow> 0 < b \<Longrightarrow> go_quot a b < m \<longleftrightarrow> a < m * b"
  by (simp add: go_quot_nonneg int_div_less_iff)

text \<open>
  C13: a stored response is found again.  In any cache reached from an empty one, a response put under
  a key is returned by a lookup of that key, with its TTL fields set to the remaining lifetime (at
  least one second) and otherwise unchanged, as long as it has not expired and fewer operations on
  other keys than the cache has room for came in between.
\<close>

theorem Get_after_Put:
  assumes "run_all run_cache ops (NewDnsCache n ttl) = Some c0" "0 < ttl" "12 \<le> length r"
    and "Put k r t0 c0 = Some c1" "run_all run_cache ps c1 = Some c2"
    and "list_all (\<lambda>p. cache_op_key p \<noteq> k) ps" "int (length ps) < (if n \<le> 0 then 1024 else n)"
    and "0 \<le> now - t0" "now - t0 < ttl * 1000000"
  shows "fst (Get k now c2) = Some
    (let remaining = ttl - (now - t0) div 1000000 in
     (rewriteResponseTtl r (word_of_int (if remaining div 1000 \<le> 0 then 1 else remaining div 1000)), remaining))"
proof -
  have c0: "cache_inv c0" "maxSize c0 = (if n \<le> 0 then 1024 else n)" "defaultTtl c0 = ttl"
    using dns_cache.runs_total [OF NewDnsCache_inv, of ops n ttl] run_all_ttl [OF NewDnsCache_inv assms(1)] assms(1)
    by (auto simp: NewDnsCache_def)
  obtain us where c1: "cache_inv c1" "maxSize c1 = maxSize c0" "defaultTtl c1 = ttl"
    "cache_items c1 = us @ [(k, put_entry k r t0 c0)]"
    using Put_stores [OF c0(1), of r k t0] c0(3) assms(2,3,4) by auto
  have "cache_inv c2" "defaultTtl c2 = ttl"
    using dns_cache.runs_total [OF c1(1), of ps] assms(5) run_all_ttl [OF c1(1) assms(5)] c1(3) by auto
  moreover have "map_of (cache_items c2) k = Some (put_entry k r t0 c0)"
    using dns_cache.recent_item_kept [OF c1(1,4) assms(6) _ assms(5)] assms(7) c0(2) c1(2) by simp
  ultimately have e: "map_of (cacheMap c2) k = Some (put_entry k r t0 c0)" "defaultTtl c2 = ttl"
    by (simp_all add: map_of_items)
  have "(now - t0) div 1000000 < ttl" using assms(9) by (simp add: int_div_less_iff)
  then show ?thesis
    using e assms(2,8)
    by (simp add: Get_def Let_def put_entry_def touchKey_def go_quot_nonneg rewrite_rewrite)
qed

theorem Get_after_Put_witness:
  "fst (Get ''k'' 500000000 (the (Put ''j'' (replicate 12 0) 400000000
     (the (Put ''k'' (replicate 12 0) 0 (NewDnsCache 2 1000)))))) = Some (replicate 12 0, 500)"
proof -
  let ?r = "replicate 12 0 :: bytes"
  let ?c1 = "the (Put ''k'' ?r 0 (NewDnsCache 2 1000))"
  have "Put ''k'' ?r 0 (NewDnsCache 2 1000) = Some ?c1"
    "run_all run_cache [OpPut ''j'' ?r 400000000] ?c1 = Some (the (Put ''j'' ?r 400000000 ?c1))"
    "rewriteResponseTtl ?r 1 = ?r"
    by code_simp+
  then show ?thesis
    using Get_after_Put [of "[]" 2 1000 "NewDnsCache 2 1000" ?r "''k''" 0 ?c1 "[OpPut ''j'' ?r 400000000]" _ 500000000]
    by simp
qed

text \<open>
  A lookup never serves an expired response: what it returns was stored less than the default TTL
  ago, the remaining lifetime it reports is positive, and the TTL written into the response is that
  lifetime in seconds, at least one.
\<close>

theorem Get_fresh:
  assumes "fst (Get k now c) = Some (b, remaining)"
  shows "\<exists>e. map_of (cacheMap c) k = Some e \<and> 0 < remaining
    \<and> (InsertedAt e \<le> now \<longrightarrow> now - InsertedAt e < defaultTtl c * 1000000)
    \<and> b = rewriteResponseTtl (ceResponse e) (word_of_int (if remaining div 1000 \<le> 0 then 1 else remaining div 1000))"
proof -
  obtain e where e: "map_of (cacheMap c) k = Some e" "go_quot (now - InsertedAt e) 1000000 < defaultTtl c"
    "remaining = defaultTtl c - go_quot (now - InsertedAt e) 1000000"
    "b = rewriteResponseTtl (ceResponse e) (word_of_int (if go_quot remaining 1000 \<le> 0 then 1 else go_quot remaining 1000))"
    using assms by (auto simp: Get_def Let_def touchKey_def split: option.splits if_splits)
  then have "0 < remaining" by simp
  moreover from this have "go_quot remaining 1000 = remaining div 1000" by (simp add: go_quot_nonneg)
  ultimately show ?thesis using e by (auto simp: go_quot_less)
qed

theorem Get_fresh_witness:
  "\<exists>e. map_of (cacheMap (the (Put ''k'' (replicate 12 0) 0 (NewDnsCache 2 1000)))) ''k'' = Some e
     \<and> (InsertedAt e \<le> 500000000 \<longrightarrow> 500000000 - InsertedAt e < 1000 * 1000000)"
proof -
  let ?c = "the (Put ''k'' (replicate 12 0) 0 (NewDnsCache 2 1000))"
  have "fst (Get ''k'' 500000000 ?c) = Some (replicate 12 0, 500)" "defaultTtl ?c = 1000" by code_simp+
  with Get_fresh [of "''k''" 500000000 ?c "replicate 12 0" 500] show ?thesis by auto
qed

text \<open>
  Rewriting the TTL of a response changes nothing but the four TTL bytes of the answers it visits:
  the length and every other byte stay, every visited field holds the new TTL, and rewriting again
  replaces exactly the same fields.
\<close>

theorem rewriteResponseTtl_fields:
  "length (rewriteResponseTtl r ttl) = length r
   \<and> (\<forall>k<length r. (\<forall>t\<in>set (ttl_offsets r). \<not> (t \<le> k \<and> k < t + 4)) \<longrightarrow> rewriteResponseTtl r ttl ! k = r ! k)
   \<and> (\<forall>t\<in>set (ttl_offsets r). get32 (rewriteResponseTtl r ttl) t = ttl)
   \<and> rewriteResponseTtl (rewriteResponseTtl r ttl) ttl' = rewriteResponseTtl r ttl'"
  using ttl_offsets_fields [of r] nth_put_ttls_other [of 12 r "ttl_offsets r"] get32_put_ttls [of 12 r "ttl_offsets r"]
    rewrite_rewrite [of r ttl ttl'] length_rewrite [of r ttl]
  by (simp add: rewriteResponseTtl_put)

definition example_response :: bytes where
  "example_response =
     [0, 1, 0x81, 0x80, 0, 1, 0, 1, 0, 0, 0, 0, 1, 97, 0, 0, 1, 0, 1,
      0xc0, 12, 0, 1, 0, 1, 0, 0, 0, 60, 0, 4, 10, 0, 0, 1]"

theorem rewriteResponseTtl_fields_witness:
  "ttl_offsets example_response = [25] \<and> get32 (rewriteResponseTtl example_response 7) 25 = 7"
proof -
  have "ttl_offsets example_response = [25]" by code_simp
  with rewriteResponseTtl_fields [of example_response 7] show ?thesis by simp
qed

end
