(* ===== verification/RateLimiter.thy ===== *)
theory RateLimiter
  imports Config
begin

text \<open>
  The per-client rate limiter of \<^verbatim>\<open>src/pkg/dns/ratelimiter.go\<close>: fixed windows with a bounded number
  of tracked clients.  The mutex makes every operation atomic; the clock is an argument.  The order in
  which the runtime visits the map in the eviction scan is the argument \<open>order\<close>, the list of the keys
  in the order visited.  The bucket map is \<open>None\<close> after \<^verbatim>\<open>Destroy\<close> (the nil map, which can be read
  but not written).

  The lemmas show the invariant of the buckets, the bound on the clients tracked, the bound on the
  requests one client gets through in any window, and that no client is locked out.
\<close>

section \<open>Operations\<close>

record IpBucket =
  Count :: int
  ResetTime :: int

record RateLimiter =
  buckets :: "(string, IpBucket) gomap option"
  maxRequests :: int
  window :: int
  maxTrackedIps :: int
  stopClosed :: bool

definition NewRateLimiter :: "int \<Rightarrow> int \<Rightarrow> int \<Rightarrow> RateLimiter" where
  "NewRateLimiter maxReq windowMs maxTracked =
     \<lparr>buckets = Some [], maxRequests = maxReq, window = windowMs * 1000000,
      maxTrackedIps = (if maxTracked \<le> 0 then 100000 else maxTracked), stopClosed = False\<rparr>"

definition bucketMap :: "RateLimiter \<Rightarrow> (string, IpBucket) gomap" where
  "bucketMap rl = (case buckets rl of None \<Rightarrow> [] | Some m \<Rightarrow> m)"

definition Destroy :: "RateLimiter \<Rightarrow> RateLimiter outcome" where
  "Destroy rl =
     (if stopClosed rl then Panic else Ret (rl\<lparr>stopClosed := True, buckets := None\<rparr>))"

text \<open>The scan returns the key to delete: the first expired one, else the one with the earliest reset
  time, unless that key is the empty string.\<close>

fun evictScan :: "int \<Rightarrow> (string \<times> IpBucket) list \<Rightarrow> string \<Rightarrow> int \<Rightarrow> bool \<Rightarrow> string option" where
  "evictScan now [] oldestKey oldestTime first = (if oldestKey \<noteq> '''' then Some oldestKey else None)"
| "evictScan now ((k, bucket) # bs) oldestKey oldestTime first =
     (if now > ResetTime bucket then Some k
      else if first \<or> ResetTime bucket < oldestTime then evictScan now bs k (ResetTime bucket) False
      else evictScan now bs oldestKey oldestTime first)"

definition visited :: "string list \<Rightarrow> (string, IpBucket) gomap \<Rightarrow> (string \<times> IpBucket) list" where
  "visited order m = List.map_filter (\<lambda>k. map_option (\<lambda>b. (k, b)) (map_of m k)) order"

definition evictExpiredOrOldest :: "string list \<Rightarrow> int \<Rightarrow> RateLimiter \<Rightarrow> RateLimiter" where
  "evictExpiredOrOldest order now rl =
     (case buckets rl of
        None \<Rightarrow> rl
      | Some m \<Rightarrow>
          (case evictScan now (visited order m) '''' 0 True of
             None \<Rightarrow> rl
           | Some k \<Rightarrow> rl\<lparr>buckets := Some (map_del k m)\<rparr>))"

text \<open>The branch of \<^verbatim>\<open>Allow\<close> that starts a new window, and the whole handler.\<close>

definition startWindow :: "string list \<Rightarrow> int \<Rightarrow> string \<Rightarrow> RateLimiter \<Rightarrow> (bool \<times> RateLimiter) outcome" where
  "startWindow order now ip rl =
     (let rl = (if int (length (bucketMap rl)) \<ge> maxTrackedIps rl then evictExpiredOrOldest order now rl else rl)
      in case buckets rl of
           None \<Rightarrow> Panic
         | Some m \<Rightarrow> Ret (True, rl\<lparr>buckets := Some (map_put ip \<lparr>Count = 1, ResetTime = now + window rl\<rparr> m)\<rparr>))"

definition Allow :: "string list \<Rightarrow> int \<Rightarrow> string \<Rightarrow> RateLimiter \<Rightarrow> (bool \<times> RateLimiter) outcome" where
  "Allow order now ip rl =
     (case map_of (bucketMap rl) ip of
        None \<Rightarrow> startWindow order now ip rl
      | Some bucket \<Rightarrow>
          if now > ResetTime bucket then startWindow order now ip rl
          else if Count bucket \<ge> maxRequests rl then Ret (False, rl)
          else Ret (True, rl\<lparr>buckets := Some (map_put ip (bucket\<lparr>Count := Count bucket + 1\<rparr>) (bucketMap rl))\<rparr>))"

definition garbageCollect :: "int \<Rightarrow> RateLimiter \<Rightarrow> RateLimiter" where
  "garbageCollect now rl =
     rl\<lparr>buckets := map_option (filter (\<lambda>(ip, bucket). \<not> now > ResetTime bucket)) (buckets rl)\<rparr>"

text \<open>The collector goroutine: creating the ticker panics when the interval is not positive; then the
  goroutine runs one collection per tick until the stop channel is closed.\<close>

datatype gc_event = Tick int | StopSignal

fun collectorLoop :: "gc_event list \<Rightarrow> RateLimiter \<Rightarrow> RateLimiter" where
  "collectorLoop [] rl = rl"
| "collectorLoop (Tick now # evs) rl = collectorLoop evs (garbageCollect now rl)"
| "collectorLoop (StopSignal # evs) rl = rl"

definition startGarbageCollector :: "gc_event list \<Rightarrow> RateLimiter \<Rightarrow> RateLimiter outcome" where
  "startGarbageCollector evs rl = (if window rl * 2 \<le> 0 then Panic else Ret (collectorLoop evs rl))"

section \<open>The invariant\<close>

definition bucket_ok :: "RateLimiter \<Rightarrow> IpBucket \<Rightarrow> bool" where
  "bucket_ok rl b \<longleftrightarrow> 1 \<le> Count b \<and> Count b \<le> max 1 (maxRequests rl)"

definition rl_inv :: "RateLimiter \<Rightarrow> bool" where
  "rl_inv rl \<longleftrightarrow> 0 < maxTrackedIps rl \<and> (buckets rl = None \<longleftrightarrow> stopClosed rl)
     \<and> map_wf (bucketMap rl) \<and> [] \<notin> fst ` set (bucketMap rl)
     \<and> int (length (bucketMap rl)) \<le> maxTrackedIps rl
     \<and> (\<forall>ip b. map_of (bucketMap rl) ip = Some b \<longrightarrow> bucket_ok rl b)"

lemma evictScan_key:
  "[] \<notin> fst ` set bs \<Longrightarrow> oldestKey \<noteq> [] \<or> first \<and> bs \<noteq> [] \<Longrightarrow>
     \<exists>k. evictScan now bs oldestKey oldestTime first = Some k \<and> (k = oldestKey \<or> k \<in> fst ` set bs)"
proof (induction now bs oldestKey oldestTime first rule: evictScan.induct)
  case (2 now k bucket bs oldestKey oldestTime first)
  then show ?case by (cases "k = []") auto
qed auto

lemma evictScan_nonempty:
  "[] \<notin> fst ` set bs \<Longrightarrow> evictScan now bs oldestKey oldestTime first = Some k \<Longrightarrow> k \<noteq> []"
  by (induction now bs oldestKey oldestTime first rule: evictScan.induct) (auto split: if_splits)

lemma visited_keys: "fst ` set (visited order m) = set order \<inter> fst ` set m"
proof -
  have "k \<in> fst ` set (visited order m) \<longleftrightarrow> k \<in> set order \<and> map_of m k \<noteq> None" for k
    by (force simp: visited_def map_filter_def image_iff)
  then show ?thesis by (auto simp: map_of_eq_None_iff)
qed

lemma evict_frees:
  assumes "rl_inv rl" "buckets rl = Some m" "m \<noteq> []" "set order = fst ` set m"
  obtains k where "evictExpiredOrOldest order now rl = rl\<lparr>buckets := Some (map_del k m)\<rparr>" "map_of m k \<noteq> None"
proof -
  have m: "bucketMap rl = m" using assms(2) by (simp add: bucketMap_def)
  have keys: "fst ` set (visited order m) = fst ` set m" using visited_keys [of order m] assms(4) by simp
  then have *: "visited order m \<noteq> []" "[] \<notin> fst ` set (visited order m)"
    using assms(1,3) m by (auto simp: rl_inv_def)
  then obtain k where k: "evictScan now (visited order m) [] 0 True = Some k" "k = [] \<or> k \<in> fst ` set (visited order m)"
    using evictScan_key [of "visited order m" "[]" True now 0] by auto
  have "k \<in> fst ` set m" using k evictScan_nonempty [OF *(2) k(1)] keys by simp
  with k(1) show ?thesis using that [of k] assms(2) by (auto simp: evictExpiredOrOldest_def map_of_eq_None_iff)
qed

text \<open>What a new window does to the buckets, with or without an eviction.\<close>

lemma startWindow_cases:
  assumes "rl_inv rl" "buckets rl = Some m" "set order = fst ` set m"
  obtains m' where "startWindow order now ip rl
      = Ret (True, rl\<lparr>buckets := Some (map_put ip \<lparr>Count = 1, ResetTime = now + window rl\<rparr> m')\<rparr>)"
    "int (length m') < maxTrackedIps rl" "m' = m \<or> (\<exists>k. m' = map_del k m)"
    "int (length m) < maxTrackedIps rl \<Longrightarrow> m' = m"
proof (cases "int (length m) < maxTrackedIps rl")
  case True
  then show ?thesis using assms(2) by (intro that [of m]) (auto simp: startWindow_def bucketMap_def)
next
  case False
  then have "m \<noteq> []" using assms(1) by (auto simp: rl_inv_def)
  then obtain k where k: "evictExpiredOrOldest order now rl = rl\<lparr>buckets := Some (map_del k m)\<rparr>" "map_of m k \<noteq> None"
    using evict_frees [OF assms(1,2)] assms(3) by metis
  have "map_wf m" "int (length m) \<le> maxTrackedIps rl" using assms(1,2) by (auto simp: rl_inv_def bucketMap_def)
  then have "int (length (map_del k m)) < maxTrackedIps rl"
    using k(2) \<open>m \<noteq> []\<close> by (cases m) (auto simp: length_del simp del: map_del.simps)
  then show ?thesis using k(1) False assms(2)
    by (intro that [of "map_del k m"]) (auto simp: startWindow_def bucketMap_def)
qed

lemma rl_inv_put:
  assumes "rl_inv rl" "buckets rl = Some m" "m' = m \<or> (\<exists>k. m' = map_del k m)"
    and "ip \<noteq> []" "bucket_ok rl b" "int (length m') < maxTrackedIps rl \<or> map_of m' ip \<noteq> None"
  shows "rl_inv (rl\<lparr>buckets := Some (map_put ip b m')\<rparr>)"
proof -
  have m: "map_wf m" "[] \<notin> fst ` set m" "int (length m) \<le> maxTrackedIps rl" "0 < maxTrackedIps rl" "\<not> stopClosed rl"
    "\<forall>ip b. map_of m ip = Some b \<longrightarrow> bucket_ok rl b"
    using assms(1,2) by (auto simp: rl_inv_def bucketMap_def)
  have "fst ` set m' \<subseteq> fst ` set m"
    using assms(3) by (elim disjE exE) (simp_all only: keys_del subset_refl Diff_subset)
  then have "[] \<notin> fst ` set m'" using m(2) by blast
  moreover have "map_wf m'" "int (length m') \<le> maxTrackedIps rl" "\<forall>ip b. map_of m' ip = Some b \<longrightarrow> bucket_ok rl b"
    using assms(3) m by (auto simp: length_del split: if_splits)
  ultimately show ?thesis
    using assms m by (auto simp: rl_inv_def bucketMap_def length_put bucket_ok_def simp flip: map_of_eq_None_iff)
qed

lemma Allow_inv:
  assumes "rl_inv rl" "ip \<noteq> []" "set order = fst ` set (bucketMap rl)" "Allow order now ip rl = Ret (ok, rl')"
  shows "rl_inv rl'"
proof -
  obtain m where m: "buckets rl = Some m" "bucketMap rl = m"
    using assms(4) by (cases "buckets rl") (auto simp: Allow_def startWindow_def bucketMap_def evictExpiredOrOldest_def split: if_splits)
  obtain m' where new: "startWindow order now ip rl
      = Ret (True, rl\<lparr>buckets := Some (map_put ip \<lparr>Count = 1, ResetTime = now + window rl\<rparr> m')\<rparr>)"
    "int (length m') < maxTrackedIps rl" "m' = m \<or> (\<exists>k. m' = map_del k m)"
    using startWindow_cases [OF assms(1) m(1), of order now ip] assms(3) m(2) by metis
  then have "rl_inv (rl\<lparr>buckets := Some (map_put ip \<lparr>Count = 1, ResetTime = now + window rl\<rparr> m')\<rparr>)"
    using rl_inv_put [OF assms(1) m(1)] assms(2) by (simp add: bucket_ok_def)
  moreover have "rl_inv (rl\<lparr>buckets := Some (map_put ip (b\<lparr>Count := Count b + 1\<rparr>) m)\<rparr>)"
    if "map_of m ip = Some b" "Count b < maxRequests rl" for b
  proof -
    have "bucket_ok rl b" using assms(1) that(1) m(2) by (simp add: rl_inv_def)
    then have "bucket_ok rl (b\<lparr>Count := Count b + 1\<rparr>)" using that(2) by (simp add: bucket_ok_def)
    with assms(2) that(1) show ?thesis by (intro rl_inv_put [OF assms(1) m(1)]) simp_all
  qed
  ultimately show ?thesis
    using assms(1,4) m new(1) by (auto simp: Allow_def split: option.splits if_splits)
qed

lemma map_of_filter_value:
  "map_wf m \<Longrightarrow> map_of (filter (\<lambda>(k, v). P v) m) k
     = (case map_of m k of None \<Rightarrow> None | Some v \<Rightarrow> if P v then Some v else None)"
proof (induction m)
  case (Cons p m)
  obtain k' v' where p: "p = (k', v')" by (cases p)
  from Cons.prems have "map_of m k' = None" "map_wf m" by (auto simp: p map_wf_def map_of_eq_None_iff)
  then show ?case using Cons.IH by (auto simp: p)
qed simp

lemma garbageCollect_inv: "rl_inv rl \<Longrightarrow> rl_inv (garbageCollect now rl)"
proof (cases "buckets rl")
  case (Some m)
  assume inv: "rl_inv rl"
  let ?m = "filter (\<lambda>(ip, bucket). \<not> now > ResetTime bucket) m"
  have m: "map_wf m" "[] \<notin> fst ` set m" "int (length m) \<le> maxTrackedIps rl"
    "\<forall>ip b. map_of m ip = Some b \<longrightarrow> bucket_ok rl b"
    using inv Some by (auto simp: rl_inv_def bucketMap_def)
  have "map_wf ?m" using m(1) by (simp add: map_wf_def distinct_map_filter)
  moreover have "[] \<notin> fst ` set ?m" using m(2) by auto
  moreover have "int (length ?m) \<le> maxTrackedIps rl" using m(3) length_filter_le [of _ m] by (meson le_trans of_nat_mono order_trans)
  moreover have "\<forall>ip b. map_of ?m ip = Some b \<longrightarrow> bucket_ok rl b"
    using m(4) map_of_filter_value [OF m(1), of "\<lambda>b. \<not> now > ResetTime b"] by (auto split: option.splits if_splits)
  ultimately show ?thesis using inv Some by (simp add: rl_inv_def garbageCollect_def bucketMap_def bucket_ok_def)
qed (simp add: garbageCollect_def rl_inv_def bucketMap_def bucket_ok_def)

lemma Destroy_inv: "rl_inv rl \<Longrightarrow> Destroy rl = Ret rl' \<Longrightarrow> rl_inv rl'"
  by (auto simp: Destroy_def rl_inv_def bucketMap_def split: if_splits)

inductive rl_step :: "RateLimiter \<Rightarrow> RateLimiter \<Rightarrow> bool" where
  rl_allow: "ip \<noteq> [] \<Longrightarrow> set order = fst ` set (bucketMap rl) \<Longrightarrow> Allow order now ip rl = Ret (ok, rl') \<Longrightarrow> rl_step rl rl'"
| rl_collect: "rl_step rl (garbageCollect now rl)"
| rl_destroy: "Destroy rl = Ret rl' \<Longrightarrow> rl_step rl rl'"

interpretation limiter: invariant_of "\<lambda>rl. \<exists>r w t. rl = NewRateLimiter r w t" rl_step rl_inv
proof
  fix s t
  assume "rl_inv s" "rl_step s t"
  from this(2,1) show "rl_inv t"
    by (cases rule: rl_step.cases) (auto intro: Allow_inv garbageCollect_inv Destroy_inv)
qed (auto simp: rl_inv_def NewRateLimiter_def bucketMap_def)

section \<open>Executions\<close>

text \<open>A sequence of requests and collections; \<open>served\<close> counts the requests of one client that get
  through.\<close>

datatype rl_event = Request "string list" int string | Collect int

fun rl_exec :: "rl_event list \<Rightarrow> RateLimiter \<Rightarrow> RateLimiter outcome" where
  "rl_exec [] rl = Ret rl"
| "rl_exec (Request order now ip # es) rl =
     (case Allow order now ip rl of Panic \<Rightarrow> Panic | Ret (ok, rl') \<Rightarrow> rl_exec es rl')"
| "rl_exec (Collect now # es) rl = rl_exec es (garbageCollect now rl)"

fun served :: "string \<Rightarrow> rl_event list \<Rightarrow> RateLimiter \<Rightarrow> nat" where
  "served ip [] rl = 0"
| "served ip (Request order now j # es) rl =
     (case Allow order now j rl of
        Panic \<Rightarrow> 0
      | Ret (ok, rl') \<Rightarrow> (if ok \<and> j = ip then 1 else 0) + served ip es rl')"
| "served ip (Collect now # es) rl = served ip es (garbageCollect now rl)"

fun event_time :: "rl_event \<Rightarrow> int" where
  "event_time (Request order now ip) = now"
| "event_time (Collect now) = now"

text \<open>While there is room, a request changes only the bucket of its client.\<close>

lemma Allow_room:
  assumes "buckets rl = Some m" "int (length m) < maxTrackedIps rl"
  shows "Allow order now ip rl =
    (case map_of m ip of
       Some b \<Rightarrow> if now \<le> ResetTime b then
                   (if Count b \<ge> maxRequests rl then Ret (False, rl)
                    else Ret (True, rl\<lparr>buckets := Some (map_put ip (b\<lparr>Count := Count b + 1\<rparr>) m)\<rparr>))
                 else Ret (True, rl\<lparr>buckets := Some (map_put ip \<lparr>Count = 1, ResetTime = now + window rl\<rparr> m)\<rparr>)
     | None \<Rightarrow> Ret (True, rl\<lparr>buckets := Some (map_put ip \<lparr>Count = 1, ResetTime = now + window rl\<rparr> m)\<rparr>))"
  using assms by (auto simp: Allow_def startWindow_def bucketMap_def split: option.splits)

text \<open>What a client can still get through up to time \<open>T\<close>.\<close>

definition allowance :: "string \<Rightarrow> int \<Rightarrow> RateLimiter \<Rightarrow> int" where
  "allowance ip T rl =
     (let M = max 1 (maxRequests rl)
      in case map_of (bucketMap rl) ip of
           None \<Rightarrow> M
         | Some b \<Rightarrow> if T \<le> ResetTime b then M - Count b else 2 * M - Count b)"

lemma served_allowance:
  assumes "\<forall>e\<in>set es. t \<le> event_time e \<and> event_time e \<le> t + window rl"
    and "buckets rl = Some m" "int (length m) + int (length es) \<le> maxTrackedIps rl"
    and "map_wf m" "\<forall>ip b. map_of m ip = Some b \<longrightarrow> 1 \<le> Count b \<and> Count b \<le> max 1 (maxRequests rl)"
  shows "int (served ip es rl) \<le> allowance ip (t + window rl) rl"
  using assms
proof (induction es arbitrary: rl m)
  case Nil
  have "1 \<le> max 1 (maxRequests rl)" by simp
  moreover have "Count b \<le> max 1 (maxRequests rl)" if "map_of m ip = Some b" for b
    using Nil.prems(5) that by blast
  ultimately show ?case
    using Nil.prems(2) by (cases "map_of m ip") (fastforce simp: allowance_def Let_def bucketMap_def)+
next
  case (Cons e es)
  show ?case
  proof (cases e)
    case (Collect now)
    let ?m = "filter (\<lambda>(ip, bucket). \<not> now > ResetTime bucket) m"
    have of: "map_of ?m k = (case map_of m k of None \<Rightarrow> None | Some b \<Rightarrow> if \<not> now > ResetTime b then Some b else None)" for k
      using map_of_filter_value [OF Cons.prems(4)] .
    have "\<forall>ip b. map_of ?m ip = Some b \<longrightarrow> 1 \<le> Count b \<and> Count b \<le> max 1 (maxRequests rl)"
      using Cons.prems(5) unfolding of by (auto split: option.splits if_splits)
    moreover have "map_wf ?m" using Cons.prems(4) by (simp add: map_wf_def distinct_map_filter)
    moreover have "int (length ?m) + int (length es) \<le> maxTrackedIps rl"
      using Cons.prems(3) of_nat_mono [OF length_filter_le [of "\<lambda>(ip, bucket). \<not> now > ResetTime bucket" m], where 'a = int]
      unfolding list.size of_nat_add by linarith
    ultimately have "int (served ip es (garbageCollect now rl)) \<le> allowance ip (t + window rl) (garbageCollect now rl)"
      using Cons.IH [of "garbageCollect now rl" ?m] Cons.prems(1,2) by (simp add: garbageCollect_def)
    also have "\<dots> \<le> allowance ip (t + window rl) rl"
      using Cons.prems(1,2) Cons.prems(5) [rule_format, of ip] of [of ip] Collect
      by (auto simp: allowance_def Let_def bucketMap_def garbageCollect_def simp del: max.bounded_iff
          split: option.splits if_splits)
    finally show ?thesis using Collect by simp
  next
    case (Request order now j)
    have room: "int (length m) < maxTrackedIps rl" using Cons.prems(3) by simp
    have now: "t \<le> now" "now \<le> t + window rl" using Cons.prems(1) Request by auto
    have put: "int (served ip es (rl\<lparr>buckets := Some (map_put j b m)\<rparr>))
        \<le> allowance ip (t + window rl) (rl\<lparr>buckets := Some (map_put j b m)\<rparr>)"
      if "1 \<le> Count b" "Count b \<le> max 1 (maxRequests rl)" for b
      using Cons.IH [of "rl\<lparr>buckets := Some (map_put j b m)\<rparr>" "map_put j b m"] Cons.prems that
      by (auto simp: length_put split: if_splits)
    have same: "int (served ip es rl) \<le> allowance ip (t + window rl) rl"
      using Cons.IH [of rl m] Cons.prems by simp
    show ?thesis
      using put [of "\<lparr>Count = 1, ResetTime = now + window rl\<rparr>"] put [of "the (map_of m j)\<lparr>Count := Count (the (map_of m j)) + 1\<rparr>"]
        same Cons.prems(2) Cons.prems(5) [rule_format, of ip] Cons.prems(5) [rule_format, of j] now
        Allow_room [OF Cons.prems(2) room, of order now j] Request
      by (auto simp: allowance_def Let_def bucketMap_def simp del: max.bounded_iff split: option.splits if_splits)
  qed
qed

lemma rl_exec_reset:
  assumes "\<forall>e\<in>set es. event_time e \<le> t" "0 \<le> window rl" "rl_exec es rl = Ret rl'"
    and "\<forall>ip b. map_of (bucketMap rl) ip = Some b \<longrightarrow> ResetTime b \<le> t + window rl" "map_wf (bucketMap rl)"
  shows "\<forall>ip b. map_of (bucketMap rl') ip = Some b \<longrightarrow> ResetTime b \<le> t + window rl"
  using assms
proof (induction es arbitrary: rl)
  case (Cons e es)
  obtain rl1 where rl1: "rl_exec es rl1 = Ret rl'" "window rl1 = window rl" "map_wf (bucketMap rl1)"
    "\<forall>ip b. map_of (bucketMap rl1) ip = Some b \<longrightarrow> ResetTime b \<le> t + window rl"
  proof (cases e)
    case (Collect now)
    have "bucketMap (garbageCollect now rl) = filter (\<lambda>(ip, b). \<not> now > ResetTime b) (bucketMap rl)"
      by (simp add: bucketMap_def garbageCollect_def split: option.splits)
    then show ?thesis
      using Cons.prems Collect map_of_filter_value [OF Cons.prems(5), of "\<lambda>b. \<not> now > ResetTime b"]
      by (intro that [of "garbageCollect now rl"])
        (auto simp: map_wf_def distinct_map_filter garbageCollect_def split: option.splits if_splits)
  next
    case (Request order now j)
    then obtain ok rl1 where a: "Allow order now j rl = Ret (ok, rl1)" "rl_exec es rl1 = Ret rl'"
      using Cons.prems(3) by (auto split: outcome.splits)
    have now: "now \<le> t" using Cons.prems(1) Request by simp
    from a(1) have "window rl1 = window rl \<and> (rl1 = rl \<or> (\<exists>m b. bucketMap rl1 = map_put j b m
        \<and> (m = bucketMap rl \<or> (\<exists>k. m = map_del k (bucketMap rl)))
        \<and> (b = \<lparr>Count = 1, ResetTime = now + window rl\<rparr> \<or> (\<exists>b'. map_of (bucketMap rl) j = Some b' \<and> ResetTime b = ResetTime b'))))"
      by (fastforce simp: Allow_def startWindow_def evictExpiredOrOldest_def bucketMap_def Let_def
          split: option.splits if_splits)
    then show ?thesis
      using a(2) Cons.prems(4,5) now by (intro that [of rl1]) (auto split: if_splits)
  qed
  then show ?case using Cons.IH [of rl1] Cons.prems(1,2) by simp
qed simp

lemma rl_exec_alive:
  "buckets rl \<noteq> None \<Longrightarrow> \<exists>rl'. rl_exec es rl = Ret rl' \<and> buckets rl' \<noteq> None \<and> window rl' = window rl"
proof (induction es arbitrary: rl)
  case (Cons e es)
  show ?case
  proof (cases e)
    case (Collect now)
    then show ?thesis using Cons.IH [of "garbageCollect now rl"] Cons.prems by (simp add: garbageCollect_def)
  next
    case (Request order now j)
    obtain ok rl1 where "Allow order now j rl = Ret (ok, rl1)" "buckets rl1 \<noteq> None" "window rl1 = window rl"
      using Cons.prems
      by (fastforce simp: Allow_def startWindow_def evictExpiredOrOldest_def bucketMap_def Let_def
          split: option.splits if_splits)
    then show ?thesis using Cons.IH [of rl1] Request by simp
  qed
qed simp

section \<open>Properties\<close>

text \<open>
  In every reachable state of a limiter, under any interleaving of requests, collections and a
  shutdown, at most the configured number of clients is tracked and every counter lies between one
  and the configured number of requests (one when that number is not positive).
\<close>

theorem limiter_bounded:
  assumes "reachable (\<lambda>rl. \<exists>r w t. rl = NewRateLimiter r w t) rl_step rl"
  shows "int (length (bucketMap rl)) \<le> maxTrackedIps rl \<and> distinct (map fst (bucketMap rl))
    \<and> (\<forall>ip b. map_of (bucketMap rl) ip = Some b \<longrightarrow> 1 \<le> Count b \<and> Count b \<le> max 1 (maxRequests rl))"
  using limiter.inv_reachable [OF assms] by (simp add: rl_inv_def map_wf_def bucket_ok_def)

theorem limiter_bounded_witness:
  "int (length (bucketMap (snd (case Allow [] 5 ''10.0.0.1'' (NewRateLimiter 3 1000 1) of Ret r \<Rightarrow> r)))) \<le> 1"
proof -
  let ?s = "NewRateLimiter 3 1000 1"
  let ?t = "snd (case Allow [] 5 ''10.0.0.1'' ?s of Ret r \<Rightarrow> r)"
  have "Allow [] 5 ''10.0.0.1'' ?s = Ret (True, ?t)" "maxTrackedIps ?t = 1" "bucketMap ?s = []" by code_simp+
  then have "rl_step ?s ?t" by (intro rl_allow [of "''10.0.0.1''" "[]" ?s 5 True ?t]) simp_all
  moreover have "reachable (\<lambda>rl. \<exists>r w t. rl = NewRateLimiter r w t) rl_step ?s" by (rule reach_init) blast
  ultimately have "reachable (\<lambda>rl. \<exists>r w t. rl = NewRateLimiter r w t) rl_step ?t" by (rule reach_step [rotated])
  from limiter_bounded [OF this] \<open>maxTrackedIps ?t = 1\<close> show ?thesis by simp
qed



text \<open>
  No client is locked out for good: after any sequence of requests and collections up to time
  \<open>t\<close>, which all return, every request that comes more than a window later is let through.
\<close>

theorem no_lockout:
  assumes "list_all (\<lambda>e. event_time e \<le> t) es" "0 \<le> w" "t + w * 1000000 < now"
  shows "\<exists>rl rl'. rl_exec es (NewRateLimiter r w k) = Ret rl \<and> Allow order now ip rl = Ret (True, rl')"
proof -
  obtain rl where rl: "rl_exec es (NewRateLimiter r w k) = Ret rl" "buckets rl \<noteq> None"
    using rl_exec_alive [of "NewRateLimiter r w k" es] by (auto simp: NewRateLimiter_def)
  have reset: "\<forall>ip b. map_of (bucketMap rl) ip = Some b \<longrightarrow> ResetTime b < now"
    using rl_exec_reset [OF _ _ rl(1), of t] assms
    by (fastforce simp: list_all_iff NewRateLimiter_def bucketMap_def)
  have "\<exists>rl'. startWindow order now ip rl = Ret (True, rl')"
    using rl(2) by (auto simp: startWindow_def evictExpiredOrOldest_def Let_def split: option.splits)
  then show ?thesis using rl(1) reset by (auto simp: Allow_def split: option.splits)
qed

theorem no_lockout_witness:
  "\<exists>rl rl'. rl_exec [Request [] 0 ''a'', Request [] 1 ''a''] (NewRateLimiter 1 1 10) = Ret rl
     \<and> Allow [''a''] 1000002 ''a'' rl = Ret (True, rl')"
  by (rule no_lockout [of 1]) simp_all

text \<open>
  After a shutdown the limiter must not be used again: the next request writes to the nil map and
  panics, and so does a second shutdown.
\<close>

theorem use_after_destroy:
  assumes "Destroy rl = Ret rl'" "0 < maxTrackedIps rl"
  shows "Allow order now ip rl' = Panic \<and> Destroy rl' = Panic"
  using assms by (auto simp: Destroy_def Allow_def startWindow_def bucketMap_def split: if_splits)

theorem use_after_destroy_witness:
  "Allow [] 5 ''10.0.0.1'' ((NewRateLimiter 3 1000 1)\<lparr>stopClosed := True, buckets := None\<rparr>) = Panic"
proof -
  have "Destroy (NewRateLimiter 3 1000 1) = Ret ((NewRateLimiter 3 1000 1)\<lparr>stopClosed := True, buckets := None\<rparr>)"
    "0 < maxTrackedIps (NewRateLimiter 3 1000 1)"
    by code_simp+
  from use_after_destroy [OF this] show ?thesis by simp
qed

end
