(* ===== verification/GoJson.thy ===== *)
theory GoJson
  imports GoBase
begin

text \<open>
  The part of package \<^verbatim>\<open>encoding/json\<close> the gateway uses to print values: \<open>json_string\<close> is the string
  encoder of \<^verbatim>\<open>json.Marshal\<close> (HTML-safe escaping, U+FFFD for invalid UTF-8), \<open>json_print\<close> prints
  a value built from the fields of a struct in declaration order.  The main result is that a printed
  value contains no control character, so a log record is one line.
\<close>

section \<open>Printing\<close>

definition json_ascii :: "nat \<Rightarrow> string" where
  "json_ascii b =
     (if b = 34 \<or> b = 92 then [CHR 0x5C, char_of b]
      else if b = 10 then [CHR 0x5C, CHR ''n'']
      else if b = 13 then [CHR 0x5C, CHR ''r'']
      else if b = 9 then [CHR 0x5C, CHR ''t'']
      else if b < 32 \<or> b = 60 \<or> b = 62 \<or> b = 38
        then CHR 0x5C # ''u00'' @ [digit (b div 16), digit (b mod 16)]
      else [char_of b])"

function json_bytes :: "nat list \<Rightarrow> string" where
  "json_bytes [] = []"
| "json_bytes (b # bs) =
     (case decode_rune b bs of (r, n) \<Rightarrow>
        (if b < 128 then json_ascii b
         else if r = RuneError \<and> n = 1 then CHR 0x5C # ''ufffd''
         else if r = 8232 \<or> r = 8233 then CHR 0x5C # ''u202'' @ [digit (r mod 16)]
         else map char_of (b # take (n - 1) bs))
        @ json_bytes (drop (n - 1) bs))"
  by pat_completeness auto
termination
  by (relation "measure length") auto

declare json_bytes.simps [simp del]

definition json_string :: "string \<Rightarrow> string" where
  "json_string s = [CHR 0x22] @ json_bytes (map of_char s) @ [CHR 0x22]"

datatype json = JStr string | JInt int | JBool bool | JArr "json list" | JObj "(string \<times> json) list"

fun json_print :: "json \<Rightarrow> string" where
  "json_print (JStr s) = json_string s"
| "json_print (JInt i) = itoa_int i"
| "json_print (JBool b) = (if b then ''true'' else ''false'')"
| "json_print (JArr xs) = ''['' @ Join '','' (map json_print xs) @ '']''"
| "json_print (JObj fs) = ''{'' @ Join '','' (map (\<lambda>(k, v). json_string k @ '':'' @ json_print v) fs) @ ''}''"

text \<open>A field with the option \<^verbatim>\<open>omitempty\<close>.\<close>

definition omitempty :: "bool \<Rightarrow> string \<times> json \<Rightarrow> (string \<times> json) list" where
  "omitempty b f = (if b then [] else [f])"

section \<open>No control characters\<close>

definition printable :: "string \<Rightarrow> bool" where
  "printable s = list_all (\<lambda>c. 32 \<le> code c) s"

lemma printable_simps [simp]:
  "printable []" "printable (c # s) \<longleftrightarrow> 32 \<le> code c \<and> printable s"
  "printable (s @ t) \<longleftrightarrow> printable s \<and> printable t"
  by (simp_all add: printable_def)

lemma code_digit_ge: "n < 16 \<Longrightarrow> 32 \<le> code (digit n)"
  using is_hex_digit_digit [of n] by (auto simp: is_hex_digit_def)

lemma printable_Join: "printable sep \<Longrightarrow> (\<And>x. x \<in> set xs \<Longrightarrow> printable x) \<Longrightarrow> printable (Join sep xs)"
  by (induction sep xs rule: Join.induct) auto

lemma digits_printable: "is_hex_digit c \<Longrightarrow> 32 \<le> code c" "is_digit c \<Longrightarrow> 32 \<le> code c"
  by (auto simp: is_hex_digit_def is_digit_def)

lemma printable_itoa: "printable (itoa n)"
  unfolding itoa_def printable_def list_all_iff by (auto dest!: digits_base_10_digits simp: digits_printable)

lemma printable_itoa_int: "printable (itoa_int i)"
  by (simp add: itoa_int_def printable_itoa)

lemma printable_json_ascii: "b < 128 \<Longrightarrow> printable (json_ascii b)"
  by (auto simp: json_ascii_def intro!: code_digit_ge)

lemma decode_rune_cont:
  assumes "decode_rune b bs = (r, n)" "128 \<le> b" "\<not> (r = RuneError \<and> n = 1)"
  shows "\<forall>x\<in>set (take (n - 1) bs). 128 \<le> x"
  using assms
  by (cases bs; cases "tl bs"; cases "tl (tl bs)")
    (auto simp: decode_rune_def utf8_cont_def utf8_second_def split: if_splits)

lemma printable_json_bytes: "list_all (\<lambda>b. b < 256) bs \<Longrightarrow> printable (json_bytes bs)"
proof (induction bs rule: json_bytes.induct)
  case (2 b bs)
  obtain r n where d: "decode_rune b bs = (r, n)" by force
  have "list_all (\<lambda>b. b < 256) (drop (n - 1) bs)" using "2.prems" by (auto simp: list_all_iff dest: in_set_dropD)
  then have IH: "printable (json_bytes (drop (n - 1) bs))" using "2.IH" [of r n] d by simp
  have "printable (map char_of (b # take (n - 1) bs))" if "128 \<le> b" "\<not> (r = RuneError \<and> n = 1)"
  proof -
    have "\<forall>x\<in>set (b # take (n - 1) bs). 128 \<le> x \<and> x < 256"
      using decode_rune_cont [OF d that] that(1) "2.prems" by (auto simp: list_all_iff dest: in_set_takeD)
    then show ?thesis by (auto simp: printable_def list_all_iff)
  qed
  then show ?case
    using IH printable_json_ascii [of b] by (auto simp: json_bytes.simps(2) d intro!: code_digit_ge)
qed (simp add: json_bytes.simps)

lemma printable_json_string: "printable (json_string s)"
proof -
  have "list_all (\<lambda>b. b < 256) (map of_char s :: nat list)" by (auto simp: list_all_iff)
  then show ?thesis by (simp add: json_string_def printable_json_bytes)
qed

lemma printable_json: "printable (json_print v)"
proof (induction v rule: json_print.induct)
  case (5 fs)
  then show ?case by (auto intro!: printable_Join simp: printable_json_string)
qed (auto intro!: printable_Join simp: printable_json_string printable_itoa_int)

end
