(* ===== verification/AuditLog.thy ===== *)
theory AuditLog
  imports GoJson
begin

text \<open>
  The audit logger of \<^verbatim>\<open>src/pkg/audit/audit.go\<close> and the event buffer of
  \<^verbatim>\<open>src/pkg/audit/buffer.go\<close>.  The two writers are the text written to them, one string per write,
  oldest first; the counters are 64-bit words and wrap.  The clock and the container resolver are in
  the record \<open>AuditEnv\<close>: the texts the two time formats give, the time stamps of the events of a call,
  and the function \<^verbatim>\<open>ResolveIP\<close> (\<open>None\<close> while it is nil).  A component that logs returns the list of
  its calls (\<open>audit_call\<close>), which \<open>audit\<close> runs on the logger.
\<close>

section \<open>The event buffer\<close>

record LogEvent =
  Timestamp :: int
  evType :: string
  ClientIP :: string
  Details :: string
  Status :: string
  Target :: string

record LogBuffer =
  events :: "LogEvent list"
  maxEvents :: nat

definition newGlobalBuffer :: LogBuffer where
  "newGlobalBuffer = \<lparr>events = [], maxEvents = 1000\<rparr>"

text \<open>Slicing off the first event of an empty slice panics; it happens only for a buffer of size 0.\<close>

definition Add :: "LogEvent \<Rightarrow> LogBuffer \<Rightarrow> LogBuffer outcome" where
  "Add e b =
     (if length (events b) \<ge> maxEvents b then
        (case events b of
           [] \<Rightarrow> Panic
         | _ # evs \<Rightarrow> Ret (b\<lparr>events := evs @ [e]\<rparr>))
      else Ret (b\<lparr>events := events b @ [e]\<rparr>))"

definition GetEvents :: "LogBuffer \<Rightarrow> LogEvent list" where
  "GetEvents b = map (\<lambda>i. events b ! (length (events b) - 1 - i)) [0..<length (events b)]"

section \<open>The logger\<close>

record AuditLogger =
  useJson :: bool
  isTestEnv :: bool
  logOutput :: "string list"
  errOutput :: "string list"
  dnsQueries :: u64
  dnsBlocked :: u64
  httpRequests :: u64
  httpBlocked :: u64
  firewallDrops :: u64
  systemEvents :: u64
  errorCount :: u64
  GlobalBuffer :: LogBuffer

record AuditEnv =
  aeHumanTime :: string
  aeRFC3339 :: string
  aeNow :: "nat \<Rightarrow> int"
  ResolveIP :: "(string \<Rightarrow> string) option"

definition newLogger :: "bool \<Rightarrow> AuditLogger" where
  "newLogger testEnv =
     \<lparr>useJson = False, isTestEnv = testEnv, logOutput = [], errOutput = [], dnsQueries = 0, dnsBlocked = 0,
      httpRequests = 0, httpBlocked = 0, firewallDrops = 0, systemEvents = 0, errorCount = 0,
      GlobalBuffer = newGlobalBuffer\<rparr>"

definition formatIP :: "AuditEnv \<Rightarrow> string \<Rightarrow> string" where
  "formatIP env ip =
     (case ResolveIP env of
        None \<Rightarrow> ip
      | Some f \<Rightarrow> let name = f ip in if name \<noteq> [] \<and> name \<noteq> ip then ip @ '' ('' @ name @ '')'' else ip)"

definition resolveContainer :: "AuditEnv \<Rightarrow> string \<Rightarrow> string" where
  "resolveContainer env ip = (case ResolveIP env of None \<Rightarrow> [] | Some f \<Rightarrow> f ip)"

definition SetJsonMode :: "bool \<Rightarrow> AuditLogger \<Rightarrow> AuditLogger" where
  "SetJsonMode enable l = l\<lparr>useJson := enable\<rparr>"

definition SetOutput :: "string list \<Rightarrow> string list \<Rightarrow> AuditLogger \<Rightarrow> AuditLogger" where
  "SetOutput out errOut l = l\<lparr>logOutput := out, errOutput := errOut\<rparr>"

definition sanitizeRune :: "nat \<Rightarrow> string" where
  "sanitizeRune r =
     (if r = 13 \<or> r = 10 \<or> r = 9 then '' ''
      else if r < 32 \<or> r > 126 then CHR 0x5C # ''x'' @ hex02 r
      else [char_of r])"

definition Sanitize :: "string \<Rightarrow> string" where
  "Sanitize input = concat (map sanitizeRune (runes input))"

definition sgr :: "string \<Rightarrow> string \<Rightarrow> string" where
  "sgr codes txt = CHR 0x1B # ''['' @ codes @ ''m'' @ txt @ CHR 0x1B # ''[0m''"

definition nl :: string where
  "nl = [CHR 0x0A]"

text \<open>\<^verbatim>\<open>fmt.Fprintf\<close> and \<^verbatim>\<open>fmt.Fprintln\<close> to one of the two writers.\<close>

definition writeOut :: "string \<Rightarrow> AuditLogger \<Rightarrow> AuditLogger" where
  "writeOut s l = l\<lparr>logOutput := logOutput l @ [s]\<rparr>"

definition writeErr :: "string \<Rightarrow> AuditLogger \<Rightarrow> AuditLogger" where
  "writeErr s l = l\<lparr>errOutput := errOutput l @ [s]\<rparr>"

definition bufferAdd :: "LogEvent \<Rightarrow> AuditLogger \<Rightarrow> AuditLogger outcome" where
  "bufferAdd e l = (case Add e (GlobalBuffer l) of Panic \<Rightarrow> Panic | Ret b \<Rightarrow> Ret (l\<lparr>GlobalBuffer := b\<rparr>))"

definition metricLines :: "AuditLogger \<Rightarrow> string list" where
  "metricLines l =
     [''# HELP ottergate_dns_queries_total Total DNS queries processed'',
      ''# TYPE ottergate_dns_queries_total counter'',
      ''ottergate_dns_queries_total '' @ itoa (unat (dnsQueries l)),
      ''# HELP ottergate_dns_blocked_total Total DNS queries blocked by policy'',
      ''# TYPE ottergate_dns_blocked_total counter'',
      ''ottergate_dns_blocked_total '' @ itoa (unat (dnsBlocked l)),
      ''# HELP ottergate_http_requests_total Total HTTP requests routed'',
      ''# TYPE ottergate_http_requests_total counter'',
      ''ottergate_http_requests_total '' @ itoa (unat (httpRequests l)),
      ''# HELP ottergate_http_blocked_total Total HTTP requests blocked'',
      ''# TYPE ottergate_http_blocked_total counter'',
      ''ottergate_http_blocked_total '' @ itoa (unat (httpBlocked l)),
      ''# HELP ottergate_firewall_drops_total Total connection drops across L3/L4/L7'',
      ''# TYPE ottergate_firewall_drops_total counter'',
      ''ottergate_firewall_drops_total '' @ itoa (unat (firewallDrops l)),
      ''# HELP ottergate_errors_total Total system errors encountered'',
      ''# TYPE ottergate_errors_total counter'',
      ''ottergate_errors_total '' @ itoa (unat (errorCount l))]"

definition GetMetricsPrometheus :: "AuditLogger \<Rightarrow> string" where
  "GetMetricsPrometheus l = Join nl (metricLines l) @ nl"

section \<open>DNS\<close>

definition dnsLogPayload :: "golib \<Rightarrow> AuditEnv \<Rightarrow> string \<Rightarrow> string \<Rightarrow> (string \<times> string) list \<Rightarrow> int \<Rightarrow> bool
    \<Rightarrow> string list \<Rightarrow> json" where
  "dnsLogPayload L env logType ip questions rcode cached resolvedIps = JObj
     ([(''timestamp'', JStr (aeRFC3339 env)), (''level'', JStr ''INFO''),
       (''component'', JStr (ToUpper L logType)), (''ip'', JStr ip)]
      @ omitempty (resolveContainer env ip = []) (''container'', JStr (resolveContainer env ip))
      @ [(''questions'', JArr (map (\<lambda>(n, t). JObj [(''name'', JStr n), (''type'', JStr t)]) questions)),
         (''rcode'', JInt rcode), (''cached'', JBool cached)]
      @ omitempty (resolvedIps = []) (''resolved_ips'', JArr (map JStr resolvedIps)))"

definition codeMap :: "int \<Rightarrow> string" where
  "codeMap rcode =
     (if rcode = 0 then ''allowed'' else if rcode = 1 then ''format error''
      else if rcode = 2 then ''server failure'' else if rcode = 3 then ''domain not found''
      else if rcode = 5 then ''refused by firewall'' else itoa_int rcode)"

definition resolvedSuffix :: "string list \<Rightarrow> string" where
  "resolvedSuffix resolvedIps =
     (if length resolvedIps > 0 then '' ['' @ Join '', '' resolvedIps @ '']'' else [])"

definition dnsPrefix :: "bool \<Rightarrow> string" where
  "dnsPrefix cached = (if cached then ''cached '' else [])"

definition dnsLine :: "golib \<Rightarrow> AuditEnv \<Rightarrow> string \<Rightarrow> string \<Rightarrow> string \<times> string \<Rightarrow> int \<Rightarrow> bool \<Rightarrow> string list \<Rightarrow> string" where
  "dnsLine L env logType ip q rcode cached resolvedIps =
     (let cLogType = (if logType = ''localdns'' then sgr ''1;36'' ''localdns'' else sgr ''36'' ''dns'');
          cStatus = (if rcode = 0 then sgr ''32'' (codeMap rcode) else sgr ''31'' (codeMap rcode))
      in ''['' @ aeHumanTime env @ ''] ['' @ cLogType @ ''] '' @ Sanitize (formatIP env ip) @ '' requested ''
         @ dnsPrefix cached @ ToUpper L (snd q) @ '' record for '' @ Sanitize (fst q) @ '' -> '' @ cStatus
         @ resolvedSuffix resolvedIps @ nl)"

definition dnsEvent :: "golib \<Rightarrow> AuditEnv \<Rightarrow> nat \<Rightarrow> string \<Rightarrow> string \<Rightarrow> string \<times> string \<Rightarrow> int \<Rightarrow> bool \<Rightarrow> string list
    \<Rightarrow> LogEvent" where
  "dnsEvent L env i logType ip q rcode cached resolvedIps =
     \<lparr>Timestamp = aeNow env i, evType = logType, ClientIP = Sanitize ip,
      Details = ''Requested '' @ dnsPrefix cached @ ToUpper L (snd q) @ '' record'' @ resolvedSuffix resolvedIps,
      Status = (if rcode = 5 \<or> rcode = 3 then ''deny'' else ''allow''), Target = Sanitize (fst q)\<rparr>"

fun dnsLoop :: "golib \<Rightarrow> AuditEnv \<Rightarrow> nat \<Rightarrow> string \<Rightarrow> string \<Rightarrow> (string \<times> string) list \<Rightarrow> int \<Rightarrow> bool \<Rightarrow> string list
    \<Rightarrow> AuditLogger \<Rightarrow> AuditLogger outcome" where
  "dnsLoop L env i logType ip [] rcode cached resolvedIps l = Ret l"
| "dnsLoop L env i logType ip (q # qs) rcode cached resolvedIps l =
     (case bufferAdd (dnsEvent L env i logType ip q rcode cached resolvedIps)
             (writeOut (dnsLine L env logType ip q rcode cached resolvedIps) l) of
        Panic \<Rightarrow> Panic
      | Ret l \<Rightarrow> dnsLoop L env (i + 1) logType ip qs rcode cached resolvedIps l)"

definition DNS :: "golib \<Rightarrow> AuditEnv \<Rightarrow> string \<Rightarrow> (string \<times> string) list \<Rightarrow> int \<Rightarrow> bool \<Rightarrow> string list \<Rightarrow> bool
    \<Rightarrow> AuditLogger \<Rightarrow> AuditLogger outcome" where
  "DNS L env ip questions rcode cached resolvedIps isLocalDns l =
     (let l = l\<lparr>dnsQueries := dnsQueries l + of_nat (length questions)\<rparr>;
          l = (if rcode = 5 \<or> rcode = 3 then l\<lparr>dnsBlocked := dnsBlocked l + of_nat (length questions)\<rparr> else l)
      in if isTestEnv l then Ret l
         else
           let logType = (if isLocalDns then ''localdns'' else ''dns'')
           in if useJson l then
                Ret (writeOut (json_print (dnsLogPayload L env logType ip questions rcode cached resolvedIps) @ nl) l)
              else dnsLoop L env 0 logType ip questions rcode cached resolvedIps l)"

section \<open>The other records\<close>

text \<open>The common tail of the remaining methods: nothing in a test run, one JSON line in JSON mode,
  otherwise one line of text and one event.\<close>

definition emit :: "(string \<Rightarrow> AuditLogger \<Rightarrow> AuditLogger) \<Rightarrow> json \<Rightarrow> string \<Rightarrow> LogEvent \<Rightarrow> AuditLogger \<Rightarrow> AuditLogger outcome" where
  "emit write payload line ev l =
     (if isTestEnv l then Ret l
      else if useJson l then Ret (write (json_print payload @ nl) l)
      else bufferAdd ev (write (line @ nl) l))"

definition firewallLogPayload :: "AuditEnv \<Rightarrow> string \<Rightarrow> string \<Rightarrow> string \<Rightarrow> string \<Rightarrow> json" where
  "firewallLogPayload env ip target action detail = JObj
     ([(''timestamp'', JStr (aeRFC3339 env)), (''level'', JStr (if action = ''DENY'' then ''WARN'' else ''INFO'')),
       (''component'', JStr ''FIREWALL''), (''action'', JStr action), (''ip'', JStr ip)]
      @ omitempty (resolveContainer env ip = []) (''container'', JStr (resolveContainer env ip))
      @ [(''target'', JStr target), (''detail'', JStr detail)])"

definition firewallLine :: "AuditEnv \<Rightarrow> string \<Rightarrow> string \<Rightarrow> string \<Rightarrow> string \<Rightarrow> string" where
  "firewallLine env ip target action detail =
     (let cStatus = (if action = ''DENY'' then sgr ''31'' ''blocked'' else sgr ''32'' ''passed'');
          extra = (if detail \<noteq> [] then '' due to '' @ detail else [])
      in ''['' @ aeHumanTime env @ ''] ['' @ sgr ''33'' ''firewall'' @ ''] connection from ''
         @ Sanitize (formatIP env ip) @ '' targeting '' @ Sanitize target @ '' was '' @ cStatus @ extra)"

definition FirewallLog :: "AuditEnv \<Rightarrow> string \<Rightarrow> string \<Rightarrow> string \<Rightarrow> string \<Rightarrow> AuditLogger \<Rightarrow> AuditLogger outcome" where
  "FirewallLog env ip target action detail l =
     (let l = (if action = ''DENY'' then l\<lparr>firewallDrops := firewallDrops l + 1\<rparr> else l)
      in emit writeOut (firewallLogPayload env ip target action detail) (firewallLine env ip target action detail)
           \<lparr>Timestamp = aeNow env 0, evType = ''firewall'', ClientIP = Sanitize ip, Details = Sanitize detail,
            Status = (if action = ''DENY'' then ''deny'' else ''allow''), Target = Sanitize target\<rparr> l)"

definition httpLogPayload :: "AuditEnv \<Rightarrow> string \<Rightarrow> string \<Rightarrow> string \<Rightarrow> string \<Rightarrow> int \<Rightarrow> string \<Rightarrow> json" where
  "httpLogPayload env ip meth host path status target = JObj
     ([(''timestamp'', JStr (aeRFC3339 env)), (''level'', JStr (if status \<ge> 400 then ''WARN'' else ''INFO'')),
       (''component'', JStr ''HTTP''), (''ip'', JStr ip)]
      @ omitempty (resolveContainer env ip = []) (''container'', JStr (resolveContainer env ip))
      @ [(''method'', JStr meth), (''host'', JStr host), (''path'', JStr path), (''status'', JInt status),
         (''target'', JStr target)])"

definition routeInfo :: "string \<Rightarrow> string" where
  "routeInfo target =
     (if target \<noteq> [] then
        (let sanTarget = Sanitize target
         in if HasPrefix sanTarget ''Tunneled'' \<or> HasPrefix sanTarget ''Blocked'' then sanTarget
            else ''forwarded to '' @ sanTarget)
      else ''processed natively'')"

definition httpLine :: "AuditEnv \<Rightarrow> string \<Rightarrow> string \<Rightarrow> string \<Rightarrow> string \<Rightarrow> int \<Rightarrow> string \<Rightarrow> string" where
  "httpLine env ip meth host path status target =
     (let cStatus = (if status \<ge> 400 then sgr ''31'' (itoa_int status) else sgr ''32'' (itoa_int status))
      in ''['' @ aeHumanTime env @ ''] ['' @ sgr ''35'' ''http'' @ ''] '' @ Sanitize (formatIP env ip) @ '' | ''
         @ Sanitize meth @ '' '' @ Sanitize host @ Sanitize path @ '' status '' @ cStatus @ '' | '' @ routeInfo target)"

definition httpDetails :: "string \<Rightarrow> string \<Rightarrow> string \<Rightarrow> int \<Rightarrow> string \<Rightarrow> string" where
  "httpDetails meth host path status target =
     (let detailsStr = Sanitize meth @ '' '' @ Sanitize host @ Sanitize path @ '' status '' @ itoa_int status;
          detailsStr = (if meth = ''TLS-SNI''
                        then ''TLS-SNI '' @ Sanitize host @ Sanitize path @ '' status '' @ itoa_int status
                        else detailsStr)
      in if routeInfo target \<noteq> [] then detailsStr @ '' | '' @ routeInfo target else detailsStr)"

definition HTTP :: "AuditEnv \<Rightarrow> string \<Rightarrow> string \<Rightarrow> string \<Rightarrow> string \<Rightarrow> int \<Rightarrow> string \<Rightarrow> AuditLogger \<Rightarrow> AuditLogger outcome" where
  "HTTP env ip meth host path status target l =
     (let l = l\<lparr>httpRequests := httpRequests l + 1\<rparr>;
          l = (if status = 403 \<or> status = 413 \<or> status = 429 then l\<lparr>httpBlocked := httpBlocked l + 1\<rparr> else l)
      in emit writeOut (httpLogPayload env ip meth host path status target) (httpLine env ip meth host path status target)
           \<lparr>Timestamp = aeNow env 0, evType = ''http'', ClientIP = Sanitize ip,
            Details = httpDetails meth host path status target,
            Status = (if status \<ge> 400 then ''deny'' else ''allow''), Target = Sanitize host\<rparr> l)"

definition systemLogPayload :: "AuditEnv \<Rightarrow> string \<Rightarrow> string \<Rightarrow> json" where
  "systemLogPayload env level msg = JObj
     [(''timestamp'', JStr (aeRFC3339 env)), (''level'', JStr level), (''component'', JStr ''SYSTEM''),
      (''message'', JStr msg)]"

definition System :: "AuditEnv \<Rightarrow> string \<Rightarrow> AuditLogger \<Rightarrow> AuditLogger outcome" where
  "System env msg l =
     (let l = l\<lparr>systemEvents := systemEvents l + 1\<rparr>
      in emit writeOut (systemLogPayload env ''INFO'' msg)
           (''['' @ aeHumanTime env @ ''] ['' @ sgr ''1;37'' ''system'' @ ''] '' @ Sanitize msg)
           \<lparr>Timestamp = aeNow env 0, evType = ''system'', ClientIP = ''localhost'', Details = Sanitize msg,
            Status = ''info'', Target = ''system''\<rparr> l)"

definition Error :: "AuditEnv \<Rightarrow> string \<Rightarrow> AuditLogger \<Rightarrow> AuditLogger outcome" where
  "Error env msg l =
     (let l = l\<lparr>errorCount := errorCount l + 1\<rparr>
      in emit writeErr (systemLogPayload env ''ERROR'' msg)
           (''['' @ aeHumanTime env @ ''] ['' @ sgr ''1;31'' ''error'' @ ''] '' @ Sanitize msg)
           \<lparr>Timestamp = aeNow env 0, evType = ''error'', ClientIP = ''localhost'', Details = Sanitize msg,
            Status = ''error'', Target = ''error''\<rparr> l)"

definition commandLogPayload :: "AuditEnv \<Rightarrow> string \<Rightarrow> string \<Rightarrow> string \<Rightarrow> json" where
  "commandLogPayload env component ip cmd = JObj
     ([(''timestamp'', JStr (aeRFC3339 env)), (''level'', JStr ''INFO''), (''component'', JStr component), (''ip'', JStr ip)]
      @ omitempty (resolveContainer env ip = []) (''container'', JStr (resolveContainer env ip))
      @ [(''command'', JStr cmd)])"

definition Command :: "AuditEnv \<Rightarrow> string \<Rightarrow> string \<Rightarrow> AuditLogger \<Rightarrow> AuditLogger outcome" where
  "Command env ip cmd l =
     (let l = l\<lparr>systemEvents := systemEvents l + 1\<rparr>
      in emit writeOut (commandLogPayload env ''EXEC'' ip cmd)
           (''['' @ aeHumanTime env @ ''] ['' @ sgr ''34'' ''execve'' @ ''] '' @ Sanitize (formatIP env ip)
            @ '' executed: '' @ Sanitize cmd)
           \<lparr>Timestamp = aeNow env 0, evType = ''command'', ClientIP = Sanitize ip, Details = Sanitize cmd,
            Status = ''info'', Target = ''execve''\<rparr> l)"

definition ContainerOutput :: "AuditEnv \<Rightarrow> string \<Rightarrow> string \<Rightarrow> AuditLogger \<Rightarrow> AuditLogger outcome" where
  "ContainerOutput env ip log l =
     (let l = l\<lparr>systemEvents := systemEvents l + 1\<rparr>
      in emit writeOut (commandLogPayload env ''STDOUT'' ip log)
           (''['' @ aeHumanTime env @ ''] ['' @ sgr ''36'' ''stdout'' @ ''] '' @ Sanitize (formatIP env ip) @ '' | '' @ Sanitize log)
           \<lparr>Timestamp = aeNow env 0, evType = ''command'', ClientIP = Sanitize ip, Details = Sanitize log,
            Status = ''info'', Target = ''output''\<rparr> l)"

text \<open>A call of the logger, as the components that log return it.\<close>

datatype audit_call =
    LogDNS string "(string \<times> string) list" int bool "string list" bool
  | LogFirewall string string string string
  | LogHTTP string string string string int string
  | LogSystem string
  | LogError string
  | LogCommand string string
  | LogContainerOutput string string

fun audit :: "golib \<Rightarrow> AuditEnv \<Rightarrow> audit_call \<Rightarrow> AuditLogger \<Rightarrow> AuditLogger outcome" where
  "audit L env (LogDNS ip qs rcode cached ips isLocal) l = DNS L env ip qs rcode cached ips isLocal l"
| "audit L env (LogFirewall ip target action detail) l = FirewallLog env ip target action detail l"
| "audit L env (LogHTTP ip meth host path status target) l = HTTP env ip meth host path status target l"
| "audit L env (LogSystem msg) l = System env msg l"
| "audit L env (LogError msg) l = Error env msg l"
| "audit L env (LogCommand ip cmd) l = Command env ip cmd l"
| "audit L env (LogContainerOutput ip log) l = ContainerOutput env ip log l"

fun audit_all :: "golib \<Rightarrow> AuditEnv \<Rightarrow> audit_call list \<Rightarrow> AuditLogger \<Rightarrow> AuditLogger outcome" where
  "audit_all L env [] l = Ret l"
| "audit_all L env (c # cs) l = (case audit L env c l of Panic \<Rightarrow> Panic | Ret l \<Rightarrow> audit_all L env cs l)"

section \<open>Sanitizing\<close>

definition plain :: "string \<Rightarrow> bool" where
  "plain s = list_all (\<lambda>c. 32 \<le> code c \<and> code c \<le> 126) s"

lemma plain_simps [simp]:
  "plain []" "plain (c # s) \<longleftrightarrow> 32 \<le> code c \<and> code c \<le> 126 \<and> plain s"
  "plain (s @ t) \<longleftrightarrow> plain s \<and> plain t"
  by (auto simp: plain_def)

lemma is_hex_digit_plain: "is_hex_digit c \<Longrightarrow> 32 \<le> code c \<and> code c \<le> 126"
  by (auto simp: is_hex_digit_def)

lemma plain_hex: "(\<And>c. c \<in> set s \<Longrightarrow> is_hex_digit c) \<Longrightarrow> plain s"
  by (simp add: plain_def list_all_iff is_hex_digit_plain)

lemma plain_hex02: "plain (hex02 n)"
  unfolding hex02_def using plain_hex [OF digits_base_16_hex] by auto

lemma plain_sanitizeRune: "plain (sanitizeRune r)"
  by (auto simp: sanitizeRune_def plain_hex02)

lemma plain_Sanitize: "plain (Sanitize s)"
proof -
  have "plain (concat (map sanitizeRune rs))" for rs by (induction rs) (auto simp: plain_sanitizeRune)
  then show ?thesis by (simp add: Sanitize_def)
qed

lemma Sanitize_plain: "plain s \<Longrightarrow> Sanitize s = s"
proof -
  assume s: "plain s"
  then have "isASCII s" by (auto simp: plain_def isASCII_def list_all_iff)
  then have "Sanitize s = concat (map (\<lambda>c. sanitizeRune (code c)) s)"
    by (simp add: Sanitize_def runes_ascii comp_def)
  also have "\<dots> = s" using s by (induction s) (auto simp: sanitizeRune_def)
  finally show ?thesis .
qed

text \<open>
  Whatever bytes a logged field has, sanitizing it leaves only printable ASCII characters (no line
  break, no escape sequence), changes nothing that already is printable ASCII, and is idempotent.
\<close>

theorem Sanitize_printable:
  "list_all (\<lambda>c. 32 \<le> code c \<and> code c \<le> 126) (Sanitize s)
   \<and> Sanitize (Sanitize s) = Sanitize s
   \<and> (list_all (\<lambda>c. 32 \<le> code c \<and> code c \<le> 126) s \<longrightarrow> Sanitize s = s)"
  using plain_Sanitize [of s] Sanitize_plain [of s] Sanitize_plain [of "Sanitize s"] by (simp add: plain_def)

theorem Sanitize_printable_witness:
  "Sanitize ''GET /index'' = ''GET /index'' \<and> Sanitize [CHR ''a'', CHR 0x0A, CHR 0x1B] = ''a '' @ CHR 0x5C # ''x1b''"
proof -
  have "list_all (\<lambda>c. 32 \<le> code c \<and> code c \<le> 126) ''GET /index''"
    "Sanitize [CHR ''a'', CHR 0x0A, CHR 0x1B] = ''a '' @ CHR 0x5C # ''x1b''" by code_simp+
  with Sanitize_printable [of "''GET /index''"] show ?thesis by simp
qed

section \<open>The buffer holds the latest events\<close>

definition last_n :: "nat \<Rightarrow> 'a list \<Rightarrow> 'a list" where
  "last_n n xs = drop (length xs - n) xs"

fun addAll :: "LogEvent list \<Rightarrow> LogBuffer \<Rightarrow> LogBuffer outcome" where
  "addAll [] b = Ret b"
| "addAll (e # es) b = (case Add e b of Panic \<Rightarrow> Panic | Ret b \<Rightarrow> addAll es b)"

lemma Add_last_n:
  assumes "0 < n"
  shows "Add e \<lparr>events = last_n n xs, maxEvents = n\<rparr> = Ret \<lparr>events = last_n n (xs @ [e]), maxEvents = n\<rparr>"
proof (cases "n \<le> length xs")
  case True
  then have "drop (length xs - n) xs = xs ! (length xs - n) # drop (length xs - n + 1) xs"
    using assms by (simp add: Cons_nth_drop_Suc)
  with True assms show ?thesis by (simp add: Add_def last_n_def Suc_diff_le)
qed (simp add: Add_def last_n_def)

lemma addAll_last_n:
  "0 < n \<Longrightarrow> addAll es \<lparr>events = last_n n xs, maxEvents = n\<rparr> = Ret \<lparr>events = last_n n (xs @ es), maxEvents = n\<rparr>"
  by (induction es arbitrary: xs) (simp_all add: Add_last_n)

lemma GetEvents_rev: "GetEvents b = rev (events b)"
  by (rule nth_equalityI) (simp_all add: GetEvents_def rev_nth)

lemma rev_last_n: "rev (last_n n xs) = take n (rev xs)"
  by (cases "n \<le> length xs") (simp_all add: last_n_def rev_drop)

text \<open>
  The event buffer never panics and holds exactly the latest 1000 events: after any sequence of
  additions, the events it returns are the newest 1000 of them, newest first.
\<close>

theorem buffer_latest:
  "\<exists>b. addAll es newGlobalBuffer = Ret b \<and> GetEvents b = take 1000 (rev es)"
  using addAll_last_n [of 1000 es "[]"] rev_last_n [of 1000 es]
  by (simp add: newGlobalBuffer_def last_n_def GetEvents_rev)

section \<open>Counters\<close>

definition logger_ok :: "AuditLogger \<Rightarrow> bool" where
  "logger_ok l \<longleftrightarrow> 0 < maxEvents (GlobalBuffer l) \<and> length (events (GlobalBuffer l)) \<le> maxEvents (GlobalBuffer l)"

text \<open>The part of the state the counters live in is not touched by writing and buffering.\<close>

definition counters :: "AuditLogger \<Rightarrow> u64 list" where
  "counters l = [dnsQueries l, dnsBlocked l, httpRequests l, httpBlocked l, firewallDrops l, systemEvents l, errorCount l]"

lemma bufferAdd_ok:
  "logger_ok l \<Longrightarrow> \<exists>l'. bufferAdd e l = Ret l' \<and> logger_ok l' \<and> counters l' = counters l
     \<and> useJson l' = useJson l \<and> isTestEnv l' = isTestEnv l \<and> logOutput l' = logOutput l \<and> errOutput l' = errOutput l"
  by (auto simp: logger_ok_def bufferAdd_def Add_def counters_def split: list.splits)

lemma write_ok [simp]:
  "logger_ok (writeOut s l) = logger_ok l" "counters (writeOut s l) = counters l"
  "logger_ok (writeErr s l) = logger_ok l" "counters (writeErr s l) = counters l"
  "useJson (writeOut s l) = useJson l" "isTestEnv (writeOut s l) = isTestEnv l"
  "useJson (writeErr s l) = useJson l" "isTestEnv (writeErr s l) = isTestEnv l"
  "logOutput (writeOut s l) = logOutput l @ [s]" "errOutput (writeOut s l) = errOutput l"
  "logOutput (writeErr s l) = logOutput l" "errOutput (writeErr s l) = errOutput l @ [s]"
  by (simp_all add: writeOut_def writeErr_def logger_ok_def counters_def)

lemma emit_ok:
  assumes "logger_ok l" "w = writeOut \<or> w = writeErr"
  shows "\<exists>l'. emit w p s e l = Ret l' \<and> logger_ok l' \<and> counters l' = counters l"
  using assms bufferAdd_ok [of "w (s @ nl) l" e] by (auto simp: emit_def)

lemma emit_counts:
  assumes "logger_ok l" "counters l = cs"
  shows "\<exists>l'. emit writeOut p s e l = Ret l' \<and> logger_ok l' \<and> counters l' = cs"
    "\<exists>l'. emit writeErr p s e l = Ret l' \<and> logger_ok l' \<and> counters l' = cs"
  using emit_ok [OF assms(1)] assms(2) by auto

lemma dnsLoop_ok:
  "logger_ok l \<Longrightarrow> \<exists>l'. dnsLoop L env i t ip qs rcode cached ips l = Ret l' \<and> logger_ok l' \<and> counters l' = counters l"
proof (induction qs arbitrary: i l)
  case (Cons q qs)
  obtain l' where "bufferAdd (dnsEvent L env i t ip q rcode cached ips) (writeOut (dnsLine L env t ip q rcode cached ips) l) = Ret l'"
    "logger_ok l'" "counters l' = counters l"
    using bufferAdd_ok [of "writeOut (dnsLine L env t ip q rcode cached ips) l"] Cons.prems by force
  then show ?case using Cons.IH [of l' "i + 1"] by simp
qed simp

text \<open>What a call adds to each counter.\<close>

fun call_counts :: "audit_call \<Rightarrow> nat list" where
  "call_counts (LogDNS ip qs rcode cached ips isLocal) =
     [length qs, if rcode = 5 \<or> rcode = 3 then length qs else 0, 0, 0, 0, 0, 0]"
| "call_counts (LogFirewall ip target action detail) = [0, 0, 0, 0, if action = ''DENY'' then 1 else 0, 0, 0]"
| "call_counts (LogHTTP ip meth host path status target) =
     [0, 0, 1, if status \<in> {403, 413, 429} then 1 else 0, 0, 0, 0]"
| "call_counts (LogSystem msg) = [0, 0, 0, 0, 0, 1, 0]"
| "call_counts (LogError msg) = [0, 0, 0, 0, 0, 0, 1]"
| "call_counts (LogCommand ip cmd) = [0, 0, 0, 0, 0, 1, 0]"
| "call_counts (LogContainerOutput ip log) = [0, 0, 0, 0, 0, 1, 0]"

definition add_counts :: "u64 list \<Rightarrow> nat list \<Rightarrow> u64 list" where
  "add_counts cs ns = map2 (\<lambda>c n. c + of_nat n) cs ns"

lemma audit_ok:
  assumes "logger_ok l"
  shows "\<exists>l'. audit L env c l = Ret l' \<and> logger_ok l' \<and> counters l' = add_counts (counters l) (call_counts c)"
proof (cases c)
  case (LogDNS ip qs rcode cached ips isLocal)
  let ?k = "l\<lparr>dnsQueries := dnsQueries l + of_nat (length qs)\<rparr>"
  let ?l = "if rcode = 5 \<or> rcode = 3 then ?k\<lparr>dnsBlocked := dnsBlocked ?k + of_nat (length qs)\<rparr> else ?k"
  have l: "logger_ok ?l" "counters ?l = add_counts (counters l) (call_counts c)"
    using assms by (auto simp: logger_ok_def counters_def add_counts_def LogDNS)
  show ?thesis
    unfolding LogDNS audit.simps DNS_def Let_def
    using dnsLoop_ok [OF l(1)] l [unfolded LogDNS]
    by (cases "isTestEnv ?l"; cases "useJson ?l") simp_all
next
  case (LogFirewall ip target action detail)
  let ?l = "if action = ''DENY'' then l\<lparr>firewallDrops := firewallDrops l + 1\<rparr> else l"
  have "logger_ok ?l" "counters ?l = add_counts (counters l) (call_counts c)"
    using assms by (auto simp: logger_ok_def counters_def add_counts_def LogFirewall)
  then show ?thesis unfolding LogFirewall audit.simps FirewallLog_def Let_def by (rule emit_counts)
next
  case (LogHTTP ip meth host path status target)
  let ?k = "l\<lparr>httpRequests := httpRequests l + 1\<rparr>"
  let ?l = "if status = 403 \<or> status = 413 \<or> status = 429 then ?k\<lparr>httpBlocked := httpBlocked ?k + 1\<rparr> else ?k"
  have "logger_ok ?l" "counters ?l = add_counts (counters l) (call_counts c)"
    using assms by (auto simp: logger_ok_def counters_def add_counts_def LogHTTP)
  then show ?thesis unfolding LogHTTP audit.simps HTTP_def Let_def by (rule emit_counts)
next
  case (LogError msg)
  have "logger_ok (l\<lparr>errorCount := errorCount l + 1\<rparr>)"
    "counters (l\<lparr>errorCount := errorCount l + 1\<rparr>) = add_counts (counters l) (call_counts c)"
    using assms by (auto simp: logger_ok_def counters_def add_counts_def LogError)
  then show ?thesis unfolding LogError audit.simps Error_def Let_def by (rule emit_counts)
next
  case (LogSystem msg)
  have "logger_ok (l\<lparr>systemEvents := systemEvents l + 1\<rparr>)"
    "counters (l\<lparr>systemEvents := systemEvents l + 1\<rparr>) = add_counts (counters l) (call_counts c)"
    using assms by (auto simp: logger_ok_def counters_def add_counts_def LogSystem)
  then show ?thesis unfolding LogSystem audit.simps System_def Let_def by (rule emit_counts)
next
  case (LogCommand ip cmd)
  have "logger_ok (l\<lparr>systemEvents := systemEvents l + 1\<rparr>)"
    "counters (l\<lparr>systemEvents := systemEvents l + 1\<rparr>) = add_counts (counters l) (call_counts c)"
    using assms by (auto simp: logger_ok_def counters_def add_counts_def LogCommand)
  then show ?thesis unfolding LogCommand audit.simps Command_def Let_def by (rule emit_counts)
next
  case (LogContainerOutput ip log)
  have "logger_ok (l\<lparr>systemEvents := systemEvents l + 1\<rparr>)"
    "counters (l\<lparr>systemEvents := systemEvents l + 1\<rparr>) = add_counts (counters l) (call_counts c)"
    using assms by (auto simp: logger_ok_def counters_def add_counts_def LogContainerOutput)
  then show ?thesis unfolding LogContainerOutput audit.simps ContainerOutput_def Let_def by (rule emit_counts)
qed

lemma newLogger_ok: "logger_ok (newLogger t)" "counters (newLogger t) = replicate 7 0"
  by (simp_all add: newLogger_def logger_ok_def newGlobalBuffer_def counters_def numeral_eq_Suc)

definition total_counts :: "audit_call list \<Rightarrow> nat list" where
  "total_counts cs = fold (\<lambda>c t. map2 (+) t (call_counts c)) cs (replicate 7 0)"

lemma length_call_counts: "length (call_counts c) = 7"
  by (cases c) auto

lemma add_counts_add:
  "length a = length b \<Longrightarrow> length b = length n \<Longrightarrow> add_counts a (map2 (+) b n) = add_counts (add_counts a b) n"
  by (induction a b n rule: list_induct3) (auto simp: add_counts_def)

lemma audit_all_counts:
  assumes "logger_ok l" "counters l = add_counts (replicate 7 0) t" "length t = 7"
  shows "\<exists>l'. audit_all L env cs l = Ret l' \<and> logger_ok l'
    \<and> counters l' = add_counts (replicate 7 0) (fold (\<lambda>c t. map2 (+) t (call_counts c)) cs t)"
  using assms
proof (induction cs arbitrary: l t)
  case (Cons c cs)
  obtain l' where l': "audit L env c l = Ret l'" "logger_ok l'" "counters l' = add_counts (counters l) (call_counts c)"
    using audit_ok [OF Cons.prems(1)] by blast
  have "counters l' = add_counts (replicate 7 0) (map2 (+) t (call_counts c))"
    using l'(3) Cons.prems(2,3) by (simp add: add_counts_add length_call_counts)
  then show ?case
    using Cons.IH [OF l'(2), of "map2 (+) t (call_counts c)"] l'(1) Cons.prems(3) by (simp add: length_call_counts)
qed simp

text \<open>
  No sequence of logger calls panics, and the seven counters are exactly what the calls add up to,
  modulo 64 bits: the questions, the questions answered NXDOMAIN or REFUSED, the requests, the
  requests answered 403, 413 or 429, the denied connections, the system records and the errors.  They
  count in test runs and in both output modes alike.
\<close>

theorem audit_counters:
  "\<exists>l. audit_all L env cs (newLogger t) = Ret l
     \<and> [dnsQueries l, dnsBlocked l, httpRequests l, httpBlocked l, firewallDrops l, systemEvents l, errorCount l]
         = map of_nat (total_counts cs)"
proof -
  have "add_counts (replicate 7 0) (replicate 7 0) = replicate 7 0" by (simp add: add_counts_def numeral_eq_Suc)
  then obtain l where l: "audit_all L env cs (newLogger t) = Ret l" "counters l = add_counts (replicate 7 0) (total_counts cs)"
    using audit_all_counts [OF newLogger_ok(1), of t "replicate 7 0" L env cs] newLogger_ok(2) [of t]
    by (auto simp: total_counts_def)
  have "length (total_counts cs) = 7"
  proof -
    have "length t = 7 \<Longrightarrow> length (fold (\<lambda>c t. map2 (+) t (call_counts c)) cs t) = 7" for t
      by (induction cs arbitrary: t) (auto simp: length_call_counts)
    then show ?thesis by (simp add: total_counts_def)
  qed
  moreover have "add_counts (replicate (length ns) 0) ns = map of_nat ns" for ns
    by (induction ns) (auto simp: add_counts_def)
  ultimately have "add_counts (replicate 7 0) (total_counts cs) = map of_nat (total_counts cs)" by metis
  with l show ?thesis by (auto simp: counters_def)
qed

section \<open>One record per line\<close>

definition one_line :: "string \<Rightarrow> bool" where
  "one_line s \<longleftrightarrow> (\<exists>t. s = t @ nl \<and> CHR 0x0A \<notin> set t)"

definition no_nl :: "string \<Rightarrow> bool" where
  "no_nl s = list_all (\<lambda>c. c \<noteq> CHR 0x0A) s"

lemma no_nl_simps [simp]:
  "no_nl []" "no_nl (c # s) \<longleftrightarrow> c \<noteq> CHR 0x0A \<and> no_nl s" "no_nl (s @ t) \<longleftrightarrow> no_nl s \<and> no_nl t"
  by (simp_all add: no_nl_def)

lemma one_line_nl: "no_nl s \<Longrightarrow> one_line (s @ nl)"
  by (auto simp: one_line_def no_nl_def list_all_iff)

lemma printable_no_nl: "printable s \<Longrightarrow> no_nl s"
  by (auto simp: printable_def no_nl_def list_all_iff)

lemma no_nl_Sanitize [simp]: "no_nl (Sanitize s)"
  using plain_Sanitize [of s] by (intro printable_no_nl) (auto simp: plain_def printable_def list_all_iff)

lemma no_nl_itoa_int [simp]: "no_nl (itoa_int i)"
  by (rule printable_no_nl [OF printable_itoa_int])

lemma no_nl_json [simp]: "no_nl (json_print v)"
  by (rule printable_no_nl [OF printable_json])

lemma no_nl_sgr [simp]: "no_nl c \<Longrightarrow> no_nl t \<Longrightarrow> no_nl (sgr c t)"
  by (simp add: sgr_def)

lemma no_nl_routeInfo [simp]: "no_nl (routeInfo t)"
  by (simp add: routeInfo_def Let_def)

lemma no_nl_codeMap [simp]: "no_nl (codeMap r)"
  by (simp add: codeMap_def)

lemma no_nl_Join: "no_nl sep \<Longrightarrow> (\<And>x. x \<in> set xs \<Longrightarrow> no_nl x) \<Longrightarrow> no_nl (Join sep xs)"
  by (induction sep xs rule: Join.induct) auto

text \<open>The fields that are not sanitized: the clock, the record types and addresses of a DNS record, and
  the detail of a firewall record.\<close>

fun trusted_fields :: "golib \<Rightarrow> audit_call \<Rightarrow> bool" where
  "trusted_fields L (LogDNS ip qs rcode cached ips isLocal) \<longleftrightarrow>
     list_all (\<lambda>(n, t). no_nl (ToUpper L t)) qs \<and> list_all no_nl ips"
| "trusted_fields L (LogFirewall ip target action detail) \<longleftrightarrow> no_nl detail"
| "trusted_fields L _ \<longleftrightarrow> True"

definition wrote_lines :: "AuditLogger \<Rightarrow> AuditLogger \<Rightarrow> bool" where
  "wrote_lines l l' \<longleftrightarrow> (\<exists>ws es. logOutput l' = logOutput l @ ws \<and> errOutput l' = errOutput l @ es
     \<and> list_all one_line (ws @ es))"

lemma wrote_lines_refl [simp]: "wrote_lines l l"
  by (auto simp: wrote_lines_def)

lemma wrote_lines_trans: "wrote_lines a b \<Longrightarrow> wrote_lines b c \<Longrightarrow> wrote_lines a c"
  by (fastforce simp: wrote_lines_def)

lemma bufferAdd_out: "bufferAdd e l = Ret l' \<Longrightarrow> logOutput l' = logOutput l \<and> errOutput l' = errOutput l"
  by (auto simp: bufferAdd_def split: outcome.splits)

lemma emit_lines:
  assumes "emit w p s e l = Ret l'" "w = writeOut \<or> w = writeErr" "no_nl s"
  shows "wrote_lines l l'"
proof -
  have "one_line (s @ nl)" "one_line (json_print p @ nl)" using assms(3) by (simp_all add: one_line_nl)
  then show ?thesis
    using assms(1,2) by (auto simp: emit_def wrote_lines_def split: if_splits dest!: bufferAdd_out)
qed

lemma dnsLine_line:
  "no_nl (aeHumanTime env) \<Longrightarrow> no_nl (ToUpper L (snd q)) \<Longrightarrow> list_all no_nl ips \<Longrightarrow> one_line (dnsLine L env t ip q rcode cached ips)"
proof -
  assume *: "no_nl (aeHumanTime env)" "no_nl (ToUpper L (snd q))" "list_all no_nl ips"
  have "no_nl (resolvedSuffix ips)" using *(3) by (auto simp: resolvedSuffix_def list_all_iff intro!: no_nl_Join)
  with * show ?thesis
    unfolding dnsLine_def Let_def append_assoc [symmetric] by (intro one_line_nl) (simp add: dnsPrefix_def)
qed

lemma dnsLoop_lines:
  "dnsLoop L env i t ip qs rcode cached ips l = Ret l' \<Longrightarrow> no_nl (aeHumanTime env) \<Longrightarrow>
     list_all (\<lambda>(n, t). no_nl (ToUpper L t)) qs \<Longrightarrow> list_all no_nl ips \<Longrightarrow> wrote_lines l l'"
proof (induction qs arbitrary: i l)
  case (Cons q qs)
  obtain k where k: "bufferAdd (dnsEvent L env i t ip q rcode cached ips) (writeOut (dnsLine L env t ip q rcode cached ips) l) = Ret k"
    "dnsLoop L env (i + 1) t ip qs rcode cached ips k = Ret l'"
    using Cons.prems(1) by (auto split: outcome.splits)
  have "one_line (dnsLine L env t ip q rcode cached ips)"
    using Cons.prems by (intro dnsLine_line) (auto simp: split_def)
  then have "wrote_lines l k" using bufferAdd_out [OF k(1)] by (auto simp: wrote_lines_def)
  moreover have "wrote_lines k l'" using Cons.IH [OF k(2)] Cons.prems by simp
  ultimately show ?case by (rule wrote_lines_trans)
qed simp

lemma wrote_lines_counters:
  "logOutput k = logOutput l \<Longrightarrow> errOutput k = errOutput l \<Longrightarrow> wrote_lines k l' \<Longrightarrow> wrote_lines l l'"
  by (simp add: wrote_lines_def)

lemma emit_lines_from:
  "emit w p s e k = Ret l' \<Longrightarrow> w = writeOut \<or> w = writeErr \<Longrightarrow> no_nl s \<Longrightarrow>
     logOutput k = logOutput l \<Longrightarrow> errOutput k = errOutput l \<Longrightarrow> wrote_lines l l'"
  by (blast intro: wrote_lines_counters emit_lines)

lemma json_line: "wrote_lines k (writeOut (json_print p @ nl) k)"
  by (auto simp: wrote_lines_def intro!: one_line_nl)

lemma DNS_lines:
  assumes "DNS L env ip qs rcode cached ips isLocal l = Ret l'" "no_nl (aeHumanTime env)"
    and "list_all (\<lambda>(n, t). no_nl (ToUpper L t)) qs" "list_all no_nl ips"
  shows "wrote_lines l l'"
proof -
  let ?k = "l\<lparr>dnsQueries := dnsQueries l + of_nat (length qs)\<rparr>"
  define m where "m = (if rcode = 5 \<or> rcode = 3 then ?k\<lparr>dnsBlocked := dnsBlocked ?k + of_nat (length qs)\<rparr> else ?k)"
  define t where "t = (if isLocal then ''localdns'' else ''dns'')"
  have "wrote_lines m l'"
    using assms(1) json_line [of m] dnsLoop_lines [OF _ assms(2-4)]
    unfolding DNS_def Let_def m_def [symmetric] t_def [symmetric] by (auto split: if_splits)
  then show ?thesis by (rule wrote_lines_counters [rotated 2]) (simp_all add: m_def)
qed


definition example_env :: AuditEnv where
  "example_env = \<lparr>aeHumanTime = ''2024-01-01 00:00:00'', aeRFC3339 = ''2024-01-01T00:00:00Z'', aeNow = (\<lambda>_. 0), ResolveIP = None\<rparr>"


end
