(* ===== verification/Circuit.thy ===== *)
theory Circuit
  imports AuditLog
begin

text \<open>
  The circuit breaker of \<^verbatim>\<open>src/pkg/proxy/circuit.go\<close>.  \<^verbatim>\<open>Execute\<close> holds the mutex before and after
  the action but not while it runs, so the model has the two critical sections as two operations,
  \<open>executeBegin\<close> and \<open>executeEnd\<close>, \<open>Execute\<close> composes them around an action, and the step relation
  interleaves the critical sections of any number of concurrent requests.

  The lemmas show the invariant of the state machine, that an open breaker rejects every request until
  the timeout is over, that at most one trial runs while it is half open, and how it closes again.
\<close>

section \<open>The breaker\<close>

datatype CircuitState = StateClosed | StateOpen | StateHalfOpen

record ProxyCircuitBreaker =
  cbState :: CircuitState
  failures :: int
  lastFailureTime :: int
  threshold :: int
  resetTimeout :: int
  targetHost :: string
  trialInFlight :: bool

definition NewProxyCircuitBreaker :: "string \<Rightarrow> ProxyCircuitBreaker" where
  "NewProxyCircuitBreaker host =
     \<lparr>cbState = StateClosed, failures = 0, lastFailureTime = 0, threshold = 5,
      resetTimeout = 10 * 1000000000, targetHost = host, trialInFlight = False\<rparr>"

text \<open>The first critical section: an error (the request is rejected) or none, the new state and the
  audit calls.\<close>

definition executeBegin :: "int \<Rightarrow> ProxyCircuitBreaker \<Rightarrow> string option \<times> ProxyCircuitBreaker \<times> audit_call list" where
  "executeBegin now cb =
     (case cbState cb of
        StateOpen \<Rightarrow>
          if now - lastFailureTime cb > resetTimeout cb then
            (None, cb\<lparr>cbState := StateHalfOpen, trialInFlight := True\<rparr>,
             [LogSystem (targetHost cb @ '' Circuit Breaker transitioned to HALF_OPEN (Trial State Init)'')])
          else (Some ''Target Offline (Circuit Breaker OPEN)'', cb, [])
      | StateHalfOpen \<Rightarrow>
          if trialInFlight cb then
            (Some ''Target Offline (Circuit Breaker HALF_OPEN Trial In-Flight)'', cb, [])
          else (None, cb\<lparr>trialInFlight := True\<rparr>, [])
      | StateClosed \<Rightarrow> (None, cb, []))"

text \<open>The second critical section, with the error of the action.\<close>

definition executeEnd :: "string option \<Rightarrow> int \<Rightarrow> ProxyCircuitBreaker \<Rightarrow> string option \<times> ProxyCircuitBreaker \<times> audit_call list" where
  "executeEnd err now cb =
     (case err of
        Some e \<Rightarrow>
          let cb = cb\<lparr>failures := failures cb + 1, lastFailureTime := now, trialInFlight := False\<rparr>
          in if cbState cb = StateHalfOpen \<or> failures cb \<ge> threshold cb then
               (Some e, cb\<lparr>cbState := StateOpen\<rparr>,
                [LogSystem (targetHost cb @ '' Circuit Breaker transitioned to OPEN'')])
             else (Some e, cb, [])
      | None \<Rightarrow>
          if cbState cb = StateHalfOpen then
            (None, cb\<lparr>cbState := StateClosed, failures := 0, trialInFlight := False\<rparr>,
             [LogSystem (targetHost cb @ '' Circuit Breaker transitioned to CLOSED'')])
          else (None, cb, []))"

text \<open>One request on its own: \<open>action\<close> is the error the action returns.\<close>

definition Execute :: "string option \<Rightarrow> int \<Rightarrow> int \<Rightarrow> ProxyCircuitBreaker
    \<Rightarrow> string option \<times> ProxyCircuitBreaker \<times> audit_call list" where
  "Execute action now1 now2 cb =
     (case executeBegin now1 cb of
        (Some err, cb, calls) \<Rightarrow> (Some err, cb, calls)
      | (None, cb, calls) \<Rightarrow>
          (case executeEnd action now2 cb of (err, cb, calls') \<Rightarrow> (err, cb, calls @ calls')))"

section \<open>Concurrent requests\<close>

text \<open>The state of the breaker together with the number of actions that are running.\<close>

datatype cb_event = Admit int | Reject int | Finish_ok int | Finish_err string int

inductive cb_step :: "cb_event \<Rightarrow> ProxyCircuitBreaker \<times> nat \<Rightarrow> ProxyCircuitBreaker \<times> nat \<Rightarrow> bool" where
  cb_admit: "executeBegin now cb = (None, cb', calls) \<Longrightarrow> cb_step (Admit now) (cb, n) (cb', n + 1)"
| cb_reject: "executeBegin now cb = (Some e, cb', calls) \<Longrightarrow> cb_step (Reject now) (cb, n) (cb', n)"
| cb_ok: "executeEnd None now cb = (r, cb', calls) \<Longrightarrow> cb_step (Finish_ok now) (cb, n + 1) (cb', n)"
| cb_err: "executeEnd (Some e) now cb = (r, cb', calls) \<Longrightarrow> cb_step (Finish_err e now) (cb, n + 1) (cb', n)"

inductive_cases cb_stepE: "cb_step e s t"

definition cb_inv :: "ProxyCircuitBreaker \<times> nat \<Rightarrow> bool" where
  "cb_inv s \<longleftrightarrow>
     (trialInFlight (fst s) \<longleftrightarrow> cbState (fst s) = StateHalfOpen)
   \<and> (cbState (fst s) = StateClosed \<longrightarrow> 0 \<le> failures (fst s) \<and> failures (fst s) < threshold (fst s))
   \<and> (cbState (fst s) \<noteq> StateClosed \<longrightarrow> threshold (fst s) \<le> failures (fst s))
   \<and> threshold (fst s) = 5 \<and> resetTimeout (fst s) = 10 * 1000000000"

lemma cb_inv_step: "cb_inv s \<Longrightarrow> cb_step e s t \<Longrightarrow> cb_inv t"
  by (erule cb_stepE)
    (auto simp: cb_inv_def executeBegin_def executeEnd_def Let_def split: CircuitState.splits if_splits)

interpretation breaker: invariant_of "\<lambda>s. \<exists>h. s = (NewProxyCircuitBreaker h, 0)" "\<lambda>s t. \<exists>e. cb_step e s t" cb_inv
proof
  fix s t
  assume "cb_inv s" "\<exists>e. cb_step e s t"
  then show "cb_inv t" by (blast intro: cb_inv_step)
qed (auto simp: cb_inv_def NewProxyCircuitBreaker_def)

text \<open>The runs the witnesses use: five failing requests one after the other open a new breaker.\<close>

fun failing :: "nat \<Rightarrow> ProxyCircuitBreaker \<Rightarrow> ProxyCircuitBreaker" where
  "failing 0 cb = cb"
| "failing (Suc k) cb = failing k (fst (snd (executeEnd (Some ''refused'') 1000 (fst (snd (executeBegin 0 cb))))))"

lemma failing_reachable:
  assumes "reachable (\<lambda>s. \<exists>h. s = (NewProxyCircuitBreaker h, 0)) (\<lambda>s t. \<exists>e. cb_step e s t) (cb, 0)"
    and "cbState cb = StateClosed" "threshold cb = 5" "failures cb + int k = 5"
  shows "reachable (\<lambda>s. \<exists>h. s = (NewProxyCircuitBreaker h, 0)) (\<lambda>s t. \<exists>e. cb_step e s t) (failing k cb, 0)"
  using assms
proof (induction k arbitrary: cb)
  case (Suc k)
  let ?t = "fst (snd (executeEnd (Some ''refused'') 1000 cb))"
  have "cb_step (Admit 0) (cb, 0) (cb, 0 + 1)"
    using Suc.prems(2) by (intro cb_admit [where calls = "[]"]) (simp add: executeBegin_def)
  moreover have "cb_step (Finish_err ''refused'' 1000) (cb, 0 + 1) (?t, 0)"
    by (rule cb_err [where r = "fst (executeEnd (Some ''refused'') 1000 cb)"
          and calls = "snd (snd (executeEnd (Some ''refused'') 1000 cb))"]) simp
  ultimately have r: "reachable (\<lambda>s. \<exists>h. s = (NewProxyCircuitBreaker h, 0)) (\<lambda>s t. \<exists>e. cb_step e s t) (?t, 0)"
    using Suc.prems(1) by (blast intro: reach_step)
  have "failing (Suc k) cb = failing k ?t" using Suc.prems(2) by (simp add: executeBegin_def)
  moreover have "k = 0 \<or> cbState ?t = StateClosed \<and> threshold ?t = 5 \<and> failures ?t + int k = 5"
    using Suc.prems by (auto simp: executeEnd_def Let_def)
  ultimately show ?case using Suc.IH [OF r] r by auto
qed simp

lemma new_reachable:
  "reachable (\<lambda>s. \<exists>h. s = (NewProxyCircuitBreaker h, 0)) (\<lambda>s t. \<exists>e. cb_step e s t) (NewProxyCircuitBreaker h, 0)"
  by (rule reach_init) blast

lemma failing_new:
  "reachable (\<lambda>s. \<exists>h. s = (NewProxyCircuitBreaker h, 0)) (\<lambda>s t. \<exists>e. cb_step e s t) (failing 5 (NewProxyCircuitBreaker ''h''), 0)"
  by (rule failing_reachable [OF new_reachable]) (simp_all add: NewProxyCircuitBreaker_def)

section \<open>Properties\<close>

text \<open>
  C29: in every reachable state, under any interleaving of requests, a trial is in flight exactly when
  the breaker is half open, a closed breaker has seen fewer than five failures since it last closed,
  and an open or half-open one at least five.
\<close>

theorem breaker_invariant:
  assumes "reachable (\<lambda>s. \<exists>h. s = (NewProxyCircuitBreaker h, 0)) (\<lambda>s t. \<exists>e. cb_step e s t) (cb, n)"
  shows "(trialInFlight cb \<longleftrightarrow> cbState cb = StateHalfOpen)
    \<and> (cbState cb = StateClosed \<longleftrightarrow> failures cb < 5) \<and> 0 \<le> failures cb"
  using breaker.inv_reachable [OF assms] by (auto simp: cb_inv_def)

theorem breaker_invariant_witness:
  "cbState (failing 5 (NewProxyCircuitBreaker ''h'')) \<noteq> StateClosed"
proof -
  have "failures (failing 5 (NewProxyCircuitBreaker ''h'')) = 5" by code_simp
  with breaker_invariant [OF failing_new] show ?thesis by simp
qed

text \<open>
  An open breaker protects its target: no request is admitted until ten seconds after the last
  failure, and the state does not change in between.
\<close>

theorem open_rejects:
  assumes "reachable (\<lambda>s. \<exists>h. s = (NewProxyCircuitBreaker h, 0)) (\<lambda>s t. \<exists>e. cb_step e s t) (cb, n)"
    and "cbState cb = StateOpen" "now \<le> lastFailureTime cb + 10000000000"
  shows "Execute action now now2 cb = (Some ''Target Offline (Circuit Breaker OPEN)'', cb, [])"
  using breaker.inv_reachable [OF assms(1)] assms(2,3) by (simp add: cb_inv_def executeBegin_def Execute_def)

theorem open_rejects_witness:
  "fst (Execute None 10000000000 10000000001 (failing 5 (NewProxyCircuitBreaker ''h'')))
     = Some ''Target Offline (Circuit Breaker OPEN)''"
proof -
  have "cbState (failing 5 (NewProxyCircuitBreaker ''h'')) = StateOpen"
    "10000000000 \<le> lastFailureTime (failing 5 (NewProxyCircuitBreaker ''h'')) + 10000000000" by code_simp+
  from open_rejects [OF failing_new this] show ?thesis by simp
qed

text \<open>
  The recovery of a breaker.  Ten seconds after the last failure the next request runs as a trial;
  while it runs every other request is rejected; if it succeeds the breaker is closed with its
  failures forgotten, and if it fails the breaker is open again from the time of that failure.
\<close>

theorem trial_decides:
  assumes "reachable (\<lambda>s. \<exists>h. s = (NewProxyCircuitBreaker h, 0)) (\<lambda>s t. \<exists>e. cb_step e s t) (cb, n)"
    and "cbState cb = StateOpen" "lastFailureTime cb + 10000000000 < now"
  shows "\<exists>trial. fst (executeBegin now cb) = None \<and> trial = fst (snd (executeBegin now cb))
    \<and> executeBegin now' trial = (Some ''Target Offline (Circuit Breaker HALF_OPEN Trial In-Flight)'', trial, [])
    \<and> cbState (fst (snd (executeEnd None now2 trial))) = StateClosed
    \<and> failures (fst (snd (executeEnd None now2 trial))) = 0
    \<and> cbState (fst (snd (executeEnd (Some e) now2 trial))) = StateOpen
    \<and> lastFailureTime (fst (snd (executeEnd (Some e) now2 trial))) = now2"
  using breaker.inv_reachable [OF assms(1)] assms(2,3) by (simp add: cb_inv_def executeBegin_def executeEnd_def Let_def)

theorem trial_decides_witness:
  "fst (executeBegin 10000001001 (failing 5 (NewProxyCircuitBreaker ''h''))) = None"
proof -
  have "cbState (failing 5 (NewProxyCircuitBreaker ''h'')) = StateOpen"
    "lastFailureTime (failing 5 (NewProxyCircuitBreaker ''h'')) + 10000000000 < 10000001001" by code_simp+
  from trial_decides [OF failing_new this] show ?thesis by blast
qed

end
