(* ===== verification/GoStrings.thy ===== *)
theory GoStrings
  imports GoBase
begin

text \<open>
  More of package \<^verbatim>\<open>strings\<close>: trimming of white space and searches from the right.
\<close>

section \<open>Trimming\<close>

text \<open>
  \<^verbatim>\<open>strings.TrimSpace\<close> removes the runes of Unicode's White_Space property at both ends.
  \<open>spaceSeqs\<close> lists their UTF-8 encodings; a rune is decoded at an end of a string as one of them
  exactly when its encoding stands there.
\<close>

definition spaceSeqs :: "string list" where
  "spaceSeqs = map (map char_of)
     ([[9], [10], [11], [12], [13], [32], [194, 133], [194, 160], [225, 154, 128 :: nat]]
      @ map (\<lambda>x. [226, 128, x]) [128, 129, 130, 131, 132, 133, 134, 135, 136, 137, 138, 168, 169, 175]
      @ [[226, 129, 159], [227, 128, 128]])"

lemma spaceSeqs_nonempty: "w \<in> set spaceSeqs \<Longrightarrow> w \<noteq> []"
  by (auto simp: spaceSeqs_def)

lemma find_SomeD: "find P xs = Some x \<Longrightarrow> x \<in> set xs \<and> P x"
  by (auto simp: find_Some_iff)

function trimLeftSpace :: "string \<Rightarrow> string" where
  "trimLeftSpace s =
     (case find (HasPrefix s) spaceSeqs of None \<Rightarrow> s | Some w \<Rightarrow> trimLeftSpace (drop (length w) s))"
  by auto
termination
proof (relation "measure length")
  fix s w
  assume "find (HasPrefix s) spaceSeqs = Some w"
  then have "w \<noteq> []" "HasPrefix s w" by (auto dest!: find_SomeD spaceSeqs_nonempty)
  then show "(drop (length w) s, s) \<in> measure length" by (auto simp: HasPrefix_iff)
qed simp

function trimRightSpace :: "string \<Rightarrow> string" where
  "trimRightSpace s =
     (case find (HasSuffix s) spaceSeqs of None \<Rightarrow> s
      | Some w \<Rightarrow> trimRightSpace (take (length s - length w) s))"
  by auto
termination
proof (relation "measure length")
  fix s w
  assume "find (HasSuffix s) spaceSeqs = Some w"
  then have "w \<noteq> []" "HasSuffix s w" by (auto dest!: find_SomeD spaceSeqs_nonempty)
  then show "(take (length s - length w) s, s) \<in> measure length" by (auto simp: HasSuffix_iff)
qed simp

declare trimLeftSpace.simps [simp del] trimRightSpace.simps [simp del]

definition TrimSpace :: "string \<Rightarrow> string" where
  "TrimSpace s = trimRightSpace (trimLeftSpace s)"

lemma trimLeft_none: "find (HasPrefix s) spaceSeqs = None \<Longrightarrow> trimLeftSpace s = s"
  by (subst trimLeftSpace.simps) simp

lemma trimRight_none: "find (HasSuffix s) spaceSeqs = None \<Longrightarrow> trimRightSpace s = s"
  by (subst trimRightSpace.simps) simp

lemma trimRight_prefix: "\<exists>u. s = trimRightSpace s @ u"
proof (induction s rule: trimRightSpace.induct)
  case (1 s)
  show ?case
  proof (cases "find (HasSuffix s) spaceSeqs")
    case None
    then show ?thesis by (simp add: trimRight_none)
  next
    case (Some w)
    let ?t = "take (length s - length w) s"
    from 1 [OF Some] obtain u where "?t = trimRightSpace ?t @ u" by blast
    then have "s = trimRightSpace ?t @ u @ drop (length s - length w) s"
      by (metis append.assoc append_take_drop_id)
    moreover have "trimRightSpace s = trimRightSpace ?t"
      by (subst trimRightSpace.simps) (simp add: Some)
    ultimately show ?thesis by metis
  qed
qed

text \<open>A printable ASCII character other than a blank is no part of a white-space rune.\<close>

definition visible :: "char \<Rightarrow> bool" where
  "visible c = (33 \<le> code c \<and> code c < 127)"

lemma spaceSeqs_ends: "list_all (\<lambda>w. w \<noteq> [] \<and> \<not> visible (hd w) \<and> \<not> visible (last w)) spaceSeqs"
  by code_simp

lemma TrimSpace_visible:
  assumes "s = [] \<or> visible (hd s) \<and> visible (last s)"
  shows "TrimSpace s = s"
proof -
  have ends: "w \<noteq> [] \<and> \<not> visible (hd w) \<and> \<not> visible (last w)" if "w \<in> set spaceSeqs" for w
    using spaceSeqs_ends that by (auto simp: list_all_iff)
  have "\<not> HasPrefix s w" "\<not> HasSuffix s w" if "w \<in> set spaceSeqs" for w
    using assms ends [OF that] by (auto simp: HasPrefix_iff HasSuffix_iff)
  then have "find (HasPrefix s) spaceSeqs = None" "find (HasSuffix s) spaceSeqs = None"
    by (auto simp: find_None_iff)
  then show ?thesis by (simp add: TrimSpace_def trimLeft_none trimRight_none)
qed

section \<open>Searching\<close>

text \<open>\<^verbatim>\<open>strings.IndexByte\<close>, \<^verbatim>\<open>strings.LastIndex\<close> of one byte, and \<^verbatim>\<open>strings.Cut\<close>.\<close>

fun IndexByte :: "'a \<Rightarrow> 'a list \<Rightarrow> nat option" where
  "IndexByte c [] = None"
| "IndexByte c (x # xs) = (if x = c then Some 0 else map_option Suc (IndexByte c xs))"

definition LastIndexByte :: "'a \<Rightarrow> 'a list \<Rightarrow> nat option" where
  "LastIndexByte c s = map_option (\<lambda>i. length s - 1 - i) (IndexByte c (rev s))"

definition Cut :: "'a \<Rightarrow> 'a list \<Rightarrow> 'a list \<times> 'a list \<times> bool" where
  "Cut c s = (case IndexByte c s of None \<Rightarrow> (s, [], False) | Some i \<Rightarrow> (take i s, drop (i + 1) s, True))"

lemma IndexByte_None [simp]: "IndexByte c s = None \<longleftrightarrow> c \<notin> set s"
  by (induction s) auto

lemma IndexByte_Some: "IndexByte c s = Some i \<longleftrightarrow> i < length s \<and> s ! i = c \<and> c \<notin> set (take i s)"
proof (induction s arbitrary: i)
  case (Cons x xs)
  then show ?case by (cases i) auto
qed simp

lemma IndexByte_append: "c \<notin> set u \<Longrightarrow> IndexByte c (u @ c # v) = Some (length u)"
  by (induction u) auto

lemma Cut_append: "c \<notin> set u \<Longrightarrow> Cut c (u @ c # v) = (u, v, True)"
  by (simp add: Cut_def IndexByte_append)

lemma LastIndexByte_append: "c \<notin> set v \<Longrightarrow> LastIndexByte c (u @ c # v) = Some (length u)"
  by (simp add: LastIndexByte_def IndexByte_append)

lemma LastIndexByte_None [simp]: "LastIndexByte c s = None \<longleftrightarrow> c \<notin> set s"
  by (simp add: LastIndexByte_def)

end
