(* ===== verification/Crypto.thy ===== *)
theory Crypto
  imports AuditLog GoHash GoStrings
begin

text \<open>
  The secrets of \<^verbatim>\<open>src/pkg/crypto/crypto.go\<close>: where the master key comes from, the sealed form of a
  secret in the configuration file, and the derivation of subkeys (HKDF).

  AES-GCM is a parameter of the model (\<open>GcmSeal\<close> and \<open>GcmOpen\<close> of the record \<open>golib\<close>); the laws the
  lemmas need of it are the predicate \<open>gcm_ok\<close>.  The environment of the process (variables, files,
  the random source) is the record \<open>KeyEnv\<close>.
\<close>

section \<open>The master key\<close>

text \<open>\<^verbatim>\<open>filepath.Join\<close> of two elements, on the separator of Unix.\<close>

definition cleanStep :: "bool \<Rightarrow> string \<Rightarrow> string list \<Rightarrow> string list" where
  "cleanStep rooted c out =
     (if c = [] \<or> c = ''.'' then out
      else if c = ''..'' then
        (if out \<noteq> [] \<and> hd out \<noteq> ''..'' then tl out else if rooted then out else ''..'' # out)
      else c # out)"

definition Clean :: "string \<Rightarrow> string" where
  "Clean path =
     (let rooted = HasPrefix path ''/'';
          s = (if rooted then ''/'' else []) @ Join ''/'' (rev (fold (cleanStep rooted) (Split CHR ''/'' path) []))
      in if s = [] then ''.'' else s)"

definition JoinPath :: "string \<Rightarrow> string \<Rightarrow> string" where
  "JoinPath a b =
     (if a \<noteq> [] then Clean (a @ ''/'' @ b) else if b \<noteq> [] then Clean b else [])"

text \<open>
  What \<^verbatim>\<open>getMasterKey\<close> reads of its surroundings.  A read of the random source gives the buffer it
  leaves behind and the text of its error, if any.
\<close>

record KeyEnv =
  EnvMasterKey :: string
  EnvGoEnv :: string
  Arg0 :: string
  TempDir :: string
  Getwd :: string
  ReadFile :: "string \<Rightarrow> bytes option"
  RandGenerated :: "bytes \<times> string option"
  RandFallback :: "bytes \<times> string option"
  MkdirAll :: "string \<Rightarrow> bool"
  WriteFile :: "string \<Rightarrow> bytes \<Rightarrow> bool"

definition keyDir :: "KeyEnv \<Rightarrow> string" where
  "keyDir env =
     (if HasSuffix (Arg0 env) ''.test'' \<or> EnvGoEnv env = ''test'' then TempDir env
      else JoinPath (Getwd env) ''config'')"

definition keyPath :: "KeyEnv \<Rightarrow> string" where
  "keyPath env = JoinPath (keyDir env) ''.ottergate-master-key''"

text \<open>The key, the file that was written, and the messages that were logged.\<close>

type_synonym key_result = "bytes \<times> (string \<times> bytes) option \<times> audit_call list"

definition generateMasterKey :: "KeyEnv \<Rightarrow> audit_call list \<Rightarrow> key_result" where
  "generateMasterKey env log =
     (case RandGenerated env of
        (_, Some err) \<Rightarrow>
          (fst (RandFallback env), None,
           log @ [LogError (''[SECURITY] Unable to generate master key: '' @ err @ ''. Using ephemeral fallback!'')])
      | (generated, None) \<Rightarrow>
          (let genHex = EncodeToString generated in
           if MkdirAll env (keyDir env) \<and> WriteFile env (keyPath env) (bytes_of genHex)
           then (Sha256 (bytes_of genHex), Some (keyPath env, bytes_of genHex),
                 log @ [LogSystem (''[SECURITY] OTTERGATE_MASTER_KEY not set. Generated persistent key at '' @ keyPath env)])
           else (fst (RandFallback env), None,
                 log @ [LogError ''[SECURITY] Unable to persist master key. Using ephemeral fallback! Secrets will be lost on restart.''])))"

definition initMasterKey :: "KeyEnv \<Rightarrow> key_result" where
  "initMasterKey env =
     (if EnvMasterKey env \<noteq> [] then (Sha256 (bytes_of (EnvMasterKey env)), None, [])
      else case ReadFile env (keyPath env) of
        None \<Rightarrow> generateMasterKey env []
      | Some data \<Rightarrow>
          (let trimmed = TrimSpace (string_of data) in
           if length trimmed \<ge> 32 then (Sha256 (bytes_of trimmed), None, [])
           else generateMasterKey env
             [LogError ''[SECURITY] Stored master key file contains insufficient entropy. Re-generating key block...'']))"

text \<open>
  \<^verbatim>\<open>getMasterKey\<close> runs the initialisation once per process (\<^verbatim>\<open>masterKeyOnce\<close>); the state is the key
  it has stored, if it has run.
\<close>

definition getMasterKey :: "KeyEnv \<Rightarrow> bytes option \<Rightarrow> bytes option \<times> key_result" where
  "getMasterKey env masterKey =
     (case masterKey of
        Some key \<Rightarrow> (masterKey, key, None, [])
      | None \<Rightarrow> (case initMasterKey env of (key, written, log) \<Rightarrow> (Some key, key, written, log)))"

section \<open>Sealed secrets\<close>

datatype crypto_error = KeySizeError nat | RandomError string | HexError | IntegrityError

definition IsEncrypted :: "string \<Rightarrow> bool" where
  "IsEncrypted value =
     (let parts = Split CHR '':'' value in
      if length parts \<noteq> 4 \<or> parts ! 0 \<noteq> ''v1'' then False
      else length (parts ! 1) = 24 \<and> length (parts ! 2) = 32)"

definition NewCipher :: "bytes \<Rightarrow> crypto_error option" where
  "NewCipher key =
     (if length key \<in> {16, 24, 32} then None else Some (KeySizeError (length key)))"

abbreviation gcmNonceSize :: nat where
  "gcmNonceSize \<equiv> 12"

abbreviation gcmOverhead :: nat where
  "gcmOverhead \<equiv> 16"

text \<open>
  The operations take the key that \<^verbatim>\<open>getMasterKey\<close> returns; \<^verbatim>\<open>EncryptSecret\<close> also takes the result of
  its read of the random source.  \<^verbatim>\<open>gcm.Open\<close> panics on a nonce of another size.
\<close>

definition EncryptSecret :: "golib \<Rightarrow> bytes \<Rightarrow> bytes \<times> string option \<Rightarrow> string \<Rightarrow> (crypto_error + string) outcome" where
  "EncryptSecret L key rnd plaintext =
     (if IsEncrypted plaintext then Ret (Inr plaintext)
      else case NewCipher key of
        Some err \<Rightarrow> Ret (Inl err)
      | None \<Rightarrow>
         (case rnd of
            (_, Some err) \<Rightarrow> Ret (Inl (RandomError err))
          | (nonce, None) \<Rightarrow>
             (let sealed = GcmSeal L key nonce (bytes_of plaintext) in
              if length sealed < gcmOverhead then Panic
              else
               (let ciphertext = take (length sealed - gcmOverhead) sealed;
                    tag = drop (length sealed - gcmOverhead) sealed
                in Ret (Inr (''v1:'' @ EncodeToString nonce @ '':'' @ EncodeToString tag @ '':''
                             @ EncodeToString ciphertext))))))"

definition DecryptSecret :: "golib \<Rightarrow> bytes \<Rightarrow> string \<Rightarrow> (crypto_error + string) outcome" where
  "DecryptSecret L key encrypted =
     (if \<not> IsEncrypted encrypted then Ret (Inr encrypted)
      else
       (let parts = Split CHR '':'' encrypted in
        case (DecodeString (parts ! 1), DecodeString (parts ! 2), DecodeString (parts ! 3)) of
          (Some nonce, Some tag, Some ciphertext) \<Rightarrow>
            (case NewCipher key of
               Some err \<Rightarrow> Ret (Inl err)
             | None \<Rightarrow>
                 if length nonce \<noteq> gcmNonceSize then Panic
                 else case GcmOpen L key nonce (ciphertext @ tag) of
                   None \<Rightarrow> Ret (Inl IntegrityError)
                 | Some plaintext \<Rightarrow> Ret (Inr (string_of plaintext)))
        | _ \<Rightarrow> Ret (Inl HexError)))"

section \<open>Key derivation\<close>

function hkdfLoop :: "bytes \<Rightarrow> bytes \<Rightarrow> nat \<Rightarrow> bytes \<Rightarrow> byte \<Rightarrow> bytes \<Rightarrow> bytes" where
  "hkdfLoop prk info len t counter okm =
     (if length okm < len then
        (let t' = HmacSha256 prk (t @ info @ [counter])
         in hkdfLoop prk info len t' (counter + 1) (okm @ t'))
      else okm)"
  by auto
termination
  by (relation "measure (\<lambda>(prk, info, len, t, counter, okm). len - length okm)") (auto simp: Let_def)

declare hkdfLoop.simps [simp del]

text \<open>\<^verbatim>\<open>make([]byte, 0, length)\<close> panics for a negative length.\<close>

definition HKDF :: "bytes \<Rightarrow> bytes \<Rightarrow> bytes \<Rightarrow> int \<Rightarrow> bytes outcome" where
  "HKDF salt ikm info len =
     (let prk = HmacSha256 (if salt = [] then replicate 32 0 else salt) ikm in
      if len < 0 then Panic
      else Ret (take (nat len) (hkdfLoop prk info (nat len) [] 1 [])))"

section \<open>Key derivation follows RFC 5869\<close>

text \<open>The blocks \<open>T(1), T(2), \<dots>\<close> of RFC 5869, section 2.3.\<close>

fun hkdf_T :: "bytes \<Rightarrow> bytes \<Rightarrow> nat \<Rightarrow> bytes" where
  "hkdf_T prk info 0 = []"
| "hkdf_T prk info (Suc i) = HmacSha256 prk (hkdf_T prk info i @ info @ [of_nat (Suc i)])"

definition hkdf_expand :: "bytes \<Rightarrow> bytes \<Rightarrow> nat \<Rightarrow> bytes" where
  "hkdf_expand prk info n = concat (map (\<lambda>i. hkdf_T prk info (Suc i)) [0..<n])"

definition hkdf_extract :: "bytes \<Rightarrow> bytes \<Rightarrow> bytes" where
  "hkdf_extract salt ikm = HmacSha256 (if salt = [] then replicate 32 0 else salt) ikm"

lemma length_hkdf_expand [simp]: "length (hkdf_expand prk info n) = 32 * n"
  by (induction n) (simp_all add: hkdf_expand_def)

lemma hkdfLoop_expand:
  "hkdfLoop prk info len (hkdf_T prk info n) (of_nat (Suc n)) (hkdf_expand prk info n)
     = hkdf_expand prk info (max n ((len + 31) div 32))"
proof (induction "len - 32 * n" arbitrary: n rule: less_induct)
  case less
  show ?case
  proof (cases "32 * n < len")
    case True
    let ?t = "hkdf_T prk info (Suc n)"
    have "hkdf_expand prk info n @ ?t = hkdf_expand prk info (Suc n)" by (simp add: hkdf_expand_def)
    moreover have "of_nat (Suc n) + 1 = (of_nat (Suc (Suc n)) :: byte)" by simp
    ultimately have "hkdfLoop prk info len (hkdf_T prk info n) (of_nat (Suc n)) (hkdf_expand prk info n)
        = hkdfLoop prk info len ?t (of_nat (Suc (Suc n))) (hkdf_expand prk info (Suc n))"
      using True by (subst hkdfLoop.simps) (simp add: Let_def)
    also have "\<dots> = hkdf_expand prk info (max (Suc n) ((len + 31) div 32))"
      by (rule less) (use True in simp)
    also have "max (Suc n) ((len + 31) div 32) = max n ((len + 31) div 32)" using True by linarith
    finally show ?thesis .
  next
    case False
    then have "max n ((len + 31) div 32) = n" by linarith
    with False show ?thesis by (subst hkdfLoop.simps) simp
  qed
qed

text \<open>
  For every length a caller may ask of RFC 5869 (up to 255 blocks) \<^verbatim>\<open>HKDF\<close> returns exactly the
  requested number of bytes, namely the first bytes of \<open>T(1) T(2) \<dots>\<close> for the extracted key, an empty
  salt standing for 32 zero bytes.
\<close>

theorem HKDF_rfc5869:
  assumes "0 \<le> len" "len \<le> 255 * 32"
  shows "\<exists>okm. HKDF salt ikm info len = Ret okm \<and> int (length okm) = len
           \<and> okm = take (nat len) (hkdf_expand (hkdf_extract salt ikm) info (nat ((len + 31) div 32)))"
proof -
  define prk where "prk = hkdf_extract salt ikm"
  have div: "nat ((len + 31) div 32) = (nat len + 31) div 32"
    using assms(1) by (simp add: nat_div_distrib nat_add_distrib)
  have "hkdfLoop prk info (nat len) [] 1 [] = hkdf_expand prk info ((nat len + 31) div 32)"
    using hkdfLoop_expand [of prk info "nat len" 0] by (simp add: hkdf_expand_def)
  then have "HKDF salt ikm info len = Ret (take (nat len) (hkdf_expand prk info ((nat len + 31) div 32)))"
    using assms by (simp add: HKDF_def prk_def hkdf_extract_def)
  moreover have "nat len \<le> 32 * ((nat len + 31) div 32)" by linarith
  ultimately show ?thesis using assms(1) by (simp add: div prk_def)
qed

theorem HKDF_rfc5869_witness:
  "\<exists>okm. HKDF [] (bytes_of ''otter'') (bytes_of ''blind_index_salt_derivation'') 16 = Ret okm
     \<and> int (length okm) = 16
     \<and> okm = take (nat 16) (hkdf_expand (hkdf_extract [] (bytes_of ''otter''))
                       (bytes_of ''blind_index_salt_derivation'') (nat ((16 + 31) div 32)))"
  using HKDF_rfc5869 [of 16 "[]"] by simp

section \<open>Sealed secrets can be opened\<close>

text \<open>
  What the lemmas use of AES-GCM: opening inverts sealing, and sealing adds a tag of 16 bytes.
\<close>

definition gcm_ok :: "golib \<Rightarrow> bool" where
  "gcm_ok L \<longleftrightarrow> (\<forall>key nonce p. GcmOpen L key nonce (GcmSeal L key nonce p) = Some p
                   \<and> length (GcmSeal L key nonce p) = length p + gcmOverhead)"

lemma gcm_okD:
  assumes "gcm_ok L"
  shows "GcmOpen L key nonce (GcmSeal L key nonce p) = Some p"
    and "length (GcmSeal L key nonce p) = length p + gcmOverhead"
  using assms by (simp_all add: gcm_ok_def)

lemma hex_no_colon: "CHR '':'' \<notin> set (EncodeToString bs)"
  using EncodeToString_hex [of "CHR '':''" bs] by (auto simp: is_hex_digit_def)

lemma Split_sealed:
  "Split CHR '':'' (''v1:'' @ EncodeToString a @ '':'' @ EncodeToString b @ '':'' @ EncodeToString c)
     = [''v1'', EncodeToString a, EncodeToString b, EncodeToString c]"
proof -
  have "''v1:'' @ EncodeToString a @ '':'' @ EncodeToString b @ '':'' @ EncodeToString c
      = Join '':'' [''v1'', EncodeToString a, EncodeToString b, EncodeToString c]" by simp
  then show ?thesis using Split_Join [of "[''v1'', EncodeToString a, EncodeToString b, EncodeToString c]" "CHR '':''"]
    by (simp add: hex_no_colon)
qed

text \<open>
  C14: sealing a secret that is not sealed yet succeeds, with a master key of 32 bytes and a nonce of
  12, and gives a value that is recognised as sealed; sealing it again changes nothing; opening it
  gives the secret back.
\<close>

theorem EncryptSecret_DecryptSecret:
  assumes "gcm_ok L" "length key = 32" "length nonce = 12" "\<not> IsEncrypted secret"
  shows "\<exists>v. EncryptSecret L key (nonce, None) secret = Ret (Inr v) \<and> IsEncrypted v
           \<and> EncryptSecret L key rnd v = Ret (Inr v) \<and> DecryptSecret L key v = Ret (Inr secret)"
proof -
  let ?s = "GcmSeal L key nonce (bytes_of secret)"
  let ?n = "length ?s - gcmOverhead"
  let ?v = "''v1:'' @ EncodeToString nonce @ '':'' @ EncodeToString (drop ?n ?s) @ '':'' @ EncodeToString (take ?n ?s)"
  have len: "length ?s = length secret + 16" using gcm_okD(2) [OF assms(1)] by simp
  have split: "Split CHR '':'' ?v
      = [''v1'', EncodeToString nonce, EncodeToString (drop ?n ?s), EncodeToString (take ?n ?s)]"
    by (rule Split_sealed)
  have enc: "EncryptSecret L key (nonce, None) secret = Ret (Inr ?v)"
    unfolding EncryptSecret_def using assms(2,4) len by (simp add: NewCipher_def Let_def)
  have sealed: "IsEncrypted ?v" unfolding IsEncrypted_def split using assms(3) len by simp
  then have again: "EncryptSecret L key rnd ?v = Ret (Inr ?v)" unfolding EncryptSecret_def by simp
  have "DecryptSecret L key ?v = Ret (Inr secret)"
    unfolding DecryptSecret_def Let_def split using sealed assms(2,3) gcm_okD(1) [OF assms(1)]
    by (simp add: NewCipher_def)
  with enc sealed again show ?thesis by blast
qed

lemma gcm_ok_example: "gcm_ok example_lib"
  by (simp add: gcm_ok_def example_lib_def)

theorem EncryptSecret_DecryptSecret_witness:
  "\<exists>v. EncryptSecret example_lib (replicate 32 7) (replicate 12 1, None) ''Bearer token'' = Ret (Inr v)
     \<and> IsEncrypted v \<and> EncryptSecret example_lib (replicate 32 7) (replicate 12 2, None) v = Ret (Inr v)
     \<and> DecryptSecret example_lib (replicate 32 7) v = Ret (Inr ''Bearer token'')"
proof -
  have "\<not> IsEncrypted ''Bearer token''" by code_simp
  then show ?thesis by (intro EncryptSecret_DecryptSecret gcm_ok_example) simp_all
qed

section \<open>Damaged secrets are refused\<close>

lemma IsEncrypted_nonce:
  assumes "IsEncrypted s" "DecodeString (Split CHR '':'' s ! 1) = Some nonce"
  shows "length nonce = 12"
  using assms DecodeString_length [OF assms(2)] by (simp add: IsEncrypted_def Let_def split: if_splits)

text \<open>
  Opening never panics, whatever the value, and a value that looks sealed is only ever replaced by
  a plaintext that the authenticated decryption accepted under the key for its own nonce, tag and
  ciphertext; with a key of 32 bytes every other such value is an error.
\<close>

theorem DecryptSecret_authentic:
  "DecryptSecret L key s \<noteq> Panic
   \<and> (if IsEncrypted s
      then (\<forall>p. DecryptSecret L key s = Ret (Inr p) \<longleftrightarrow>
              length key \<in> {16, 24, 32}
              \<and> (\<exists>nonce tag c. length nonce = 12 \<and> length tag = 16
                   \<and> map DecodeString (tl (Split CHR '':'' s)) = [Some nonce, Some tag, Some c]
                   \<and> GcmOpen L key nonce (c @ tag) = Some (bytes_of p)))
      else DecryptSecret L key s = Ret (Inr s))"
proof (cases "IsEncrypted s")
  case False
  then show ?thesis by (simp add: DecryptSecret_def)
next
  case True
  let ?ps = "Split CHR '':'' s"
  have len: "length ?ps = 4" and tag: "length (?ps ! 2) = 32"
    using True by (auto simp: IsEncrypted_def Let_def split: if_splits)
  then obtain a b c d where ps: "?ps = [a, b, c, d]"
    by (auto simp: length_Suc_conv numeral_eq_Suc)
  have nonce: "length n = 12" if "DecodeString b = Some n" for n
    using IsEncrypted_nonce [OF True] that by (simp add: ps)
  have tag: "length t = 16" if "DecodeString c = Some t" for t
    using DecodeString_length [OF that] tag by (simp add: ps)
  have dec: "DecryptSecret L key s =
      (case (DecodeString b, DecodeString c, DecodeString d) of
         (Some nonce, Some tag, Some ct) \<Rightarrow>
           (case NewCipher key of Some err \<Rightarrow> Ret (Inl err)
            | None \<Rightarrow> case GcmOpen L key nonce (ct @ tag) of
                None \<Rightarrow> Ret (Inl IntegrityError) | Some p \<Rightarrow> Ret (Inr (string_of p)))
       | _ \<Rightarrow> Ret (Inl HexError))"
    using True nonce by (auto simp: DecryptSecret_def ps split: option.splits)
  have str: "string_of x = p \<longleftrightarrow> x = bytes_of p" for x p by (metis string_of_bytes_of bytes_of_string_of)
  show ?thesis
    using True nonce tag unfolding dec ps by (auto simp: NewCipher_def str split: option.splits)
qed

section \<open>The master key survives a restart\<close>

lemma genHex_trimmed: "TrimSpace (EncodeToString bs) = EncodeToString bs"
proof (rule TrimSpace_visible)
  have "visible c" if "c \<in> set (EncodeToString bs)" for c
    using EncodeToString_hex [OF that] by (auto simp: visible_def is_hex_digit_def)
  then show "EncodeToString bs = [] \<or> visible (hd (EncodeToString bs)) \<and> visible (last (EncodeToString bs))"
    by (cases "EncodeToString bs = []") (auto simp del: length_0_conv)
qed

text \<open>
  When a process without a configured key generates one and stores it, a later process that finds
  the stored file and has no configured key either uses the same master key, writes nothing and logs
  nothing; so secrets sealed before a restart can be opened after it.
\<close>

theorem getMasterKey_persistent:
  assumes "getMasterKey env None = (st, key, Some (path, content), log)"
    and "snd (RandGenerated env) = None \<Longrightarrow> length (fst (RandGenerated env)) = 32"
    and "EnvMasterKey env' = []" "keyPath env' = path" "ReadFile env' path = Some content"
  shows "getMasterKey env' None = (Some key, key, None, []) \<and> length key = 32"
proof -
  from assms(1) obtain g where g: "RandGenerated env = (g, None)"
      "path = keyPath env" "content = bytes_of (EncodeToString g)" "key = Sha256 (bytes_of (EncodeToString g))"
    by (auto simp: getMasterKey_def initMasterKey_def generateMasterKey_def Let_def
             split: if_splits option.splits prod.splits)
  from g(1) assms(2) have "length g = 32" by simp
  with g assms(3-5) show ?thesis
    by (simp add: getMasterKey_def initMasterKey_def genHex_trimmed)
qed

definition example_key_env :: KeyEnv where
  "example_key_env =
     \<lparr>EnvMasterKey = [], EnvGoEnv = [], Arg0 = ''/usr/bin/ottergate'', TempDir = ''/tmp'', Getwd = ''/srv'',
      ReadFile = (\<lambda>_. None), RandGenerated = (replicate 32 9, None), RandFallback = (replicate 32 0, None),
      MkdirAll = (\<lambda>_. True), WriteFile = (\<lambda>_ _. True)\<rparr>"

lemma keyPath_example:
  assumes "HasSuffix (Arg0 env) ''.test'' = False" "EnvGoEnv env = []" "Getwd env = ''/srv''"
  shows "keyPath env = ''/srv/config/.ottergate-master-key''"
proof -
  have "JoinPath (JoinPath ''/srv'' ''config'') ''.ottergate-master-key'' = ''/srv/config/.ottergate-master-key''"
    by code_simp
  with assms show ?thesis by (simp add: keyPath_def keyDir_def)
qed

theorem getMasterKey_persistent_witness:
  "getMasterKey (example_key_env\<lparr>ReadFile := (\<lambda>_. Some (bytes_of (EncodeToString (replicate 32 9))))\<rparr>) None
     = (Some (Sha256 (bytes_of (EncodeToString (replicate 32 9)))),
        Sha256 (bytes_of (EncodeToString (replicate 32 9))), None, [])
   \<and> length (Sha256 (bytes_of (EncodeToString (replicate 32 9)))) = 32"
proof (rule getMasterKey_persistent)
  have path: "keyPath example_key_env = ''/srv/config/.ottergate-master-key''"
    by (rule keyPath_example) (simp_all add: example_key_env_def HasSuffix_def)
  have env: "EnvMasterKey example_key_env = []" "ReadFile example_key_env = (\<lambda>_. None)"
    "RandGenerated example_key_env = (replicate 32 9, None)" "MkdirAll example_key_env = (\<lambda>_. True)"
    "WriteFile example_key_env = (\<lambda>_ _. True)"
    by (simp_all add: example_key_env_def)
  show "getMasterKey example_key_env None
      = (Some (Sha256 (bytes_of (EncodeToString (replicate 32 9)))),
         Sha256 (bytes_of (EncodeToString (replicate 32 9))),
         Some (''/srv/config/.ottergate-master-key'', bytes_of (EncodeToString (replicate 32 9))),
         [LogSystem (''[SECURITY] OTTERGATE_MASTER_KEY not set. Generated persistent key at '' @ ''/srv/config/.ottergate-master-key'')])"
    unfolding getMasterKey_def initMasterKey_def generateMasterKey_def path env by (simp add: Let_def)
  show "keyPath (example_key_env\<lparr>ReadFile := (\<lambda>_. Some (bytes_of (EncodeToString (replicate 32 9))))\<rparr>)
      = ''/srv/config/.ottergate-master-key''"
    by (rule keyPath_example) (simp_all add: example_key_env_def HasSuffix_def)
qed (simp_all add: example_key_env_def)

end
