(* ===== verification/GoUrl.thy ===== *)
theory GoUrl
  imports GoStrings
begin

text \<open>
  Package \<^verbatim>\<open>net/url\<close> as the gateway uses it: \<open>ParseURL\<close> is \<^verbatim>\<open>url.Parse\<close>, with its unescaping of the
  authority, the path and the fragment, and \<open>Hostname\<close> and \<open>PortOf\<close> are the methods of a URL.
  The text of an error goes through \<open>Quote\<close> (\<^verbatim>\<open>strconv.Quote\<close>), whose table of printable runes above
  127 is the parameter \<open>uniPrint\<close> of the record \<open>golib\<close>.
\<close>

section \<open>Quoting\<close>

definition hex_digits_n :: "nat \<Rightarrow> nat \<Rightarrow> string" where
  "hex_digits_n n v = map (\<lambda>i. digit (v div 16 ^ (n - 1 - i) mod 16)) [0..<n]"

definition quoteRune :: "golib \<Rightarrow> nat \<Rightarrow> string" where
  "quoteRune L r =
     (if r = 34 \<or> r = 92 then [CHR 0x5C, char_of r]
      else if (if r < 128 then 32 \<le> r \<and> r < 127 else uniPrint L r) then map char_of (encode_rune r)
      else if r = 7 then [CHR 0x5C, CHR ''a''] else if r = 8 then [CHR 0x5C, CHR ''b'']
      else if r = 12 then [CHR 0x5C, CHR ''f''] else if r = 10 then [CHR 0x5C, CHR ''n'']
      else if r = 13 then [CHR 0x5C, CHR ''r''] else if r = 9 then [CHR 0x5C, CHR ''t'']
      else if r = 11 then [CHR 0x5C, CHR ''v'']
      else if r < 32 \<or> r = 127 then CHR 0x5C # CHR ''x'' # hex_digits_n 2 r
      else if r < 65536 then CHR 0x5C # CHR ''u'' # hex_digits_n 4 r
      else CHR 0x5C # CHR ''U'' # hex_digits_n 8 r)"

function quoteBytes :: "golib \<Rightarrow> nat list \<Rightarrow> string" where
  "quoteBytes L [] = []"
| "quoteBytes L (b # bs) =
     (case decode_rune b bs of (r, w) \<Rightarrow>
        (if w = 1 \<and> r = RuneError then CHR 0x5C # CHR ''x'' # hex_digits_n 2 b else quoteRune L r)
        @ quoteBytes L (drop (w - 1) bs))"
  by pat_completeness auto
termination
  by (relation "measure (\<lambda>(L, bs). length bs)") auto

definition Quote :: "golib \<Rightarrow> string \<Rightarrow> string" where
  "Quote L s = [CHR 0x22] @ quoteBytes L (map of_char s) @ [CHR 0x22]"

section \<open>Unescaping\<close>

datatype url_error =
    EscapeError string | InvalidHostError string | MissingScheme | ControlCharacter
  | ColonInSegment | MissingBracket | InvalidPort string | InvalidUserinfo

datatype encoding = EncodePath | EncodeHost | EncodeZone | EncodeUserPassword | EncodeFragment

definition isAlnum :: "char \<Rightarrow> bool" where
  "isAlnum c =
     ((48 \<le> code c \<and> code c \<le> 57) \<or> (65 \<le> code c \<and> code c \<le> 90) \<or> (97 \<le> code c \<and> code c \<le> 122))"

text \<open>\<^verbatim>\<open>shouldEscape\<close> in the modes the parser asks for it: a host and a zone.\<close>

definition shouldEscapeHost :: "char \<Rightarrow> bool" where
  "shouldEscapeHost c = (\<not> isAlnum c \<and> c \<notin> set (''!$&()*+,;=:[]<>-_.~'' @ [CHR 0x27, CHR 0x22]))"

text \<open>The checks of the first loop of \<^verbatim>\<open>unescape\<close>.\<close>

fun checkEscapes :: "encoding \<Rightarrow> string \<Rightarrow> url_error option" where
  "checkEscapes mode [] = None"
| "checkEscapes mode (c # cs) =
     (if c = CHR ''%'' then
        (case cs of
           h # l # rest \<Rightarrow>
             (case (hex_val h, hex_val l) of
                (Some x, Some y) \<Rightarrow>
                  if mode = EncodeHost \<and> x < 8 \<and> [h, l] \<noteq> ''25'' then Some (EscapeError [c, h, l])
                  else if mode = EncodeZone \<and> [h, l] \<noteq> ''25'' \<and> 16 * x + y \<noteq> 32
                          \<and> shouldEscapeHost (char_of (16 * x + y))
                  then Some (EscapeError [c, h, l])
                  else checkEscapes mode rest
              | _ \<Rightarrow> Some (EscapeError [c, h, l]))
         | _ \<Rightarrow> Some (EscapeError (c # cs)))
      else if (mode = EncodeHost \<or> mode = EncodeZone) \<and> code c < 128 \<and> shouldEscapeHost c
      then Some (InvalidHostError [c])
      else checkEscapes mode cs)"

fun decodeEscapes :: "string \<Rightarrow> string" where
  "decodeEscapes (c # h # l # rest) =
     (if c = CHR ''%'' then
        (case (hex_val h, hex_val l) of
           (Some x, Some y) \<Rightarrow> char_of (16 * x + y) # decodeEscapes rest
         | _ \<Rightarrow> c # decodeEscapes (h # l # rest))
      else c # decodeEscapes (h # l # rest))"
| "decodeEscapes s = s"

definition unescape :: "encoding \<Rightarrow> string \<Rightarrow> url_error + string" where
  "unescape mode s =
     (case checkEscapes mode s of Some err \<Rightarrow> Inl err | None \<Rightarrow> Inr (decodeEscapes s))"

section \<open>Escaping\<close>

text \<open>\<^verbatim>\<open>shouldEscape\<close> in the modes the printer asks for it.\<close>

definition shouldEscape :: "encoding \<Rightarrow> char \<Rightarrow> bool" where
  "shouldEscape mode c =
     (if mode = EncodeHost \<or> mode = EncodeZone then shouldEscapeHost c
      else if isAlnum c \<or> c \<in> set ''-_.~'' then False
      else if c \<in> set ''$&+,/:;=?@'' then
        (case mode of EncodePath \<Rightarrow> c = CHR ''?'' | EncodeUserPassword \<Rightarrow> c \<in> set ''@/?:'' | _ \<Rightarrow> False)
      else if mode = EncodeFragment \<and> c \<in> set ''!()*'' then False
      else True)"

definition upperHex :: "nat \<Rightarrow> char" where
  "upperHex d = (if d < 10 then char_of (d + 48) else char_of (d + 55))"

definition escape :: "encoding \<Rightarrow> string \<Rightarrow> string" where
  "escape mode s =
     concat (map (\<lambda>c. if shouldEscape mode c then [CHR ''%'', upperHex (code c div 16), upperHex (code c mod 16)] else [c]) s)"

text \<open>What \<^verbatim>\<open>setPath\<close> and \<^verbatim>\<open>setFragment\<close> keep of the encoded form: nothing when it is the default one.\<close>

definition rawForm :: "encoding \<Rightarrow> string \<Rightarrow> string \<Rightarrow> string" where
  "rawForm mode p decoded = (if p = escape mode decoded then [] else p)"

section \<open>Parsing\<close>

record URL =
  uScheme :: string
  uOpaque :: string
  uUser :: "(string \<times> string option) option"
  uHost :: string
  uPath :: string
  uRawPath :: string
  uOmitHost :: bool
  uForceQuery :: bool
  uRawQuery :: string
  uFragment :: string
  uRawFragment :: string

definition emptyURL :: URL where
  "emptyURL = \<lparr>uScheme = [], uOpaque = [], uUser = None, uHost = [], uPath = [], uRawPath = [],
     uOmitHost = False, uForceQuery = False, uRawQuery = [], uFragment = [], uRawFragment = []\<rparr>"

definition stringContainsCTLByte :: "string \<Rightarrow> bool" where
  "stringContainsCTLByte s = list_ex (\<lambda>c. code c < 32 \<or> code c = 127) s"

fun getSchemeFrom :: "string \<Rightarrow> nat \<Rightarrow> string \<Rightarrow> url_error + (string \<times> string)" where
  "getSchemeFrom raw i [] = Inr ([], raw)"
| "getSchemeFrom raw i (c # cs) =
     (if (65 \<le> code c \<and> code c \<le> 90) \<or> (97 \<le> code c \<and> code c \<le> 122) then getSchemeFrom raw (i + 1) cs
      else if (48 \<le> code c \<and> code c \<le> 57) \<or> c \<in> set ''+-.'' then
        (if i = 0 then Inr ([], raw) else getSchemeFrom raw (i + 1) cs)
      else if c = CHR '':'' then
        (if i = 0 then Inl MissingScheme else Inr (take i raw, drop (i + 1) raw))
      else Inr ([], raw))"

definition getScheme :: "string \<Rightarrow> url_error + (string \<times> string)" where
  "getScheme raw = getSchemeFrom raw 0 raw"

definition validOptionalPort :: "string \<Rightarrow> bool" where
  "validOptionalPort port =
     (case port of [] \<Rightarrow> True | c # cs \<Rightarrow> c = CHR '':'' \<and> list_all is_digit cs)"

definition parseHost :: "string \<Rightarrow> url_error + string" where
  "parseHost host =
     (if HasPrefix host ''['' then
        (case LastIndexByte CHR '']'' host of
           None \<Rightarrow> Inl MissingBracket
         | Some i \<Rightarrow>
             if \<not> validOptionalPort (drop (i + 1) host) then Inl (InvalidPort (drop (i + 1) host))
             else case Index (take i host) ''%25'' of
               None \<Rightarrow> unescape EncodeHost host
             | Some z \<Rightarrow>
                 (case unescape EncodeHost (take z host) of Inl e \<Rightarrow> Inl e
                  | Inr h1 \<Rightarrow> case unescape EncodeZone (drop z (take i host)) of Inl e \<Rightarrow> Inl e
                  | Inr h2 \<Rightarrow> case unescape EncodeHost (drop i host) of Inl e \<Rightarrow> Inl e
                  | Inr h3 \<Rightarrow> Inr (h1 @ h2 @ h3)))
      else case LastIndexByte CHR '':'' host of
          None \<Rightarrow> unescape EncodeHost host
        | Some i \<Rightarrow>
            if \<not> validOptionalPort (drop i host) then Inl (InvalidPort (drop i host))
            else unescape EncodeHost host)"

definition validUserinfo :: "string \<Rightarrow> bool" where
  "validUserinfo s = list_all (\<lambda>c. isAlnum c \<or> c \<in> set (''-._:~!$&()*+,;=%@'' @ [CHR 0x27])) s"

definition parseAuthority :: "string \<Rightarrow> url_error + ((string \<times> string option) option \<times> string)" where
  "parseAuthority authority =
     (case LastIndexByte CHR ''@'' authority of
        None \<Rightarrow> (case parseHost authority of Inl e \<Rightarrow> Inl e | Inr host \<Rightarrow> Inr (None, host))
      | Some i \<Rightarrow>
          (case parseHost (drop (i + 1) authority) of
             Inl e \<Rightarrow> Inl e
           | Inr host \<Rightarrow>
               (let userinfo = take i authority in
                if \<not> validUserinfo userinfo then Inl InvalidUserinfo
                else case Cut CHR '':'' userinfo of (username, password, found) \<Rightarrow>
                  (case unescape EncodeUserPassword username of Inl e \<Rightarrow> Inl e
                   | Inr u \<Rightarrow>
                       if \<not> found then Inr (Some (u, None), host)
                       else case unescape EncodeUserPassword password of Inl e \<Rightarrow> Inl e
                         | Inr p \<Rightarrow> Inr (Some (u, Some p), host)))))"

definition splitQuery :: "string \<Rightarrow> string \<times> bool \<times> string" where
  "splitQuery rest =
     (if HasSuffix rest ''?'' \<and> count_list rest CHR ''?'' = 1 then (butlast rest, True, [])
      else case Cut CHR ''?'' rest of (r, q, _) \<Rightarrow> (r, False, q))"

definition parseHierarchy :: "URL \<Rightarrow> string \<Rightarrow> url_error + URL" where
  "parseHierarchy url rest =
     (let auth = (if HasPrefix rest ''//'' \<and> (uScheme url \<noteq> [] \<or> \<not> HasPrefix rest ''///'') then
          (case IndexByte CHR ''/'' (drop 2 rest) of
             None \<Rightarrow> Some (drop 2 rest, [])
           | Some i \<Rightarrow> Some (take i (drop 2 rest), drop i (drop 2 rest)))
        else None)
      in case auth of
        None \<Rightarrow>
          (case unescape EncodePath rest of
             Inl e \<Rightarrow> Inl e
           | Inr p \<Rightarrow> Inr (url\<lparr>uPath := p, uRawPath := rawForm EncodePath rest p,
                            uOmitHost := (uScheme url \<noteq> [] \<and> HasPrefix rest ''/'')\<rparr>))
      | Some (authority, path) \<Rightarrow>
          (case parseAuthority authority of Inl e \<Rightarrow> Inl e
           | Inr (user, host) \<Rightarrow>
               (case unescape EncodePath path of Inl e \<Rightarrow> Inl e
                | Inr p \<Rightarrow> Inr (url\<lparr>uUser := user, uHost := host, uPath := p, uRawPath := rawForm EncodePath path p\<rparr>))))"

definition parseRef :: "golib \<Rightarrow> string \<Rightarrow> url_error + URL" where
  "parseRef L raw =
     (if stringContainsCTLByte raw then Inl ControlCharacter
      else if raw = ''*'' then Inr (emptyURL\<lparr>uPath := ''*''\<rparr>)
      else case getScheme raw of
        Inl e \<Rightarrow> Inl e
      | Inr (scheme, rest0) \<Rightarrow>
          (case splitQuery rest0 of (rest, force, query) \<Rightarrow>
             (let url = emptyURL\<lparr>uScheme := ToLower L scheme, uForceQuery := force, uRawQuery := query\<rparr> in
              if \<not> HasPrefix rest ''/'' \<and> uScheme url \<noteq> [] then Inr (url\<lparr>uOpaque := rest\<rparr>)
              else if \<not> HasPrefix rest ''/'' \<and> CHR '':'' \<in> set (fst (Cut CHR ''/'' rest)) then Inl ColonInSegment
              else parseHierarchy url rest)))"

text \<open>The parsed URL, or the string that the error message quotes and the error.\<close>

definition ParseURL :: "golib \<Rightarrow> string \<Rightarrow> (string \<times> url_error) + URL" where
  "ParseURL L raw =
     (case Cut CHR ''#'' raw of (u, frag, _) \<Rightarrow>
        (case parseRef L u of
           Inl e \<Rightarrow> Inl (u, e)
         | Inr url \<Rightarrow>
             if frag = [] then Inr url
             else case unescape EncodeFragment frag of
               Inl e \<Rightarrow> Inl (raw, e)
             | Inr f \<Rightarrow> Inr (url\<lparr>uFragment := f, uRawFragment := rawForm EncodeFragment frag f\<rparr>)))"

fun urlErrorText :: "golib \<Rightarrow> url_error \<Rightarrow> string" where
  "urlErrorText L (EscapeError s) = ''invalid URL escape '' @ Quote L s"
| "urlErrorText L (InvalidHostError s) = ''invalid character '' @ Quote L s @ '' in host name''"
| "urlErrorText L MissingScheme = ''missing protocol scheme''"
| "urlErrorText L ControlCharacter = ''net/url: invalid control character in URL''"
| "urlErrorText L ColonInSegment = ''first path segment in URL cannot contain colon''"
| "urlErrorText L MissingBracket = ''missing '' @ [CHR 0x27] @ '']'' @ [CHR 0x27] @ '' in host''"
| "urlErrorText L (InvalidPort s) = ''invalid port '' @ Quote L s @ '' after host''"
| "urlErrorText L InvalidUserinfo = ''net/url: invalid userinfo''"

definition URLError :: "golib \<Rightarrow> string \<times> url_error \<Rightarrow> string" where
  "URLError L e = ''parse '' @ Quote L (fst e) @ '': '' @ urlErrorText L (snd e)"

section \<open>Printing\<close>

definition validEncoded :: "encoding \<Rightarrow> string \<Rightarrow> bool" where
  "validEncoded mode s =
     list_all (\<lambda>c. c \<in> set (''!$&()*+,;=:@[]%'' @ [CHR 0x27]) \<or> \<not> shouldEscape mode c) s"

definition escapedForm :: "encoding \<Rightarrow> string \<Rightarrow> string \<Rightarrow> string" where
  "escapedForm mode raw decoded =
     (if raw \<noteq> [] \<and> validEncoded mode raw \<and> unescape mode raw = Inr decoded then raw else escape mode decoded)"

definition EscapedPath :: "URL \<Rightarrow> string" where
  "EscapedPath u =
     (if uRawPath u \<noteq> [] \<and> validEncoded EncodePath (uRawPath u) \<and> unescape EncodePath (uRawPath u) = Inr (uPath u) then uRawPath u
      else if uPath u = ''*'' then ''*'' else escape EncodePath (uPath u))"

definition userinfoString :: "string \<times> string option \<Rightarrow> string" where
  "userinfoString ui = escape EncodeUserPassword (fst ui)
     @ (case snd ui of None \<Rightarrow> [] | Some p \<Rightarrow> '':'' @ escape EncodeUserPassword p)"

definition hierString :: "URL \<Rightarrow> string" where
  "hierString u =
     (let auth =
        (if uScheme u \<noteq> [] \<or> uHost u \<noteq> [] \<or> uUser u \<noteq> None then
           (if uOmitHost u \<and> uHost u = [] \<and> uUser u = None then []
            else (if uHost u \<noteq> [] \<or> uPath u \<noteq> [] \<or> uUser u \<noteq> None then ''//'' else [])
                 @ (case uUser u of None \<Rightarrow> [] | Some ui \<Rightarrow> userinfoString ui @ ''@'')
                 @ escape EncodeHost (uHost u))
         else []);
        path = EscapedPath u;
        slash = (if path \<noteq> [] \<and> hd path \<noteq> CHR ''/'' \<and> uHost u \<noteq> [] then ''/'' else []);
        dot = (if uScheme u = [] \<and> auth = [] \<and> slash = [] \<and> CHR '':'' \<in> set (fst (Cut (CHR ''/'') path)) then ''./'' else [])
      in auth @ slash @ dot @ path)"

text \<open>\<^verbatim>\<open>URL.String\<close>.\<close>

definition URLString :: "URL \<Rightarrow> string" where
  "URLString u =
     (if uScheme u \<noteq> [] then uScheme u @ '':'' else [])
     @ (if uOpaque u \<noteq> [] then uOpaque u else hierString u)
     @ (if uForceQuery u \<or> uRawQuery u \<noteq> [] then ''?'' @ uRawQuery u else [])
     @ (if uFragment u \<noteq> [] then ''#'' @ escapedForm EncodeFragment (uRawFragment u) (uFragment u) else [])"

section \<open>Host and port\<close>

text \<open>\<^verbatim>\<open>splitHostPort\<close>: brackets around the host are removed, an invalid port is none.\<close>

definition splitHostPort :: "string \<Rightarrow> string \<times> string" where
  "splitHostPort hostPort =
     (let (host, port) =
        (case LastIndexByte CHR '':'' hostPort of
           Some i \<Rightarrow> if validOptionalPort (drop i hostPort) then (take i hostPort, drop (i + 1) hostPort)
                     else (hostPort, [])
         | None \<Rightarrow> (hostPort, []))
      in (if HasPrefix host ''['' \<and> HasSuffix host '']'' then (butlast (tl host), port) else (host, port)))"

definition Hostname :: "URL \<Rightarrow> string" where
  "Hostname u = fst (splitHostPort (uHost u))"

definition PortOf :: "URL \<Rightarrow> string" where
  "PortOf u = snd (splitHostPort (uHost u))"

end
