(* ===== verification/Validation.thy ===== *)
theory Validation
  imports Wire GoUrl
begin

text \<open>
  The validation of a configuration, \<^verbatim>\<open>src/pkg/config/validation.go\<close>.  A Go \<^verbatim>\<open>error\<close> that is nil or a
  \<^verbatim>\<open>ConfigValidationError\<close> is an \<open>option\<close> of its message; a sequence of checks, each of which returns
  on its first error, is \<open>first_error\<close> of the list of their results.  \<^verbatim>\<open>ValidateServerConfig\<close> fills in
  defaults and normalises the host names of the configuration it is given, so it returns the
  configuration too, also next to an error.
\<close>

section \<open>Names and addresses\<close>

fun first_error :: "'e option list \<Rightarrow> 'e option" where
  "first_error [] = None"
| "first_error (None # es) = first_error es"
| "first_error (Some e # es) = Some e"

lemma first_error_None [simp]: "first_error es = None \<longleftrightarrow> (\<forall>e\<in>set es. e = None)"
  by (induction es rule: first_error.induct) auto

text \<open>\<^verbatim>\<open>labelRegex\<close>: one word character, or one followed by at most 61 more and an alphanumeric one.\<close>

definition isWordChar :: "char \<Rightarrow> bool" where
  "isWordChar c = (isAlnum c \<or> c = CHR ''_'')"

definition labelRegex :: "string \<Rightarrow> bool" where
  "labelRegex part =
     (case part of [] \<Rightarrow> False
      | c # cs \<Rightarrow> isWordChar c
          \<and> (cs = [] \<or> length (butlast cs) \<le> 61 \<and> list_all (\<lambda>c. isWordChar c \<or> c = CHR ''-'') (butlast cs)
               \<and> isAlnum (last cs)))"

definition headerNameRegex :: "string \<Rightarrow> bool" where
  "headerNameRegex s = (s \<noteq> [] \<and> list_all (\<lambda>c. isAlnum c \<or> c = CHR ''-'') s)"

definition IsValidHostname :: "string \<Rightarrow> bool" where
  "IsValidHostname hostname =
     (if length hostname > 253 \<or> length hostname = 0 then False
      else
       (let parts = Split CHR ''.'' hostname in
        if length parts > 16 then False
        else list_all (\<lambda>part. \<not> (length part = 0 \<or> length part > 63 \<or> \<not> labelRegex part)) parts))"

definition IsValidIPv4 :: "string \<Rightarrow> bool" where
  "IsValidIPv4 ip = (case ParseIP ip of None \<Rightarrow> False | Some parsed \<Rightarrow> To4 parsed \<noteq> None)"

definition IsValidIPv6 :: "string \<Rightarrow> bool" where
  "IsValidIPv6 ip = (case ParseIP ip of None \<Rightarrow> False | Some parsed \<Rightarrow> To4 parsed = None)"

text \<open>The address classes of package \<^verbatim>\<open>net\<close>.\<close>

definition IsLoopback :: "bytes \<Rightarrow> bool" where
  "IsLoopback ip = (case To4 ip of Some ip4 \<Rightarrow> ip4 ! 0 = 127 | None \<Rightarrow> ip = replicate 15 0 @ [1])"

definition IsLinkLocalUnicast :: "bytes \<Rightarrow> bool" where
  "IsLinkLocalUnicast ip =
     (case To4 ip of Some ip4 \<Rightarrow> ip4 ! 0 = 169 \<and> ip4 ! 1 = 254
      | None \<Rightarrow> length ip = 16 \<and> ip ! 0 = 0xfe \<and> ip ! 1 AND 0xc0 = 0x80)"

definition IsLinkLocalMulticast :: "bytes \<Rightarrow> bool" where
  "IsLinkLocalMulticast ip =
     (case To4 ip of Some ip4 \<Rightarrow> ip4 ! 0 = 224 \<and> ip4 ! 1 = 0 \<and> ip4 ! 2 = 0
      | None \<Rightarrow> length ip = 16 \<and> ip ! 0 = 0xff \<and> ip ! 1 AND 0x0f = 0x02)"

definition IsPrivateOrLoopbackIP :: "golib \<Rightarrow> string \<Rightarrow> bool" where
  "IsPrivateOrLoopbackIP L ipStr =
     (case ParseIP ipStr of
        None \<Rightarrow> True
      | Some ip \<Rightarrow>
          if IsLoopback ip \<or> IsLinkLocalUnicast ip \<or> IsLinkLocalMulticast ip then True
          else case To4 ip of
            Some ip4 \<Rightarrow> ip4 ! 0 = 10 \<or> (ip4 ! 0 = 172 \<and> ip4 ! 1 \<ge> 16 \<and> ip4 ! 1 \<le> 31)
              \<or> (ip4 ! 0 = 192 \<and> ip4 ! 1 = 168) \<or> ip4 ! 0 = 100 \<and> (ip4 ! 1 \<ge> 64 \<and> ip4 ! 1 \<le> 127)
          | None \<Rightarrow> HasPrefix (ToLower L (IPString ip)) ''fc00:'' \<or> HasPrefix (ToLower L (IPString ip)) ''fd00:'')"

section \<open>Records and host sections\<close>

definition ValidatePort :: "int \<Rightarrow> string option" where
  "ValidatePort port =
     (if port < 1 \<or> port > 65535 then Some (''invalid port: '' @ itoa_int port @ '' (must be 1-65535)'') else None)"

definition hasCRLF :: "string \<Rightarrow> bool" where
  "hasCRLF s = ContainsAny s [CHR 0x0D, CHR 0x0A]"

fun validateChunks :: "string list \<Rightarrow> nat \<Rightarrow> string option" where
  "validateChunks [] totalLen =
     (if totalLen > 2048 then Some ''aggregate TXT record data size exceeds 2048 bytes'' else None)"
| "validateChunks (d # ds) totalLen =
     (if length d > 255 then Some ''TXT record data chunk exceeds 255 bytes''
      else if hasCRLF d then Some ''TXT record data contains CRLF''
      else validateChunks ds (totalLen + length d))"

definition bad16 :: "int option \<Rightarrow> bool" where
  "bad16 p = (case p of None \<Rightarrow> True | Some v \<Rightarrow> v < 0 \<or> v > 65535)"

definition ValidateDnsRecord :: "DnsRecord \<Rightarrow> string option" where
  "ValidateDnsRecord r =
     (if drType r = ''A'' then
        (if \<not> IsValidIPv4 (drAddress r) then Some (''invalid IPv4 address: '' @ drAddress r) else None)
      else if drType r = ''AAAA'' then
        (if \<not> IsValidIPv6 (drAddress r) then Some (''invalid IPv6 address: '' @ drAddress r) else None)
      else if drType r = ''CNAME'' \<or> drType r = ''NS'' \<or> drType r = ''PTR'' then
        (if \<not> IsValidHostname (drTarget r)
         then Some (''invalid hostname target for '' @ drType r @ '': '' @ drTarget r) else None)
      else if drType r = ''TXT'' then
        (if length (drData r) = 0 then Some ''TXT record must contain data''
         else if length (drData r) > 128 then Some ''TXT record chunks density exceeds allocation boundary policy''
         else validateChunks (drData r) 0)
      else if drType r = ''MX'' then
        (if \<not> IsValidHostname (drExchange r) then Some (''invalid MX exchange: '' @ drExchange r)
         else if bad16 (drPriority r) then Some ''invalid MX priority'' else None)
      else if drType r = ''SRV'' then
        (if \<not> IsValidHostname (drTarget r) then Some (''invalid SRV target: '' @ drTarget r)
         else if bad16 (drPriority r) then Some ''invalid SRV priority''
         else if bad16 (drWeight r) then Some ''invalid SRV weight''
         else case drPort r of None \<Rightarrow> Some ''invalid SRV port'' | Some port \<Rightarrow> ValidatePort port)
      else Some (''unsupported DNS record type: '' @ drType r))"

definition ValidateTls :: "TlsConfig option \<Rightarrow> string option" where
  "ValidateTls tls =
     (case tls of None \<Rightarrow> None
      | Some tls \<Rightarrow>
          if length (tcCert tls) = 0 then Some ''TLS cert cannot be empty''
          else if length (tcKey tls) = 0 then Some ''TLS key cannot be empty''
          else if tcServerName tls \<noteq> [] \<and> \<not> IsValidHostname (tcServerName tls)
          then Some (''invalid TLS serverName: '' @ tcServerName tls)
          else None)"

definition validateHeader :: "string \<times> string \<Rightarrow> string option" where
  "validateHeader = (\<lambda>(k, v).
     if length k > 256 \<or> \<not> headerNameRegex k then Some (''invalid proxy header name: '' @ k)
     else if hasCRLF v then Some (''proxy header '' @ k @ '' contains CRLF'')
     else if length v > 8192 then Some (''proxy header '' @ k @ '' is too long'')
     else None)"

definition validateUpstream :: "golib \<Rightarrow> string \<Rightarrow> string option" where
  "validateUpstream L upstream =
     (if length upstream = 0
      then Some (''HTTP proxy requires '' @ [CHR 0x27] @ ''upstream'' @ [CHR 0x27] @ '' URL when enabled'')
      else if hasCRLF upstream then Some ''HTTP proxy upstream URL contains CRLF''
      else if length upstream > 8192 then Some ''HTTP proxy upstream URL too long''
      else case ParseURL L upstream of
        Inl err \<Rightarrow> Some (''failed to parse upstream URL: '' @ URLError L err)
      | Inr _ \<Rightarrow> None)"

definition ValidateHttpProxy :: "golib \<Rightarrow> HttpProxyConfig option \<Rightarrow> string option" where
  "ValidateHttpProxy L hp =
     (case hp of None \<Rightarrow> None
      | Some hp \<Rightarrow> first_error
          ([if hpEnabled hp then validateUpstream L (hpUpstream hp) else None,
            if length (hpHeaders hp) > 64 then Some ''HTTP proxy metadata boundary capacity exceeded'' else None]
           @ map validateHeader (hpHeaders hp)
           @ [if hpMaxRequestBodyBytes hp < -1
              then Some ''invalid maxRequestBodyBytes value (must be >= -1, where 0 or -1 disables the limit)'' else None,
              ValidateTls (hpClientTls hp)]))"

definition ValidateTlsProxy :: "TlsProxyConfig option \<Rightarrow> string option" where
  "ValidateTlsProxy tp =
     (case tp of None \<Rightarrow> None
      | Some tp \<Rightarrow> first_error
          [if tpTargetPort tp \<noteq> 0 then ValidatePort (tpTargetPort tp) else None,
           if tpTargetIp tp \<noteq> [] \<and> \<not> IsValidIPv4 (tpTargetIp tp) \<and> \<not> IsValidIPv6 (tpTargetIp tp)
           then Some (''invalid TLS proxy target IP: '' @ tpTargetIp tp) else None])"

definition ValidateRedirect :: "golib \<Rightarrow> RedirectConfig option \<Rightarrow> string option" where
  "ValidateRedirect L rc =
     (case rc of None \<Rightarrow> None
      | Some rc \<Rightarrow>
          if \<not> rcEnabled rc then None
          else if rcCode rc \<notin> {301, 302, 303, 307, 308}
          then Some (''invalid redirect status code: '' @ itoa_int (rcCode rc))
          else if hasCRLF (rcTarget rc) then Some ''redirect target URL contains CRLF''
          else if length (rcTarget rc) > 8192 then Some ''redirect target URL too long''
          else case ParseURL L (rcTarget rc) of
            Inl _ \<Rightarrow> Some (''invalid redirect target URL: '' @ rcTarget rc)
          | Inr parsed \<Rightarrow>
              if uScheme parsed = [] \<or> uHost parsed = []
              then Some (''invalid redirect target URL: '' @ rcTarget rc) else None)"

section \<open>The server configuration\<close>

definition validAddress :: "string \<Rightarrow> bool" where
  "validAddress ip = (IsValidIPv4 ip \<or> IsValidIPv6 ip)"

definition validateFirewall :: "FirewallConfig \<Rightarrow> string option" where
  "validateFirewall f = first_error
     ([if DefaultPolicy f \<noteq> ''allow'' \<and> DefaultPolicy f \<noteq> ''deny''
       then Some (''invalid firewall defaultPolicy: '' @ DefaultPolicy f) else None,
       if length (AllowlistDomains f) > 1000 \<or> length (BlocklistDomains f) > 1000
       then Some ''firewall domain metadata count policy limit violation'' else None]
      @ map (\<lambda>d. if length d > 253 then Some ''firewall domain too long'' else None)
          (AllowlistDomains f @ BlocklistDomains f)
      @ [if length (AllowlistRanges f) > 1000 \<or> length (BlocklistRanges f) > 1000
         then Some ''firewall network range capacity limit violation'' else None]
      @ map (\<lambda>r. if ParseCIDR r = None then Some (''invalid firewall allowlist CIDR: '' @ r) else None)
          (AllowlistRanges f)
      @ map (\<lambda>r. if ParseCIDR r = None then Some (''invalid firewall blocklist CIDR: '' @ r) else None)
          (BlocklistRanges f)
      @ [if length (AllowlistIps f) > 1000 \<or> length (BlocklistIps f) > 1000
         then Some ''firewall address registry size limit violation'' else None]
      @ map (\<lambda>ip. if \<not> validAddress ip then Some (''invalid firewall allowlist IP: '' @ ip) else None)
          (AllowlistIps f)
      @ map (\<lambda>ip. if \<not> validAddress ip then Some (''invalid firewall blocklist IP: '' @ ip) else None)
          (BlocklistIps f))"

definition validateListeners :: "ServerConfig \<Rightarrow> string option" where
  "validateListeners c = first_error
     ([ValidatePort (scPort c)]
      @ map (\<lambda>p. case p of None \<Rightarrow> None | Some port \<Rightarrow> ValidatePort port)
          [scHttpPort c, scHttpsPort c, scDotPort c, scDohPort c]
      @ [if scFallbackDns c \<noteq> [] \<and> \<not> IsValidIPv4 (scFallbackDns c)
         then Some (''invalid fallback DNS: '' @ scFallbackDns c @ '' (must be IPv4)'') else None,
         ValidateTls (scTls c),
         case scFirewall c of None \<Rightarrow> None | Some f \<Rightarrow> validateFirewall f,
         case scControlPlane c of None \<Rightarrow> None
         | Some cp \<Rightarrow> if cpPort cp \<noteq> 0 then first_error [ValidatePort (cpPort cp), ValidateTls (cpTls cp)] else None])"

text \<open>A setting whose zero value stands for a default: in range, defaulted, or refused.\<close>

definition limitOr :: "int \<Rightarrow> int \<Rightarrow> int \<Rightarrow> int \<Rightarrow> int option" where
  "limitOr lo hi dflt v = (if v < lo \<or> v > hi then (if v = 0 then Some dflt else None) else Some v)"

definition validateLimits :: "ServerConfig \<Rightarrow> string option \<times> ServerConfig" where
  "validateLimits c =
     (case limitOr 1 100000 1024 (scDnsCacheMaxSize c) of
        None \<Rightarrow> (Some ''invalid dnsCacheMaxSize (1-100000)'', c)
      | Some cacheSize \<Rightarrow>
     (let c = c\<lparr>scDnsCacheMaxSize := cacheSize\<rparr> in
      if scDnsCacheTtlMs c < 0 \<or> scDnsCacheTtlMs c > 3600000 then (Some ''invalid dnsCacheTtlMs (0-3600000)'', c)
      else case limitOr 1 10000 100 (scMaxTcpConnections c) of
        None \<Rightarrow> (Some ''invalid maxTcpConnections (1-10000)'', c)
      | Some conns \<Rightarrow>
     (let c = c\<lparr>scMaxTcpConnections := conns\<rparr> in
      case limitOr 1000 600000 30000 (scTcpIdleTimeoutMs c) of
        None \<Rightarrow> (Some ''invalid tcpIdleTimeoutMs (1000-600000)'', c)
      | Some idle \<Rightarrow>
     (let c = c\<lparr>scTcpIdleTimeoutMs := idle\<rparr> in
      if scRateLimitMaxRequests c < 0 \<or> scRateLimitMaxRequests c > 100000
      then (Some ''invalid rateLimitMaxRequests (0-100000)'', c)
      else case limitOr 100 60000 1000 (scRateLimitWindowMs c) of
        None \<Rightarrow> (Some ''invalid rateLimitWindowMs (100-60000)'', c)
      | Some window \<Rightarrow> (None, c\<lparr>scRateLimitWindowMs := window\<rparr>)))))"

definition normalizeKey :: "golib \<Rightarrow> string \<Rightarrow> string" where
  "normalizeKey L key = ToLower L (TrimSuffix key ''.'')"

definition validateKey :: "string \<Rightarrow> string \<Rightarrow> string option" where
  "validateKey key normalized =
     (if normalized = ''*'' then None
      else if HasPrefix normalized ''*.'' then
        (if \<not> IsValidHostname (drop 2 normalized)
         then Some (''invalid wildcard host in configuration key: '' @ key) else None)
      else if \<not> IsValidHostname normalized then Some (''invalid hostname in configuration key: '' @ key)
      else None)"

definition validateHost :: "golib \<Rightarrow> string \<Rightarrow> HostConfig \<Rightarrow> string option" where
  "validateHost L key hc = first_error
     ([validateKey key (normalizeKey L key),
       if length (hcRecords hc) > 64
       then Some ''maximum records density capacity exceeded per routing label unit'' else None]
      @ map ValidateDnsRecord (hcRecords hc)
      @ [ValidateHttpProxy L (hcHttpProxy hc), ValidateTlsProxy (hcTlsProxy hc), ValidateRedirect L (hcRedirect hc)])"

fun normalizeHosts ::
  "golib \<Rightarrow> (string, HostConfig) gomap \<Rightarrow> (string, HostConfig) gomap \<Rightarrow> string + (string, HostConfig) gomap" where
  "normalizeHosts L [] normalizedHosts = Inr normalizedHosts"
| "normalizeHosts L ((key, hc) # rest) normalizedHosts =
     (case validateHost L key hc of
        Some err \<Rightarrow> Inl err
      | None \<Rightarrow> normalizeHosts L rest (map_put (normalizeKey L key) hc normalizedHosts))"

definition ValidateServerConfig :: "golib \<Rightarrow> ServerConfig \<Rightarrow> string option \<times> ServerConfig" where
  "ValidateServerConfig L c =
     (case validateListeners c of
        Some err \<Rightarrow> (Some err, c)
      | None \<Rightarrow>
          (case validateLimits c of
             (Some err, c) \<Rightarrow> (Some err, c)
           | (None, c) \<Rightarrow>
               if length (scHosts c) > 5000 then (Some ''hosts mapping allocation policy volume violation'', c)
               else case normalizeHosts L (scHosts c) [] of
                 Inl err \<Rightarrow> (Some err, c)
               | Inr hosts \<Rightarrow> (None, c\<lparr>scHosts := hosts\<rparr>)))"

text \<open>\<^verbatim>\<open>json.Unmarshal\<close> is a parameter: the decoded configuration or the text of an error.\<close>

definition ParseServerConfig ::
  "golib \<Rightarrow> (bytes \<Rightarrow> string + ServerConfig) \<Rightarrow> bytes \<Rightarrow> string + ServerConfig" where
  "ParseServerConfig L unmarshal data =
     (case unmarshal data of
        Inl err \<Rightarrow> Inl err
      | Inr c \<Rightarrow>
          (case ValidateServerConfig L c of (Some err, _) \<Rightarrow> Inl err | (None, c) \<Rightarrow> Inr c))"

section \<open>Valid names\<close>

lemma isWordChar_ascii: "isWordChar c \<Longrightarrow> code c < 128 \<and> c \<noteq> CHR ''.''"
  by (auto simp: isWordChar_def isAlnum_def)

lemma labelRegex_chars:
  assumes "labelRegex p" "c \<in> set p"
  shows "isWordChar c \<or> c = CHR ''-''"
proof -
  from assms(1) obtain a cs where p: "p = a # cs" "isWordChar a"
      "cs = [] \<or> list_all (\<lambda>c. isWordChar c \<or> c = CHR ''-'') (butlast cs) \<and> isAlnum (last cs)"
    by (auto simp: labelRegex_def split: list.splits)
  show ?thesis
  proof (cases "cs = []")
    case False
    then have "set cs = insert (last cs) (set (butlast cs))"
      by (metis append_butlast_last_id insert_is_Un list.simps(15) set_append sup_commute empty_set)
    with p False assms(2) show ?thesis by (auto simp: list_all_iff isWordChar_def)
  qed (use p assms(2) in simp)
qed

lemma IsValidHostname_parts:
  assumes "IsValidHostname h" "p \<in> set (Split CHR ''.'' h)"
  shows "0 < length p \<and> length p \<le> 63 \<and> labelRegex p"
  using assms by (auto simp: IsValidHostname_def Let_def list_all_iff split: if_splits)

lemma set_Split: "set s \<subseteq> insert c (\<Union> (set ` set (Split c s)))"
proof -
  have "set (Join [c] (Split c s)) \<subseteq> \<Union> (set ` set (Split c s)) \<union> set [c]" by (rule set_Join)
  then show ?thesis by auto
qed

lemma IsValidHostname_chars:
  assumes "IsValidHostname h" "c \<in> set h"
  shows "isWordChar c \<or> c = CHR ''-'' \<or> c = CHR ''.''"
  using set_Split [of h "CHR ''.''"] IsValidHostname_parts [OF assms(1)] labelRegex_chars assms(2) by blast

lemma IsValidHostname_ascii: "IsValidHostname h \<Longrightarrow> isASCII h"
  using isWordChar_ascii by (auto simp: isASCII_def list_all_iff dest!: IsValidHostname_chars)

lemma IsValidHostname_wire: "IsValidHostname h \<Longrightarrow> wire_labels (Split CHR ''.'' h)"
  using IsValidHostname_parts by (auto simp: wire_labels_def)

lemma IsValidHostname_no_dot: "IsValidHostname h \<Longrightarrow> \<not> HasSuffix h ''.''"
proof
  assume h: "IsValidHostname h" "HasSuffix h ''.''"
  then obtain u where "h = u @ CHR ''.'' # []" by (auto simp: HasSuffix_iff)
  then have "[] \<in> set (Split CHR ''.'' h)" by (simp only: Split_append) simp
  with IsValidHostname_parts [OF h(1)] show False by force
qed

section \<open>Normalised keys\<close>

text \<open>No rune above 127 has an upper-case ASCII letter as its lower case.\<close>

definition lower_ok :: "golib \<Rightarrow> bool" where
  "lower_ok L \<longleftrightarrow> (\<forall>r\<ge>128. \<not> (65 \<le> uniLower L r \<and> uniLower L r \<le> 90))"

lemma encode_rune_upper:
  assumes "b \<in> set (encode_rune r)" "65 \<le> b mod 256" "b mod 256 \<le> 90"
  shows "b = r \<and> r < 128"
proof -
  have byte: "128 \<le> x \<Longrightarrow> x < 256 \<Longrightarrow> \<not> x mod 256 \<le> 90" for x :: nat by simp
  have d: "r div 64 < 32" if "r < 2048" using that by (simp add: div_less_iff_less_mult)
  have e: "r div 4096 < 16" if "r < 65536" using that by (simp add: div_less_iff_less_mult)
  have f: "r div 262144 < 5" if "r \<le> 1114111" using that by (simp add: div_less_iff_less_mult)
  have "n mod 64 < 64" for n :: nat by simp
  with assms byte d e f show ?thesis
    by (auto simp: encode_rune_def not_less split: if_splits)
qed

lemma ToLower_no_upper:
  assumes "lower_ok L" "c \<in> set (ToLower L s)"
  shows "\<not> (65 \<le> code c \<and> code c \<le> 90)"
proof (cases "isASCII s")
  case True
  with assms(2) show ?thesis by (auto simp: ToLower_def isASCII_def list_all_iff ascii_lower_def split: if_splits)
next
  case False
  with assms(2) obtain b r where b: "c = char_of b" "b \<in> set (encode_rune (rune_lower L r))"
    by (auto simp: ToLower_def string_of_runes_def)
  show ?thesis
  proof
    assume "65 \<le> code c \<and> code c \<le> 90"
    then have up: "65 \<le> b mod 256" "b mod 256 \<le> 90" using b(1) by auto
    with encode_rune_upper [OF b(2)] have "b = rune_lower L r" "b < 128" by simp_all
    with up assms(1) show False
      by (auto simp: rune_lower_def lower_ok_def ascii_lower_def not_less split: if_splits)
  qed
qed

lemma validateKey_shape:
  assumes "validateKey key k = None"
  shows "isASCII k \<and> \<not> HasSuffix k ''.''"
proof -
  consider "k = ''*''" | h where "k = ''*.'' @ h" "IsValidHostname h" | "IsValidHostname k"
    using assms by (auto simp: validateKey_def HasPrefix_iff split: if_splits)
  then show ?thesis
  proof cases
    case 1
    then show ?thesis by (simp add: isASCII_def HasSuffix_def)
  next
    case 2
    then have "h \<noteq> []" by (auto simp: IsValidHostname_def)
    with 2 IsValidHostname_no_dot [of h] IsValidHostname_ascii [of h] show ?thesis
      by (auto simp: isASCII_def HasSuffix_iff append_eq_append_conv2 Cons_eq_append_conv)
  next
    case 3
    then show ?thesis by (simp add: IsValidHostname_ascii IsValidHostname_no_dot)
  qed
qed

lemma normalizeKey_fixed:
  assumes "lower_ok L" "validateKey key (normalizeKey L key) = None"
  shows "normalizeKey L (normalizeKey L key) = normalizeKey L key"
proof -
  let ?k = "normalizeKey L key"
  have "isASCII ?k" "\<not> HasSuffix ?k ''.''" using validateKey_shape [OF assms(2)] by simp_all
  moreover have "\<not> (65 \<le> code c \<and> code c \<le> 90)" if "c \<in> set ?k" for c
    using ToLower_no_upper [OF assms(1)] that by (simp add: normalizeKey_def)
  ultimately have "ToLower L ?k = ?k" "TrimSuffix ?k ''.'' = ?k"
    by (auto simp: isASCII_def list_all_iff TrimSuffix_id intro!: ToLower_fixed)
  then show ?thesis by (simp add: normalizeKey_def [of L ?k])
qed

lemma validateKey_None: "validateKey key k = None \<longleftrightarrow> validateKey k k = None"
  by (auto simp: validateKey_def)

lemma validateHost_normalized:
  assumes "lower_ok L" "validateHost L key hc = None"
  shows "validateHost L (normalizeKey L key) hc = None"
proof -
  have "validateKey key (normalizeKey L key) = None" using assms(2) by (simp add: validateHost_def)
  with normalizeKey_fixed [OF assms(1) this] assms(2) show ?thesis
    by (simp add: validateHost_def validateKey_None [of key])
qed

lemma map_put_fresh: "k \<notin> fst ` set m \<Longrightarrow> map_put k v m = m @ [(k, v)]"
  by (induction m) auto

definition host_ok :: "golib \<Rightarrow> string \<times> HostConfig \<Rightarrow> bool" where
  "host_ok L = (\<lambda>(k, hc). normalizeKey L k = k \<and> validateHost L k hc = None)"

lemma normalizeHosts_fixed:
  "list_all (host_ok L) hs \<Longrightarrow> distinct (map fst (acc @ hs)) \<Longrightarrow> normalizeHosts L hs acc = Inr (acc @ hs)"
  by (induction L hs acc rule: normalizeHosts.induct) (auto simp: host_ok_def map_put_fresh image_iff)

lemma set_map_put: "set (map_put k v m) \<subseteq> insert (k, v) (set m)"
  by (induction m) (auto split: if_splits)

lemma normalizeHosts_ok:
  assumes "normalizeHosts L hs acc = Inr r" "lower_ok L" "list_all (host_ok L) acc" "map_wf acc"
  shows "list_all (host_ok L) r \<and> map_wf r \<and> length r \<le> length acc + length hs"
  using assms
proof (induction L hs acc rule: normalizeHosts.induct)
  case (2 L key hc rest acc)
  from 2(2) have v: "validateHost L key hc = None"
    and rest: "normalizeHosts L rest (map_put (normalizeKey L key) hc acc) = Inr r"
    by (auto split: option.splits)
  have "validateKey key (normalizeKey L key) = None" using v by (simp add: validateHost_def)
  then have "host_ok L (normalizeKey L key, hc)"
    using validateHost_normalized [OF 2(3) v] normalizeKey_fixed [OF 2(3)] by (simp add: host_ok_def)
  then have "list_all (host_ok L) (map_put (normalizeKey L key) hc acc)"
    using 2(4) set_map_put [of "normalizeKey L key" hc acc] by (auto simp: list_all_iff)
  from 2(1) [OF v rest 2(3) this] 2(5) show ?case by (auto simp: length_put split: if_splits)
qed auto

section \<open>Accepted settings\<close>

lemma limitOr_Some:
  "limitOr lo hi d v = Some w \<Longrightarrow> lo \<le> d \<Longrightarrow> d \<le> hi \<Longrightarrow> lo \<le> w \<and> w \<le> hi \<and> (w = v \<or> v = 0 \<and> w = d)"
  by (auto simp: limitOr_def split: if_splits)

lemma limitOr_fixed: "lo \<le> w \<Longrightarrow> w \<le> hi \<Longrightarrow> limitOr lo hi d w = Some w"
  by (simp add: limitOr_def)

definition limits_ok :: "ServerConfig \<Rightarrow> bool" where
  "limits_ok c \<longleftrightarrow> 1 \<le> scDnsCacheMaxSize c \<and> scDnsCacheMaxSize c \<le> 100000
     \<and> 0 \<le> scDnsCacheTtlMs c \<and> scDnsCacheTtlMs c \<le> 3600000
     \<and> 1 \<le> scMaxTcpConnections c \<and> scMaxTcpConnections c \<le> 10000
     \<and> 1000 \<le> scTcpIdleTimeoutMs c \<and> scTcpIdleTimeoutMs c \<le> 600000
     \<and> 0 \<le> scRateLimitMaxRequests c \<and> scRateLimitMaxRequests c \<le> 100000
     \<and> 100 \<le> scRateLimitWindowMs c \<and> scRateLimitWindowMs c \<le> 60000"

definition with_default :: "int \<Rightarrow> int \<Rightarrow> int" where
  "with_default d v = (if v = 0 then d else v)"

lemma limitOr_default: "limitOr lo hi d v = Some w \<Longrightarrow> 0 < lo \<Longrightarrow> w = with_default d v"
  by (auto simp: limitOr_def with_default_def split: if_splits)

lemma validateLimits_None:
  assumes "validateLimits c = (None, c')"
  shows "limits_ok c' \<and> c' = c\<lparr>scDnsCacheMaxSize := with_default 1024 (scDnsCacheMaxSize c),
      scMaxTcpConnections := with_default 100 (scMaxTcpConnections c),
      scTcpIdleTimeoutMs := with_default 30000 (scTcpIdleTimeoutMs c),
      scRateLimitWindowMs := with_default 1000 (scRateLimitWindowMs c)\<rparr>"
proof -
  obtain s n i w where lim: "limitOr 1 100000 1024 (scDnsCacheMaxSize c) = Some s"
      "limitOr 1 10000 100 (scMaxTcpConnections c) = Some n"
      "limitOr 1000 600000 30000 (scTcpIdleTimeoutMs c) = Some i"
      "limitOr 100 60000 1000 (scRateLimitWindowMs c) = Some w"
    and rng: "\<not> (scDnsCacheTtlMs c < 0 \<or> scDnsCacheTtlMs c > 3600000)"
      "\<not> (scRateLimitMaxRequests c < 0 \<or> scRateLimitMaxRequests c > 100000)"
    and c': "c' = c\<lparr>scDnsCacheMaxSize := s, scMaxTcpConnections := n, scTcpIdleTimeoutMs := i,
        scRateLimitWindowMs := w\<rparr>"
    using assms by (simp add: validateLimits_def Let_def split: option.splits if_splits)
  have "limits_ok c'"
    using limitOr_Some [OF lim(1)] limitOr_Some [OF lim(2)] limitOr_Some [OF lim(3)] limitOr_Some [OF lim(4)] rng
    by (simp add: limits_ok_def c')
  moreover have "s = with_default 1024 (scDnsCacheMaxSize c)" "n = with_default 100 (scMaxTcpConnections c)"
      "i = with_default 30000 (scTcpIdleTimeoutMs c)" "w = with_default 1000 (scRateLimitWindowMs c)"
    using limitOr_default [OF lim(1)] limitOr_default [OF lim(2)] limitOr_default [OF lim(3)]
      limitOr_default [OF lim(4)] by simp_all
  ultimately show ?thesis using c' by simp
qed

lemma validateLimits_fixed: "limits_ok c \<Longrightarrow> validateLimits c = (None, c)"
  by (simp add: validateLimits_def limits_ok_def limitOr_fixed Let_def not_less)

lemma validateListeners_upd [simp]:
  "validateListeners (c\<lparr>scHosts := h\<rparr>) = validateListeners c"
  "validateListeners (c\<lparr>scDnsCacheMaxSize := s\<rparr>) = validateListeners c"
  "validateListeners (c\<lparr>scMaxTcpConnections := n\<rparr>) = validateListeners c"
  "validateListeners (c\<lparr>scTcpIdleTimeoutMs := i\<rparr>) = validateListeners c"
  "validateListeners (c\<lparr>scRateLimitWindowMs := w\<rparr>) = validateListeners c"
  by (simp_all add: validateListeners_def)

lemma limits_ok_hosts [simp]: "limits_ok (c\<lparr>scHosts := h\<rparr>) = limits_ok c"
  by (simp add: limits_ok_def)

text \<open>What an accepted configuration went through.\<close>

lemma ValidateServerConfig_None:
  assumes "ValidateServerConfig L c = (None, c')"
  obtains c1 hosts where "validateListeners c = None" "validateLimits c = (None, c1)"
    "length (scHosts c) \<le> 5000" "normalizeHosts L (scHosts c) [] = Inr hosts" "c' = c1\<lparr>scHosts := hosts\<rparr>"
proof -
  have *: "scHosts c1 = scHosts c" if "validateLimits c = (None, c1)" for c1
    using validateLimits_None [OF that] by simp
  from assms show ?thesis
    by (auto simp: ValidateServerConfig_def not_less * intro: that split: option.splits prod.splits if_splits sum.splits)
qed

text \<open>
  An accepted configuration differs from the submitted one only in the four settings whose zero
  stands for a default and in its host table; its settings are in the documented ranges and its ports
  can be listened on.
\<close>

theorem ValidateServerConfig_settings:
  assumes "ValidateServerConfig L c = (None, c')"
  shows "c' = c\<lparr>scDnsCacheMaxSize := with_default 1024 (scDnsCacheMaxSize c),
        scMaxTcpConnections := with_default 100 (scMaxTcpConnections c),
        scTcpIdleTimeoutMs := with_default 30000 (scTcpIdleTimeoutMs c),
        scRateLimitWindowMs := with_default 1000 (scRateLimitWindowMs c), scHosts := scHosts c'\<rparr>
    \<and> limits_ok c' \<and> length (scHosts c) \<le> 5000
    \<and> list_all (\<lambda>port. 1 \<le> port \<and> port \<le> 65535)
        (scPort c' # concat (map (\<lambda>p. case p of None \<Rightarrow> [] | Some port \<Rightarrow> [port])
           [scHttpPort c', scHttpsPort c', scDotPort c', scDohPort c']))"
proof -
  from assms obtain c1 hosts where v: "validateListeners c = None" "validateLimits c = (None, c1)"
      "length (scHosts c) \<le> 5000" and c': "c' = c1\<lparr>scHosts := hosts\<rparr>"
    by (rule ValidateServerConfig_None)
  note c1 = validateLimits_None [OF v(2)]
  have port: "ValidatePort p = None \<longleftrightarrow> 1 \<le> p \<and> p \<le> 65535" for p by (auto simp: ValidatePort_def)
  have "limits_ok c'" using c1 [THEN conjunct1] by (simp add: c')
  moreover from v(1) have "list_all (\<lambda>port. 1 \<le> port \<and> port \<le> 65535)
        (scPort c # concat (map (\<lambda>p. case p of None \<Rightarrow> [] | Some port \<Rightarrow> [port])
           [scHttpPort c, scHttpsPort c, scDotPort c, scDohPort c]))"
    by (auto simp: validateListeners_def port split: option.splits)
  ultimately show ?thesis using c1 v(3) by (simp add: c')
qed

lemma hosts_accepted:
  assumes "ValidateServerConfig L c = (None, c')" "lower_ok L"
  shows "list_all (host_ok L) (scHosts c') \<and> map_wf (scHosts c') \<and> length (scHosts c') \<le> 5000"
proof -
  from assms(1) obtain c1 hosts where "length (scHosts c) \<le> 5000"
      "normalizeHosts L (scHosts c) [] = Inr hosts" "c' = c1\<lparr>scHosts := hosts\<rparr>"
    by (rule ValidateServerConfig_None)
  with normalizeHosts_ok [OF this(2) assms(2)] show ?thesis by simp
qed

text \<open>
  Validation is idempotent: an accepted configuration is accepted again, unchanged.  So the
  configuration the control plane writes back to disk after accepting it loads as it was stored.
\<close>

theorem ValidateServerConfig_idempotent:
  assumes "ValidateServerConfig L c = (None, c')" "lower_ok L"
  shows "ValidateServerConfig L c' = (None, c')"
proof -
  from assms(1) obtain c1 hosts where v: "validateListeners c = None" "validateLimits c = (None, c1)"
      and c': "c' = c1\<lparr>scHosts := hosts\<rparr>"
    by (rule ValidateServerConfig_None)
  note c1 = validateLimits_None [OF v(2)]
  note hosts = hosts_accepted [OF assms]
  have "validateListeners c1 = validateListeners c" by (subst c1 [THEN conjunct2]) simp
  then have "validateListeners c' = None" using v(1) by (simp add: c')
  moreover have "limits_ok c'" using c1 [THEN conjunct1] by (simp add: c')
  moreover have "normalizeHosts L (scHosts c') [] = Inr (scHosts c')"
    using normalizeHosts_fixed [of L "scHosts c'" "[]"] hosts by (simp add: map_wf_def)
  ultimately show ?thesis using hosts by (simp add: ValidateServerConfig_def validateLimits_fixed)
qed

text \<open>The names that the answers built from a record carry.\<close>

definition record_names :: "DnsRecord \<Rightarrow> string list" where
  "record_names r =
     (if drType r \<in> {''CNAME'', ''NS'', ''PTR'', ''SRV''} then [drTarget r]
      else if drType r = ''MX'' then [drExchange r] else [])"

lemma record_names_valid: "ValidateDnsRecord r = None \<Longrightarrow> n \<in> set (record_names r) \<Longrightarrow> IsValidHostname n"
  by (auto simp: ValidateDnsRecord_def record_names_def split: if_splits)


definition example_config :: ServerConfig where
  "example_config =
     \<lparr>scPort = 53, scHttpPort = Some 80, scHttpsPort = None, scTls = None, scDotPort = None, scDohPort = None,
      scFallbackDns = ''1.1.1.1'', scFirewall = None, scControlPlane = None, scDnsCacheMaxSize = 0,
      scDnsCacheTtlMs = 60000, scMaxTcpConnections = 0, scTcpIdleTimeoutMs = 0, scRateLimitMaxRequests = 100,
      scRateLimitWindowMs = 0, scUpstreamHttpProxy = [], scUpstreamHttpsProxy = [], scUpstreamNoProxy = [],
      scHosts = [(''WWW.a.io.'', \<lparr>hcRecords =
        [\<lparr>drType = ''CNAME'', drAddress = [], drTarget = ''b.io'', drData = [], drPriority = None,
          drExchange = [], drWeight = None, drPort = None\<rparr>],
        hcHttpProxy = None, hcTlsProxy = None, hcRedirect = None\<rparr>)]\<rparr>"

definition example_accepted :: ServerConfig where
  "example_accepted = example_config\<lparr>scDnsCacheMaxSize := 1024, scMaxTcpConnections := 100,
     scTcpIdleTimeoutMs := 30000, scRateLimitWindowMs := 1000,
     scHosts := [(''www.a.io'', snd (hd (scHosts example_config)))]\<rparr>"

lemma example_valid: "ValidateServerConfig example_lib example_config = (None, example_accepted)"
  by code_simp

lemma lower_ok_example: "lower_ok example_lib"
  by (simp add: lower_ok_def example_lib_def)

theorem ValidateServerConfig_settings_witness:
  "limits_ok example_accepted \<and> scMaxTcpConnections example_accepted = 100"
  using ValidateServerConfig_settings [OF example_valid, THEN conjunct2, THEN conjunct1]
  by (simp add: example_accepted_def)

theorem ValidateServerConfig_idempotent_witness:
  "ValidateServerConfig example_lib example_accepted = (None, example_accepted)"
  by (rule ValidateServerConfig_idempotent [OF example_valid lower_ok_example])


text \<open>
  The test for unique local addresses compares text: it knows the two blocks fc00::/16 and fd00::/16
  of the range fc00::/7 only.
\<close>

lemma unique_local_missed: "\<not> IsPrivateOrLoopbackIP example_lib ''fd12:3456::1''"
  by code_simp

end
