(* ===== verification/GoHttp.thy ===== *)
theory GoHttp
  imports GoUrl
begin

text \<open>
  What the network front ends use of \<^verbatim>\<open>net\<close>, \<^verbatim>\<open>net/url\<close>, \<^verbatim>\<open>net/http\<close> and \<^verbatim>\<open>encoding/base64\<close>:
  \<open>SplitHostPort\<close>, the values of a query string, header fields, and the URL alphabet of base64 with
  and without padding.
\<close>

section \<open>Addresses\<close>

text \<open>\<^verbatim>\<open>net.SplitHostPort\<close>; every error leaves both results empty.\<close>

definition SplitHostPort :: "string \<Rightarrow> (string \<times> string) option" where
  "SplitHostPort hostport =
     (case LastIndexByte (CHR '':'') hostport of
        None \<Rightarrow> None
      | Some i \<Rightarrow>
          if hd hostport = CHR ''['' then
            (case IndexByte (CHR '']'') hostport of
               None \<Rightarrow> None
             | Some e \<Rightarrow>
                 if e + 1 \<noteq> i then None
                 else if CHR ''['' \<in> set (drop 1 hostport) \<or> CHR '']'' \<in> set (drop (e + 1) hostport) then None
                 else Some (drop 1 (take e hostport), drop (i + 1) hostport))
          else if CHR '':'' \<in> set (take i hostport) then None
          else if CHR ''['' \<in> set hostport \<or> CHR '']'' \<in> set hostport then None
          else Some (take i hostport, drop (i + 1) hostport))"

definition hostOf :: "string \<Rightarrow> string" where
  "hostOf hostport = (case SplitHostPort hostport of None \<Rightarrow> [] | Some (host, _) \<Rightarrow> host)"

section \<open>Query strings\<close>

definition QueryUnescape :: "string \<Rightarrow> string option" where
  "QueryUnescape s =
     (case unescape EncodeFragment (map (\<lambda>c. if c = CHR ''+'' then CHR '' '' else c) s) of
        Inl _ \<Rightarrow> None | Inr t \<Rightarrow> Some t)"

definition queryField :: "string \<Rightarrow> (string \<times> string) list" where
  "queryField field =
     (if CHR '';'' \<in> set field \<or> field = [] then []
      else case Cut (CHR ''='') field of
        (k, v, _) \<Rightarrow>
          (case (QueryUnescape k, QueryUnescape v) of (Some k, Some v) \<Rightarrow> [(k, v)] | _ \<Rightarrow> []))"

definition ParseQuery :: "string \<Rightarrow> (string \<times> string) list" where
  "ParseQuery rawQuery = concat (map queryField (Split (CHR ''&'') rawQuery))"

text \<open>\<^verbatim>\<open>Values.Get\<close>: the first value, or the empty string.\<close>

definition QueryGet :: "string \<Rightarrow> string \<Rightarrow> string" where
  "QueryGet rawQuery key = (case map_of (ParseQuery rawQuery) key of None \<Rightarrow> [] | Some v \<Rightarrow> v)"

section \<open>Base64\<close>

definition url64_val :: "char \<Rightarrow> nat option" where
  "url64_val c =
     (if 65 \<le> code c \<and> code c \<le> 90 then Some (code c - 65)
      else if 97 \<le> code c \<and> code c \<le> 122 then Some (code c - 71)
      else if 48 \<le> code c \<and> code c \<le> 57 then Some (code c + 4)
      else if c = CHR ''-'' then Some 62
      else if c = CHR ''_'' then Some 63
      else None)"

text \<open>
  One quantum of two, three or four digits; the surplus bits of a short quantum are dropped, as the
  decoder is not strict.
\<close>

definition quantum :: "string \<Rightarrow> bytes option" where
  "quantum ds =
     (if list_all (\<lambda>d. url64_val d \<noteq> None) ds then
        (let v = foldl (\<lambda>acc d. acc * 64 + the (url64_val d)) 0 ds * 64 ^ (4 - length ds)
         in Some (take (length ds - 1) [of_nat (v div 65536), of_nat (v div 256), of_nat v]))
      else None)"

fun decodeQuanta :: "bool \<Rightarrow> string \<Rightarrow> bytes option" where
  "decodeQuanta padded (a # b # c # d # rest) =
     (if padded \<and> d = CHR ''='' then
        (if rest \<noteq> [] then None else quantum (if c = CHR ''='' then [a, b] else [a, b, c]))
      else case quantum [a, b, c, d] of
        None \<Rightarrow> None
      | Some bs \<Rightarrow> map_option (\<lambda>r. bs @ r) (decodeQuanta padded rest))"
| "decodeQuanta padded ds =
     (if ds = [] then Some [] else if padded \<or> length ds = 1 then None else quantum ds)"

definition DecodeURL64 :: "bool \<Rightarrow> string \<Rightarrow> bytes option" where
  "DecodeURL64 padded s = decodeQuanta padded (filter (\<lambda>c. code c \<noteq> 10 \<and> code c \<noteq> 13) s)"

text \<open>The encoder, for the round trip.\<close>

definition url64_digit :: "nat \<Rightarrow> char" where
  "url64_digit n =
     (if n < 26 then char_of (n + 65) else if n < 52 then char_of (n + 71) else if n < 62 then char_of (n - 4)
      else if n = 62 then CHR ''-'' else CHR ''_'')"

fun EncodeURL64 :: "bytes \<Rightarrow> string" where
  "EncodeURL64 (a # b # c # rest) =
     (let v = unat a * 65536 + unat b * 256 + unat c
      in [url64_digit (v div 262144), url64_digit (v div 4096 mod 64), url64_digit (v div 64 mod 64), url64_digit (v mod 64)]
         @ EncodeURL64 rest)"
| "EncodeURL64 [a, b] =
     (let v = unat a * 256 + unat b
      in [url64_digit (v div 1024), url64_digit (v div 16 mod 64), url64_digit (v mod 16 * 4)])"
| "EncodeURL64 [a] = [url64_digit (unat a div 4), url64_digit (unat a mod 4 * 16)]"
| "EncodeURL64 [] = []"

section \<open>Headers\<close>

text \<open>
  A header maps a key to its values; \<open>CanonicalKey\<close> is \<^verbatim>\<open>textproto.CanonicalMIMEHeaderKey\<close>, which
  capitalises the words of a key and leaves a key with a byte outside the token characters alone.
\<close>

type_synonym Header = "(string \<times> string list) list"

definition tokenChar :: "char \<Rightarrow> bool" where
  "tokenChar c = (isAlnum c \<or> c \<in> set (''!#$%&*+-.^_|~'' @ [CHR 0x27, CHR 0x60]))"

fun canonicalFrom :: "bool \<Rightarrow> string \<Rightarrow> string" where
  "canonicalFrom up [] = []"
| "canonicalFrom up (c # cs) =
     (if up \<and> 97 \<le> code c \<and> code c \<le> 122 then char_of (code c - 32)
      else if \<not> up \<and> 65 \<le> code c \<and> code c \<le> 90 then char_of (code c + 32) else c) # canonicalFrom (c = CHR ''-'') cs"

definition CanonicalKey :: "string \<Rightarrow> string" where
  "CanonicalKey key = (if list_all tokenChar key then canonicalFrom True key else key)"

definition HeaderGet :: "string \<Rightarrow> Header \<Rightarrow> string" where
  "HeaderGet key hs = (case map_of hs (CanonicalKey key) of Some (v # _) \<Rightarrow> v | _ \<Rightarrow> [])"

fun headerPut :: "string \<Rightarrow> string list \<Rightarrow> Header \<Rightarrow> Header" where
  "headerPut k vs [] = [(k, vs)]"
| "headerPut k vs ((k', vs') # hs) = (if k = k' then (k, vs) # hs else (k', vs') # headerPut k vs hs)"

definition HeaderSet :: "string \<Rightarrow> string \<Rightarrow> Header \<Rightarrow> Header" where
  "HeaderSet key value hs = headerPut (CanonicalKey key) [value] hs"

lemma map_of_headerPut [simp]: "map_of (headerPut k vs hs) k' = (if k' = k then Some vs else map_of hs k')"
  by (induction hs) auto

record HttpResponse =
  respStatus :: int
  respHeaders :: Header
  respBody :: bytes

definition statusOnly :: "int \<Rightarrow> HttpResponse" where
  "statusOnly n = \<lparr>respStatus = n, respHeaders = [], respBody = []\<rparr>"

section \<open>Response writers\<close>

text \<open>
  A \<^verbatim>\<open>http.ResponseWriter\<close>: the header map the handler fills, what the first \<^verbatim>\<open>WriteHeader\<close> has sent of
  it, and the body.  An informational status is sent without ending the header, a second final one is
  ignored, and one outside 100 to 999 panics.
\<close>

record ResponseWriter =
  rwHeader :: Header
  rwSent :: "(int \<times> Header) option"
  rwBody :: bytes

definition newWriter :: ResponseWriter where
  "newWriter = \<lparr>rwHeader = [], rwSent = None, rwBody = []\<rparr>"

definition SetHeader :: "string \<Rightarrow> string \<Rightarrow> ResponseWriter \<Rightarrow> ResponseWriter" where
  "SetHeader key value w = w\<lparr>rwHeader := HeaderSet key value (rwHeader w)\<rparr>"

definition WriteHeader :: "int \<Rightarrow> ResponseWriter \<Rightarrow> ResponseWriter outcome" where
  "WriteHeader status w =
     (if status < 100 \<or> status > 999 then Panic
      else if rwSent w \<noteq> None \<or> (100 \<le> status \<and> status \<le> 199 \<and> status \<noteq> 101) then Ret w
      else Ret (w\<lparr>rwSent := Some (status, rwHeader w)\<rparr>))"

definition WriteBody :: "bytes \<Rightarrow> ResponseWriter \<Rightarrow> ResponseWriter" where
  "WriteBody b w =
     (let w = (if rwSent w = None then w\<lparr>rwSent := Some (200, rwHeader w)\<rparr> else w) in w\<lparr>rwBody := rwBody w @ b\<rparr>)"

text \<open>A reply with a fixed status in range.\<close>

definition reply :: "int \<Rightarrow> string \<Rightarrow> ResponseWriter \<Rightarrow> ResponseWriter" where
  "reply status body w = (case WriteHeader status w of Panic \<Rightarrow> w | Ret w \<Rightarrow> if body = [] then w else WriteBody (bytes_of body) w)"

end
