(* ===== verification/HttpProxy.thy ===== *)
theory HttpProxy
  imports Circuit Firewall Crypto GoHttp
begin

text \<open>
  The HTTP proxy, \<^verbatim>\<open>src/pkg/proxy/http.go\<close>: the virtual listener the TLS proxy hands connections to, the
  table of circuit breakers, loop tokens, host lookup, the firewall checks on a target, CONNECT
  tunnels, redirects, the reverse and forward proxy, and the choice of an upstream proxy.

  A request runs against an environment that holds what it reads from the outside: name resolution,
  the clock, files, the process environment's proxy, the peers' answers.  Its results are what it
  writes to the client, the connections it opens, the logger calls and the new state; a panic, which
  the server of \<^verbatim>\<open>net/http\<close> recovers so that the state stays, is a flag of the result.
\<close>

section \<open>State\<close>

record VirtualListener =
  conns :: "nat list"
  vlClosed :: bool

definition NewVirtualListener :: VirtualListener where
  "NewVirtualListener = \<lparr>conns = [], vlClosed = False\<rparr>"

text \<open>\<^verbatim>\<open>Accept\<close> waits (none) on an empty open channel; a closed one still hands out what it holds.\<close>

definition VirtualAccept :: "VirtualListener \<Rightarrow> (string + nat) option \<times> VirtualListener" where
  "VirtualAccept v =
     (case conns v of
        c # cs \<Rightarrow> (Some (Inr c), v\<lparr>conns := cs\<rparr>)
      | [] \<Rightarrow> (if vlClosed v then Some (Inl ''use of closed network connection'') else None, v))"

definition VirtualClose :: "VirtualListener \<Rightarrow> VirtualListener" where
  "VirtualClose v = (if vlClosed v then v else v\<lparr>vlClosed := True\<rparr>)"

record HttpHandler =
  hhCfg :: ServerConfig
  hhPort :: int
  hhIdleTimeout :: int
  hhServer :: bool
  VListener :: VirtualListener
  circuitBreakers :: "(string, nat) gomap"
  breakerStore :: "ProxyCircuitBreaker list"
  activeConns :: "nat list"
  loopSecret :: string
  hhStop :: bool

definition NewHttpHandler :: "bytes \<Rightarrow> ServerConfig \<Rightarrow> HttpHandler" where
  "NewHttpHandler secretBytes cfg =
     \<lparr>hhCfg = cfg, hhPort = (case scHttpPort cfg of None \<Rightarrow> 80 | Some p \<Rightarrow> p),
      hhIdleTimeout = (if scTcpIdleTimeoutMs cfg > 0 then scTcpIdleTimeoutMs cfg * 1000000 else 30 * 1000000000),
      hhServer = False, VListener = NewVirtualListener, circuitBreakers = [], breakerStore = [], activeConns = [],
      loopSecret = EncodeToString secretBytes, hhStop = False\<rparr>"

definition HttpUpdateConfig :: "ServerConfig \<Rightarrow> HttpHandler \<Rightarrow> HttpHandler" where
  "HttpUpdateConfig newCfg h =
     (let h = h\<lparr>hhCfg := newCfg\<rparr>;
          h = (case scHttpPort newCfg of None \<Rightarrow> h | Some p \<Rightarrow> h\<lparr>hhPort := p\<rparr>)
      in if scTcpIdleTimeoutMs newCfg > 0 then h\<lparr>hhIdleTimeout := scTcpIdleTimeoutMs newCfg * 1000000\<rparr> else h)"

text \<open>The callback \<^verbatim>\<open>ConnState\<close> for the states it looks at.\<close>

definition connState :: "nat \<Rightarrow> bool \<Rightarrow> HttpHandler \<Rightarrow> HttpHandler" where
  "connState conn isNew h =
     (if isNew then h\<lparr>activeConns := List.insert conn (activeConns h)\<rparr>
      else h\<lparr>activeConns := removeAll conn (activeConns h)\<rparr>)"

text \<open>The errors with which the two servers end, none for a regular close.\<close>

definition HttpStart :: "string option \<Rightarrow> string option \<Rightarrow> HttpHandler \<Rightarrow> audit_call list \<times> HttpHandler" where
  "HttpStart listenErr virtErr h =
     ((case listenErr of None \<Rightarrow> [] | Some e \<Rightarrow> [LogError (''HTTP Proxy server execution fault: '' @ e)])
      @ (case virtErr of None \<Rightarrow> [] | Some e \<Rightarrow> [LogError (''Virtual HTTPS server execution fault: '' @ e)]),
      h\<lparr>hhServer := True\<rparr>)"

definition HttpStop :: "HttpHandler \<Rightarrow> HttpHandler outcome" where
  "HttpStop h =
     (if hhStop h then Panic
      else Ret (h\<lparr>hhStop := True, hhServer := False, VListener := VirtualClose (VListener h)\<rparr>))"

text \<open>
  A full table loses the key the iteration of the map comes to first, \<open>first\<close> (any key of the table);
  the breaker of a host is created on demand.
\<close>

definition evictBreaker :: "string \<Rightarrow> (string, nat) gomap \<Rightarrow> (string, nat) gomap" where
  "evictBreaker first m =
     (if length m \<ge> 10000 then map_del (if map_of m first = None then fst (hd m) else first) m else m)"

definition getCircuitBreaker :: "string \<Rightarrow> string \<Rightarrow> HttpHandler \<Rightarrow> nat \<times> HttpHandler" where
  "getCircuitBreaker first upstreamHost h =
     (let m = evictBreaker first (circuitBreakers h) in
      case map_of m upstreamHost of
        Some ref \<Rightarrow> (ref, h\<lparr>circuitBreakers := m\<rparr>)
      | None \<Rightarrow>
          (length (breakerStore h),
           h\<lparr>circuitBreakers := map_put upstreamHost (length (breakerStore h)) m,
             breakerStore := breakerStore h @ [NewProxyCircuitBreaker upstreamHost]\<rparr>))"

section \<open>Loop tokens\<close>

definition normalizeUrlPath :: "string \<Rightarrow> string" where
  "normalizeUrlPath urlStr = TrimSuffix urlStr ''?''"

definition loopMac :: "string \<Rightarrow> string \<Rightarrow> string \<Rightarrow> int \<Rightarrow> string" where
  "loopMac secret target clientIp window =
     EncodeToString (HmacSha256 (bytes_of secret) (bytes_of (target @ '':'' @ clientIp @ '':'' @ itoa_int window)))"

definition generateLoopToken :: "int \<Rightarrow> string \<Rightarrow> string \<Rightarrow> HttpHandler \<Rightarrow> string" where
  "generateLoopToken unix urlStr clientIp h = loopMac (loopSecret h) (normalizeUrlPath urlStr) clientIp (unix div 60)"

definition verifyLoopToken :: "int \<Rightarrow> string \<Rightarrow> string \<Rightarrow> string \<Rightarrow> HttpHandler \<Rightarrow> bool" where
  "verifyLoopToken unix token urlStr clientIp h =
     (let target = normalizeUrlPath urlStr; window = unix div 60 in
      token = loopMac (loopSecret h) target clientIp window \<or> token = loopMac (loopSecret h) target clientIp (window - 1))"

section \<open>Hosts and targets\<close>

definition normalizedName :: "golib \<Rightarrow> string \<Rightarrow> string" where
  "normalizedName L hostname = ToLower L (TrimSuffix hostname ''.'')"

fun wildcardFrom :: "(string, HostConfig) gomap \<Rightarrow> string list \<Rightarrow> HostConfig option" where
  "wildcardFrom hosts (l # l' # ls) =
     (case map_of hosts (''*.'' @ Join ''.'' (l # l' # ls)) of
        Some hc \<Rightarrow> Some hc
      | None \<Rightarrow> wildcardFrom hosts (l' # ls))"
| "wildcardFrom hosts ls = None"

definition findWildcardHost :: "golib \<Rightarrow> ServerConfig \<Rightarrow> string \<Rightarrow> HostConfig option" where
  "findWildcardHost L cfg hostname = wildcardFrom (scHosts cfg) (Split (CHR ''.'') (normalizedName L hostname))"

definition lookupHostConfig :: "golib \<Rightarrow> ServerConfig \<Rightarrow> string \<Rightarrow> HostConfig option" where
  "lookupHostConfig L cfg hostname =
     (case map_of (scHosts cfg) (normalizedName L hostname) of
        Some hc \<Rightarrow> Some hc
      | None \<Rightarrow> findWildcardHost L cfg hostname)"

definition recordIps :: "HostConfig \<Rightarrow> string list" where
  "recordIps hc = map drAddress (filter (\<lambda>r. drType r = ''A'' \<or> drType r = ''AAAA'') (hcRecords hc))"

definition resolveHost ::
  "golib \<Rightarrow> (string \<Rightarrow> string + string list) \<Rightarrow> string \<Rightarrow> ServerConfig \<Rightarrow> string + string list" where
  "resolveHost L lookup hostname cfg =
     (case lookupHostConfig L cfg hostname of
        Some hc \<Rightarrow> if recordIps hc \<noteq> [] then Inr (recordIps hc) else lookup hostname
      | None \<Rightarrow> lookup hostname)"

fun checkTargets :: "golib \<Rightarrow> FirewallConfig option \<Rightarrow> string list \<Rightarrow> string option" where
  "checkTargets L fw [] = None"
| "checkTargets L fw (ip # ips) =
     (if EvaluateOutbound L ip fw = ''DENY'' then Some (''Restricted IP: ('' @ ip @ '')'')
      else if EvaluateIp ip fw = ''DENY'' then Some (''IP Blocked: '' @ ip)
      else checkTargets L fw ips)"

definition quoted :: "string \<Rightarrow> string" where
  "quoted s = [CHR 0x27] @ s @ [CHR 0x27]"

definition validateTargetFirewall ::
  "golib \<Rightarrow> (string \<Rightarrow> string + string list) \<Rightarrow> string \<Rightarrow> ServerConfig \<Rightarrow> string + string list" where
  "validateTargetFirewall L lookup targetUrl cfg =
     (case ParseURL L targetUrl of
        Inl e \<Rightarrow> Inl (URLError L e)
      | Inr parsed \<Rightarrow>
         (let host = Hostname parsed; isLiteralIp = (ParseIP host \<noteq> None); fw = scFirewall cfg in
          if fw \<noteq> None \<and> \<not> isLiteralIp \<and> EvaluateDomain L host fw = ''DENY'' then Inl (''Domain Blocked: '' @ quoted host)
          else
           (case (if isLiteralIp then Inr [host] else resolveHost L lookup host cfg) of
              Inl _ \<Rightarrow> Inl (''Resolution Fault: '' @ quoted host)
            | Inr targetIps \<Rightarrow>
                if targetIps = [] then Inl (''NXDOMAIN: '' @ quoted host)
                else case checkTargets L fw targetIps of
                  Some err \<Rightarrow> Inl err
                | None \<Rightarrow> Inr targetIps)))"

definition sanitizeHeader :: "string \<Rightarrow> string + string" where
  "sanitizeHeader value =
     (if length value > 8192 then Inl ''header value too long''
      else case find (\<lambda>r. r < 32 \<or> r = 127) (runes value) of
        None \<Rightarrow> Inr value
      | Some r \<Rightarrow> if r = 13 \<or> r = 10 \<or> r = 9 then Inl ''contains CR/LF/HT'' else Inl ''contains control characters'')"

section \<open>Upstream proxies\<close>

fun noProxyMatch :: "golib \<Rightarrow> string \<Rightarrow> string list \<Rightarrow> bool" where
  "noProxyMatch L hostname [] = False"
| "noProxyMatch L hostname (p # ps) =
     (let pattern = TrimSpace (ToLower L p) in
      if pattern = [] then noProxyMatch L hostname ps
      else if pattern = ''*'' then True
      else if HasPrefix pattern ''.'' then
        (if HasSuffix hostname pattern \<or> hostname = drop 1 pattern then True else noProxyMatch L hostname ps)
      else (if hostname = pattern \<or> HasSuffix hostname (''.'' @ pattern) then True else noProxyMatch L hostname ps))"

definition getUpstreamProxy ::
  "golib \<Rightarrow> (URL \<Rightarrow> string + URL option) \<Rightarrow> URL \<Rightarrow> HttpHandler \<Rightarrow> string + URL option" where
  "getUpstreamProxy L fromEnvironment targetUrl h =
     (let proxyStr = (if ToLower L (uScheme targetUrl) = ''https'' then scUpstreamHttpsProxy (hhCfg h)
                      else scUpstreamHttpProxy (hhCfg h));
          noProxyStr = scUpstreamNoProxy (hhCfg h)
      in if proxyStr = [] then fromEnvironment targetUrl
         else if noProxyStr \<noteq> [] \<and> noProxyMatch L (ToLower L (Hostname targetUrl)) (Split (CHR '','') noProxyStr) then Inr None
         else case ParseURL L proxyStr of
           Inl e \<Rightarrow> Inl (URLError L e)
         | Inr u \<Rightarrow> Inr (Some u))"

section \<open>TLS for upstream connections\<close>

record ClientTlsConfig =
  ctCert :: "bytes \<times> bytes"
  ctServerName :: string
  ctRootCAs :: "bytes option"

definition proxyTlsMaterial :: "(string \<Rightarrow> string + bytes) \<Rightarrow> string \<Rightarrow> string + bytes" where
  "proxyTlsMaterial readFile data = (if Contains data ''-----BEGIN'' then Inr (bytes_of data) else readFile data)"

text \<open>\<open>keyPair\<close> is the error of \<^verbatim>\<open>tls.X509KeyPair\<close>, if any, and \<open>appendCerts\<close> whether a pool takes certificates.\<close>

definition proxyLoadTls ::
  "(string \<Rightarrow> string + bytes) \<Rightarrow> (bytes \<Rightarrow> bytes \<Rightarrow> string option) \<Rightarrow> (bytes \<Rightarrow> bool) \<Rightarrow> TlsConfig \<Rightarrow> string + ClientTlsConfig" where
  "proxyLoadTls readFile keyPair appendCerts tc =
     (case proxyTlsMaterial readFile (tcCert tc) of
        Inl err \<Rightarrow> Inl (''failed to read cert: '' @ err)
      | Inr certBytes \<Rightarrow>
          (case proxyTlsMaterial readFile (tcKey tc) of
             Inl err \<Rightarrow> Inl (''failed to read key: '' @ err)
           | Inr keyBytes \<Rightarrow>
               (case keyPair certBytes keyBytes of
                  Some err \<Rightarrow> Inl err
                | None \<Rightarrow>
                   (let tlsCfg = \<lparr>ctCert = (certBytes, keyBytes), ctServerName = tcServerName tc, ctRootCAs = None\<rparr> in
                    if tcCa tc \<noteq> [] then
                      (case proxyTlsMaterial readFile (tcCa tc) of
                         Inl _ \<Rightarrow> Inr tlsCfg
                       | Inr caBytes \<Rightarrow> Inr (if appendCerts caBytes then tlsCfg\<lparr>ctRootCAs := Some caBytes\<rparr> else tlsCfg))
                    else Inr tlsCfg))))"

section \<open>Requests and their environment\<close>

text \<open>The body of a request is none when the field is nil, otherwise its bytes or the error of reading it.\<close>

record HttpRequest =
  hrRemoteAddr :: string
  hrMethod :: string
  hrHost :: string
  hrPath :: string
  hrRawQuery :: string
  hrRequestURI :: string
  hrHeader :: Header
  hrBody :: "(string + bytes) option"
  hrContentLength :: int

text \<open>What the proxy asks of an upstream server, and the answer: the body arrives in chunks.\<close>

record UpstreamRequest =
  urMethod :: string
  urURL :: string
  urHost :: string
  urHeader :: Header
  urBody :: "bytes option"
  urServerName :: "string option"

record UpstreamResponse =
  upStatus :: int
  upHeader :: Header
  upChunks :: "bytes list"
  upReadErr :: "string option"

text \<open>Where a connection of the proxy goes: to an address, or to the upstream proxy.\<close>

datatype http_effect =
    DialTarget string
  | DialProxy string
  | ProxyWrite bytes
  | ClientWrite bytes
  | RoundTrip UpstreamRequest

record HttpEnv =
  heLookup :: "string \<Rightarrow> string + string list"
  heUnix :: int
  heBegin :: int
  heEnd :: int
  heFirstBreaker :: string
  heFromEnvironment :: "URL \<Rightarrow> string + URL option"
  heHijack :: bool
  heDial :: "string \<Rightarrow> string option"
  heConnect :: "bytes \<Rightarrow> string + bytes"
  heExchange :: "UpstreamRequest \<Rightarrow> string + UpstreamResponse"
  heWriteErr :: "nat \<Rightarrow> string option"
  heKey :: bytes
  heReadFile :: "string \<Rightarrow> string + bytes"
  heKeyPair :: "bytes \<Rightarrow> bytes \<Rightarrow> string option"
  heAppendCerts :: "bytes \<Rightarrow> bool"

record Served =
  sWriter :: ResponseWriter
  sEffects :: "http_effect list"
  sLog :: "audit_call list"
  sPanic :: bool

definition serveReply :: "ResponseWriter \<Rightarrow> audit_call list \<Rightarrow> Served" where
  "serveReply w log = \<lparr>sWriter = w, sEffects = [], sLog = log, sPanic = False\<rparr>"

definition panicked :: "ResponseWriter \<Rightarrow> audit_call list \<Rightarrow> Served" where
  "panicked w log = \<lparr>sWriter = w, sEffects = [], sLog = log, sPanic = True\<rparr>"

section \<open>CONNECT\<close>

definition connectRequest :: "string \<Rightarrow> string \<Rightarrow> bytes" where
  "connectRequest host portStr =
     bytes_of (''CONNECT '' @ host @ '':'' @ portStr @ '' HTTP/1.1'' @ [CHR 0x0D, CHR 0x0A] @ ''Host: '' @ host @ '':'' @ portStr
       @ [CHR 0x0D, CHR 0x0A, CHR 0x0D, CHR 0x0A])"

definition JoinHostPort :: "string \<Rightarrow> string \<Rightarrow> string" where
  "JoinHostPort host port = (if CHR '':'' \<in> set host then ''['' @ host @ '']:'' @ port else host @ '':'' @ port)"

definition firstLine :: "string \<Rightarrow> string" where
  "firstLine s = (case Index s [CHR 0x0D, CHR 0x0A] of None \<Rightarrow> s | Some i \<Rightarrow> take i s)"

text \<open>The connection to the target, through the upstream proxy when there is one: an error or none.\<close>

definition openTunnel :: "HttpEnv \<Rightarrow> (string + URL option) \<Rightarrow> string \<Rightarrow> string \<Rightarrow> string \<Rightarrow> string option \<times> http_effect list" where
  "openTunnel e proxy dialAddr host portStr =
     (case proxy of
        Inr (Some proxyURL) \<Rightarrow>
          (case heDial e (uHost proxyURL) of
             Some err \<Rightarrow> (Some err, [DialProxy (uHost proxyURL)])
           | None \<Rightarrow>
              (let effects = [DialProxy (uHost proxyURL), ProxyWrite (connectRequest host portStr)] in
               case heConnect e (connectRequest host portStr) of
                 Inl err \<Rightarrow> (Some err, effects)
               | Inr answer \<Rightarrow>
                   (let respStr = string_of (take 4096 answer) in
                    if \<not> Contains respStr ''200'' then (Some (''upstream proxy returned: '' @ firstLine respStr), effects)
                    else (None, effects))))
      | _ \<Rightarrow> (heDial e dialAddr, [DialTarget dialAddr]))"

definition httpTunnel :: "golib \<Rightarrow> HttpEnv \<Rightarrow> string \<Rightarrow> string \<Rightarrow> string \<Rightarrow> ServerConfig \<Rightarrow> HttpHandler
    \<Rightarrow> string option \<times> http_effect list \<times> audit_call list" where
  "httpTunnel L e clientIp host portStr cfg h =
     (case validateTargetFirewall L (heLookup e) (''https://'' @ host @ '':'' @ portStr) cfg of
        Inl err \<Rightarrow> (Some err, [], [])
      | Inr validatedIps \<Rightarrow>
         (let targetIp = hd validatedIps;
              log = [LogHTTP clientIp ''CONNECT'' host ('':'' @ portStr) 200 (''TCP Tunnel Established -> '' @ targetIp)];
              proxy = getUpstreamProxy L (heFromEnvironment e)
                        (emptyURL\<lparr>uScheme := ''https'', uHost := JoinHostPort host portStr\<rparr>) h
          in case openTunnel e proxy (targetIp @ '':'' @ portStr) host portStr of
               (Some err, effects) \<Rightarrow> (Some err, effects, log)
             | (None, effects) \<Rightarrow>
                 (None, effects @ [ClientWrite (bytes_of (''HTTP/1.1 200 Connection Established''
                    @ [CHR 0x0D, CHR 0x0A, CHR 0x0D, CHR 0x0A]))], log)))"

definition handleConnect :: "golib \<Rightarrow> HttpEnv \<Rightarrow> HttpRequest \<Rightarrow> ServerConfig \<Rightarrow> HttpHandler \<Rightarrow> Served" where
  "handleConnect L e r cfg h =
     (let clientIp = hostOf (hrRemoteAddr r);
          (host, portStr) = (case SplitHostPort (hrRequestURI r) of None \<Rightarrow> (hrRequestURI r, ''443'') | Some hp \<Rightarrow> hp)
      in if \<not> heHijack e then serveReply (reply 500 [] newWriter) []
         else case httpTunnel L e clientIp host portStr cfg h of
           (None, effects, log) \<Rightarrow> \<lparr>sWriter = newWriter, sEffects = effects, sLog = log, sPanic = False\<rparr>
         | (Some err, effects, log) \<Rightarrow>
             \<lparr>sWriter = newWriter,
              sEffects = effects @ [ClientWrite (bytes_of (''HTTP/1.1 403 Forbidden'' @ [CHR 0x0D, CHR 0x0A, CHR 0x0D, CHR 0x0A]))],
              sLog = log @ [LogHTTP clientIp ''CONNECT'' host ('':'' @ portStr) 403 ''Blocked by Firewall''], sPanic = False\<rparr>)"

section \<open>Faults\<close>

definition handleHttpFault :: "string \<Rightarrow> string \<Rightarrow> string \<Rightarrow> string \<Rightarrow> string \<Rightarrow> ResponseWriter \<Rightarrow> ResponseWriter \<times> audit_call list" where
  "handleHttpFault message clientIp reqMethod hostname reqUrl w =
     (let w = SetHeader ''Connection'' ''close'' (SetHeader ''Content-Type'' ''text/html'' w);
          fault = (\<lambda>status body note. (reply status body w, [LogHTTP clientIp reqMethod hostname reqUrl status note]))
      in if Contains message ''Target Offline (Circuit Breaker OPEN)'' then
           fault 503 ''<h1>503 Service Unavailable (Circuit Broken)</h1>'' ''Circuit Breaker OPEN''
         else if Contains message ''Domain Blocked'' \<or> Contains message ''Restricted IP'' \<or> Contains message ''IP Blocked''
                 \<or> Contains message ''Resolution Fault'' then
           fault 403 ''<h1>403 Forbidden</h1>'' ''Blocked for Security (SSRF/Firewall)''
         else if Contains message ''timeout'' then fault 504 ''<h1>504 Gateway Timeout</h1>'' ''Upstream Gateway Timeout''
         else fault 502 ''<h1>502 Bad Gateway</h1>'' ''Upstream Offline/Fault'')"

section \<open>The proxied exchange\<close>

definition hopByHopHeaders :: "string list" where
  "hopByHopHeaders = [''connection'', ''keep-alive'', ''proxy-authenticate'', ''proxy-authorization'', ''te'', ''trailer'',
     ''transfer-encoding'', ''upgrade'']"

definition fingerprintHeadersToScrub :: "string list" where
  "fingerprintHeadersToScrub = [''server'', ''via'', ''x-source'', ''x-powered-by'', ''x-generator'', ''cf-ray'',
     ''cf-cache-status'', ''x-cache'', ''x-cache-lookup'', ''x-drupal-cache'', ''x-varnish'', ''x-nextjs-cache'',
     ''x-fastly-request-id'', ''x-runtime'', ''x-version'', ''x-impl'', ''x-aspnet-version'', ''x-aspnetmvc-version'',
     ''microsoftofficewebserver'', ''x-powered-by-plesk'', ''x-pingback'', ''wp-super-cache'', ''x-ghost-version'']"

text \<open>The headers that go to the upstream server and the ones that come back.\<close>

definition forwardHeaders :: "golib \<Rightarrow> Header \<Rightarrow> Header" where
  "forwardHeaders L hs =
     fold (\<lambda>(k, vv) acc. if ToLower L k \<notin> set hopByHopHeaders \<and> ToLower L k \<noteq> ''content-length''
                          then headerPut k vv acc else acc) hs []"

definition returnHeaders :: "golib \<Rightarrow> Header \<Rightarrow> Header \<Rightarrow> Header" where
  "returnHeaders L hs w =
     fold (\<lambda>(k, vv) acc. if ToLower L k \<notin> set hopByHopHeaders \<and> ToLower L k \<notin> set fingerprintHeadersToScrub
                          then headerPut k vv acc else acc) hs w"

definition setHeaders :: "(string, string) gomap \<Rightarrow> Header \<Rightarrow> Header" where
  "setHeaders custom hs = fold (\<lambda>(k, v) acc. HeaderSet k v acc) custom hs"

text \<open>The parameters \<^verbatim>\<open>doHttpProxy\<close> gets from \<^verbatim>\<open>handleRequest\<close>.\<close>

record ProxyCall =
  pcTarget :: URL
  pcTargetIp :: string
  pcHostname :: string
  pcBreaker :: nat
  pcAuditUrl :: string
  pcReqHeaders :: "(string, string) gomap"
  pcResHeaders :: "(string, string) gomap"
  pcMaxBody :: int
  pcClientTls :: "ClientTlsConfig option"
  pcForwardBody :: bool

definition targetPath :: "URL \<Rightarrow> string" where
  "targetPath u = uPath u @ (if uRawQuery u \<noteq> [] then ''?'' @ uRawQuery u else [])"

definition hasBody :: "string \<Rightarrow> bool" where
  "hasBody meth = (meth \<noteq> ''GET'' \<and> meth \<noteq> ''HEAD'')"

text \<open>The body to forward: a reply that ends the request, an error of reading it, or what was read.\<close>

datatype body_result = TooLarge | BodyErr string | BodyRead "bytes option"

definition readBody :: "HttpRequest \<Rightarrow> ProxyCall \<Rightarrow> body_result" where
  "readBody r pc =
     (if pcForwardBody pc \<and> hasBody (hrMethod r) \<and> hrBody r \<noteq> None then
        (if pcMaxBody pc > 0 \<and> hrContentLength r > pcMaxBody pc then TooLarge
         else case the (hrBody r) of
           Inl err \<Rightarrow> BodyErr err
         | Inr b \<Rightarrow> BodyRead (Some (if pcMaxBody pc > 0 then take (nat (pcMaxBody pc)) b else b)))
      else BodyRead None)"

definition destPort :: "URL \<Rightarrow> string" where
  "destPort u = (if PortOf u \<noteq> [] then PortOf u else if uScheme u = ''https'' then ''443'' else ''80'')"

definition upstreamRequest :: "golib \<Rightarrow> string \<Rightarrow> HttpRequest \<Rightarrow> bytes option \<Rightarrow> ProxyCall \<Rightarrow> UpstreamRequest" where
  "upstreamRequest L loopToken r bodyBytes pc =
     (let u = pcTarget pc;
          hs = HeaderSet ''X-Ottergate-Loop'' loopToken (HeaderSet ''Host'' (uHost u) (forwardHeaders L (hrHeader r)));
          hs = (if pcForwardBody pc \<and> hasBody (hrMethod r) then
                  (let hs = HeaderSet ''X-Body-Forwarded'' ''true'' hs in
                   case bodyBytes of None \<Rightarrow> hs | Some b \<Rightarrow> HeaderSet ''X-Body-Size'' (itoa (length b)) hs)
                else hs)
      in \<lparr>urMethod = hrMethod r, urURL = URLString u, urHost = uHost u, urHeader = setHeaders (pcReqHeaders pc) hs,
          urBody = bodyBytes,
          urServerName = (if uScheme u = ''https'' then
             Some (case pcClientTls pc of
                     Some ct \<Rightarrow> if ctServerName ct = [] then pcHostname pc else ctServerName ct
                   | None \<Rightarrow> pcHostname pc) else None)\<rparr>)"

text \<open>\<^verbatim>\<open>http.NewRequestWithContext\<close> refuses a method that is not a token and a URL that does not parse.\<close>

definition newRequestError :: "golib \<Rightarrow> string \<Rightarrow> string \<Rightarrow> string option" where
  "newRequestError L meth urlStr =
     (if meth = [] \<or> \<not> list_all tokenChar meth then Some (''net/http: invalid method '' @ Quote L meth)
      else case ParseURL L urlStr of Inl e \<Rightarrow> Some (URLError L e) | Inr _ \<Rightarrow> None)"

text \<open>The loop that copies the body; \<open>i\<close> counts the writes.\<close>

fun copyBody :: "(nat \<Rightarrow> string option) \<Rightarrow> nat \<Rightarrow> bytes list \<Rightarrow> string option \<Rightarrow> ResponseWriter \<Rightarrow> string option \<times> ResponseWriter" where
  "copyBody werr i [] readErr w = (readErr, w)"
| "copyBody werr i (c # cs) readErr w =
     (if c = [] then copyBody werr i cs readErr w
      else case werr i of
        Some err \<Rightarrow> (Some err, w)
      | None \<Rightarrow> copyBody werr (i + 1) cs readErr (WriteBody c w))"

text \<open>The function given to the breaker: its error, or a panic.\<close>

definition executeProxy :: "golib \<Rightarrow> HttpEnv \<Rightarrow> string \<Rightarrow> string \<Rightarrow> HttpRequest \<Rightarrow> bytes option \<Rightarrow> ProxyCall \<Rightarrow> ResponseWriter \<Rightarrow> HttpHandler
    \<Rightarrow> string option \<times> Served" where
  "executeProxy L e clientIp loopToken r bodyBytes pc w h =
     (let u = pcTarget pc;
          dialAddr = pcTargetIp pc @ '':'' @ destPort u;
          dial = (case getUpstreamProxy L (heFromEnvironment e) u h of
                    Inr (Some p) \<Rightarrow> DialProxy (uHost p)
                  | _ \<Rightarrow> DialTarget dialAddr);
          up = upstreamRequest L loopToken r bodyBytes pc
      in case newRequestError L (hrMethod r) (URLString u) of
           Some err \<Rightarrow> (Some err, serveReply w [])
         | None \<Rightarrow>
             (case heExchange e up of
                Inl err \<Rightarrow> (Some err, (serveReply w [])\<lparr>sEffects := [dial, RoundTrip up]\<rparr>)
              | Inr resp \<Rightarrow>
                 (let w = w\<lparr>rwHeader := setHeaders (pcResHeaders pc) (returnHeaders L (upHeader resp) (rwHeader w))\<rparr> in
                  case WriteHeader (upStatus resp) w of
                    Panic \<Rightarrow> (None, (panicked w [])\<lparr>sEffects := [dial, RoundTrip up]\<rparr>)
                  | Ret w \<Rightarrow>
                      (case copyBody (heWriteErr e) 0 (upChunks resp) (upReadErr resp) w of
                         (err, w) \<Rightarrow>
                           (err, \<lparr>sWriter = w, sEffects = [dial, RoundTrip up],
                                  sLog = [LogHTTP clientIp (hrMethod r) (pcHostname pc) (uPath u) (upStatus resp) (pcAuditUrl pc)],
                                  sPanic = False\<rparr>)))))"

definition setBreaker :: "nat \<Rightarrow> ProxyCircuitBreaker \<Rightarrow> HttpHandler \<Rightarrow> HttpHandler" where
  "setBreaker ref cb h = h\<lparr>breakerStore := (breakerStore h)[ref := cb]\<rparr>"

text \<open>
  The breaker around the exchange.  A panic of the exchange leaves the second critical section of
  \<^verbatim>\<open>Execute\<close> out.
\<close>

definition doHttpProxy :: "golib \<Rightarrow> HttpEnv \<Rightarrow> HttpRequest \<Rightarrow> string \<Rightarrow> ProxyCall \<Rightarrow> ResponseWriter \<Rightarrow> HttpHandler \<Rightarrow> Served \<times> HttpHandler" where
  "doHttpProxy L e r clientIp pc w h =
     (let reqUrl = targetPath (pcTarget pc);
          loopToken = generateLoopToken (heUnix e) reqUrl clientIp h;
          fault = (\<lambda>err s h. case handleHttpFault err clientIp (hrMethod r) (pcHostname pc) reqUrl (sWriter s) of
                     (w, log) \<Rightarrow> (s\<lparr>sWriter := w, sLog := sLog s @ log\<rparr>, h))
      in case readBody r pc of
           TooLarge \<Rightarrow>
             (serveReply (reply 413 ''<h1>413 Payload Too Large</h1>'' w)
                [LogHTTP clientIp (hrMethod r) (pcHostname pc) reqUrl 413 ''Payload exceeds maxRequestBodyBytes''], h)
         | BodyErr err \<Rightarrow> fault err (serveReply w []) h
         | BodyRead bodyBytes \<Rightarrow>
             (case executeBegin (heBegin e) (breakerStore h ! pcBreaker pc) of
                (Some err, cb, log) \<Rightarrow> fault err (serveReply w log) (setBreaker (pcBreaker pc) cb h)
              | (None, cb, log) \<Rightarrow>
                 (let h = setBreaker (pcBreaker pc) cb h in
                  case executeProxy L e clientIp loopToken r bodyBytes pc w h of
                    (actionErr, s) \<Rightarrow>
                      if sPanic s then (s\<lparr>sLog := log @ sLog s\<rparr>, h)
                      else
                       (case executeEnd actionErr (heEnd e) (breakerStore h ! pcBreaker pc) of
                          (err, cb, log') \<Rightarrow>
                            (let h = setBreaker (pcBreaker pc) cb h; s = s\<lparr>sLog := log @ sLog s @ log'\<rparr> in
                             case err of None \<Rightarrow> (s, h) | Some m \<Rightarrow> fault m s h)))))"

section \<open>Requests\<close>

text \<open>The host of a request without port and brackets; a closing bracket in front makes the slice panic.\<close>

definition requestHostname :: "string \<Rightarrow> string outcome" where
  "requestHostname rawHost =
     (if CHR ''['' \<in> set rawHost then
        (case IndexByte (CHR '']'') rawHost of
           None \<Rightarrow> Ret rawHost
         | Some closingIdx \<Rightarrow> if closingIdx < 1 then Panic else Ret (drop 1 (take closingIdx rawHost)))
      else Ret (hd (Split (CHR '':'') rawHost)))"

definition secureHeaders :: "(string, string) gomap" where
  "secureHeaders = [(''X-Proxy'', ''ottergate''),
     (''Strict-Transport-Security'', ''max-age=63072000; includeSubDomains; preload''),
     (''X-Content-Type-Options'', ''nosniff''), (''X-Frame-Options'', ''DENY''), (''X-XSS-Protection'', ''1; mode=block'')]"

text \<open>The configured request headers that decrypt and pass the check; a panic of the decryption is none.\<close>

fun customHeaders :: "golib \<Rightarrow> bytes \<Rightarrow> (string, string) gomap \<Rightarrow> (string, string) gomap option" where
  "customHeaders L key [] = Some []"
| "customHeaders L key ((k, v) # hs) =
     (case DecryptSecret L key v of
        Panic \<Rightarrow> None
      | Ret (Inl _) \<Rightarrow> customHeaders L key hs
      | Ret (Inr decrypted) \<Rightarrow>
          (case sanitizeHeader decrypted of
             Inl _ \<Rightarrow> customHeaders L key hs
           | Inr sanitized \<Rightarrow> map_option (\<lambda>rest. (k, sanitized) # rest) (customHeaders L key hs)))"

definition reverseTarget :: "golib \<Rightarrow> URL \<Rightarrow> URL \<Rightarrow> string \<Rightarrow> URL" where
  "reverseTarget L upstreamBase targetUrl reqUrl =
     (case ParseURL L reqUrl of
        Inl _ \<Rightarrow> targetUrl
      | Inr parsedPath \<Rightarrow>
          targetUrl\<lparr>uPath := (if uPath upstreamBase \<noteq> [] \<and> uPath upstreamBase \<noteq> ''/''
                             then TrimSuffix (uPath upstreamBase) ''/'' @ uPath parsedPath else uPath parsedPath),
                    uRawQuery := uRawQuery parsedPath\<rparr>)"

text \<open>A host with a redirect.\<close>

definition serveRedirect :: "golib \<Rightarrow> HttpEnv \<Rightarrow> HttpRequest \<Rightarrow> string \<Rightarrow> string \<Rightarrow> RedirectConfig \<Rightarrow> ServerConfig \<Rightarrow> ResponseWriter \<Rightarrow> Served" where
  "serveRedirect L e r clientIp hostname redirect cfg w =
     (case validateTargetFirewall L (heLookup e) (rcTarget redirect) cfg of
        Inl _ \<Rightarrow> serveReply (reply 403 [] w) [LogHTTP clientIp (hrMethod r) hostname (hrRequestURI r) 403 ''Blocked by L3 Firewall'']
      | Inr _ \<Rightarrow>
         (let log = [LogHTTP clientIp (hrMethod r) hostname (hrRequestURI r) (rcCode redirect) (rcTarget redirect)];
              w = SetHeader ''Location'' (rcTarget redirect) w
          in case WriteHeader (rcCode redirect) w of Panic \<Rightarrow> panicked w log | Ret w \<Rightarrow> serveReply w log))"

text \<open>A host with an upstream: the TLS material of its client, the call it makes, and the handler.\<close>

definition reverseTls :: "HttpEnv \<Rightarrow> HttpProxyConfig \<Rightarrow> (string + ClientTlsConfig) option" where
  "reverseTls e hp = map_option (proxyLoadTls (heReadFile e) (heKeyPair e) (heAppendCerts e)) (hpClientTls hp)"

definition reverseCall ::
  "HttpEnv \<Rightarrow> HttpProxyConfig \<Rightarrow> string \<Rightarrow> URL \<Rightarrow> string \<Rightarrow> (string, string) gomap \<Rightarrow> nat \<Rightarrow> ProxyCall" where
  "reverseCall e hp upstreamHost targetUrl targetIp reqHeaders ref =
     \<lparr>pcTarget = targetUrl, pcTargetIp = targetIp, pcHostname = upstreamHost, pcBreaker = ref,
      pcAuditUrl = URLString targetUrl, pcReqHeaders = reqHeaders, pcResHeaders = secureHeaders,
      pcMaxBody = hpMaxRequestBodyBytes hp,
      pcClientTls = (case reverseTls e hp of Some (Inr ct) \<Rightarrow> Some ct | _ \<Rightarrow> None),
      pcForwardBody = hpForwardRequestBody hp\<rparr>"

definition serveReverse ::
  "golib \<Rightarrow> HttpEnv \<Rightarrow> HttpRequest \<Rightarrow> string \<Rightarrow> string \<Rightarrow> HttpProxyConfig \<Rightarrow> ServerConfig \<Rightarrow> ResponseWriter \<Rightarrow> HttpHandler \<Rightarrow> Served \<times> HttpHandler" where
  "serveReverse L e r clientIp hostname hp cfg w h =
     (case ParseURL L (hpUpstream hp) of
        Inl _ \<Rightarrow> (serveReply (reply 400 [] w) [], h)
      | Inr upstreamBase \<Rightarrow>
          (case validateTargetFirewall L (heLookup e) (URLString upstreamBase) cfg of
             Inl _ \<Rightarrow> (serveReply (reply 403 [] w)
                 [LogHTTP clientIp (hrMethod r) hostname (hrRequestURI r) 403 ''Blocked by L3 Firewall''], h)
           | Inr validatedIps \<Rightarrow>
               (case ParseURL L (URLString upstreamBase) of
                  Inl _ \<Rightarrow> (panicked w [], h)
                | Inr base \<Rightarrow>
                    (case customHeaders L (heKey e) (hpHeaders hp) of
                       None \<Rightarrow> (panicked w [], h)
                     | Some reqHeaders \<Rightarrow>
                        (let tlsLog = (case reverseTls e hp of
                               Some (Inl err) \<Rightarrow> [LogError (''Client TLS initialization for host proxy '' @ hrHost r @ '' bypassed: '' @ err)]
                             | _ \<Rightarrow> []);
                             targetUrl = reverseTarget L upstreamBase base (hrRequestURI r);
                             (ref, h) = getCircuitBreaker (heFirstBreaker e) (Hostname upstreamBase) h;
                             (s, h) = doHttpProxy L e r clientIp
                               (reverseCall e hp (Hostname upstreamBase) targetUrl (hd validatedIps) reqHeaders ref) w h
                         in (s\<lparr>sLog := tlsLog @ sLog s\<rparr>, h))))))"

text \<open>Every other host: the request goes to the address its name resolves to; a target that does not parse is a nil URL.\<close>

definition forwardCall :: "URL \<Rightarrow> string \<Rightarrow> string \<Rightarrow> nat \<Rightarrow> ProxyCall" where
  "forwardCall targetUrl targetIp hostname ref =
     \<lparr>pcTarget = targetUrl, pcTargetIp = targetIp, pcHostname = hostname, pcBreaker = ref, pcAuditUrl = targetIp,
      pcReqHeaders = [], pcResHeaders = [], pcMaxBody = 0, pcClientTls = None, pcForwardBody = True\<rparr>"

definition serveForward :: "golib \<Rightarrow> HttpEnv \<Rightarrow> HttpRequest \<Rightarrow> string \<Rightarrow> string \<Rightarrow> ServerConfig \<Rightarrow> ResponseWriter \<Rightarrow> HttpHandler \<Rightarrow> Served \<times> HttpHandler" where
  "serveForward L e r clientIp hostname cfg w h =
     (let fw = scFirewall cfg; isLiteralIp = (ParseIP hostname \<noteq> None);
          deny = (\<lambda>note. (serveReply (reply 403 [] w) [LogHTTP clientIp (hrMethod r) hostname (hrRequestURI r) 403 note], h))
      in if isLiteralIp \<and> EvaluateIp hostname fw = ''DENY'' then deny ''Blocked by IP Firewall''
         else if \<not> isLiteralIp \<and> EvaluateDomain L hostname fw = ''DENY'' then deny ''Blocked by Domain Firewall''
         else case (if isLiteralIp then Inr [hostname] else resolveHost L (heLookup e) hostname cfg) of
           Inl _ \<Rightarrow> (serveReply (reply 502 [] w) [], h)
         | Inr ips \<Rightarrow>
             if ips = [] then (serveReply (reply 502 [] w) [], h)
             else
              (let targetIp = hd ips in
               if EvaluateIp targetIp fw = ''DENY'' then deny ''Blocked by IP Firewall''
               else if EvaluateOutbound L targetIp fw = ''DENY'' then deny ''Blocked by SSRF Policy''
               else
                (let reqUrl = hrRequestURI r in
                 case ParseURL L (if HasPrefix reqUrl ''http://'' \<or> HasPrefix reqUrl ''https://'' then reqUrl
                                  else ''http://'' @ hrHost r @ reqUrl) of
                   Inl _ \<Rightarrow> (panicked w [], snd (getCircuitBreaker (heFirstBreaker e) hostname h))
                 | Inr targetUrl \<Rightarrow>
                     (case getCircuitBreaker (heFirstBreaker e) hostname h of
                        (ref, h) \<Rightarrow>
                          doHttpProxy L e r clientIp (forwardCall targetUrl targetIp hostname ref) w h))))"

definition serveProxied :: "golib \<Rightarrow> HttpEnv \<Rightarrow> HttpRequest \<Rightarrow> string \<Rightarrow> string \<Rightarrow> HostConfig \<Rightarrow> ServerConfig \<Rightarrow> ResponseWriter \<Rightarrow> HttpHandler \<Rightarrow> Served \<times> HttpHandler" where
  "serveProxied L e r clientIp hostname hc cfg w h =
     (case hcHttpProxy hc of
        Some hp \<Rightarrow> if hpEnabled hp \<and> hpUpstream hp \<noteq> [] then serveReverse L e r clientIp hostname hp cfg w h
                   else serveForward L e r clientIp hostname cfg w h
      | None \<Rightarrow> serveForward L e r clientIp hostname cfg w h)"

definition handleRequest :: "golib \<Rightarrow> HttpEnv \<Rightarrow> HttpRequest \<Rightarrow> ServerConfig \<Rightarrow> HttpHandler \<Rightarrow> Served \<times> HttpHandler" where
  "handleRequest L e r cfg h =
     (let clientIp = hostOf (hrRemoteAddr r); w = newWriter in
      case requestHostname (hrHost r) of
        Panic \<Rightarrow> (panicked w [], h)
      | Ret hostname \<Rightarrow>
          if hostname = [] then
            (serveReply (reply 400 ''Bad Request'' w)
               [LogHTTP clientIp (hrMethod r) ''UNKNOWN'' (hrRequestURI r) 400 ''Missing Host Header''], h)
          else case lookupHostConfig L cfg hostname of
            None \<Rightarrow> serveForward L e r clientIp hostname cfg w h
          | Some hc \<Rightarrow>
              (case hcRedirect hc of
                 Some redirect \<Rightarrow> if rcEnabled redirect then (serveRedirect L e r clientIp hostname redirect cfg w, h)
                     else serveProxied L e r clientIp hostname hc cfg w h
               | None \<Rightarrow> serveProxied L e r clientIp hostname hc cfg w h))"

definition requestUrl :: "HttpRequest \<Rightarrow> string" where
  "requestUrl r = hrPath r @ (if hrRawQuery r \<noteq> [] then ''?'' @ hrRawQuery r else [])"

definition ServeHTTP :: "golib \<Rightarrow> HttpEnv \<Rightarrow> HttpRequest \<Rightarrow> HttpHandler \<Rightarrow> Served \<times> HttpHandler" where
  "ServeHTTP L e r h =
     (let clientIp = hostOf (hrRemoteAddr r); currCfg = hhCfg h;
          providedLoopToken = HeaderGet ''X-Ottergate-Loop'' (hrHeader r); reqUrl = requestUrl r
      in if providedLoopToken \<noteq> [] \<and> verifyLoopToken (heUnix e) providedLoopToken reqUrl clientIp h then
           (serveReply (reply 508 ''<h1>508 Loop Detected</h1>''
              (SetHeader ''Connection'' ''close'' (SetHeader ''Content-Type'' ''text/html'' newWriter)))
              [LogHTTP clientIp (hrMethod r) (hrHost r) reqUrl 508 ''Routing Loop Detected''], h)
         else if hrMethod r = ''CONNECT'' then (handleConnect L e r currCfg h, h)
         else handleRequest L e r currCfg h)"

end
