(* ===== verification/DnsServer.thy ===== *)
theory DnsServer
  imports Cache Firewall AuditLog Validation
begin

text \<open>
  The authoritative side of the DNS gateway, \<^verbatim>\<open>src/pkg/dns/server.go\<close>: the host table with its
  wildcards, the answers built from configured records, the response packets, and \<^verbatim>\<open>Resolve\<close>, which
  answers a query from the cache or the table, refuses it, or returns nil so that the handler forwards
  it.  \<^verbatim>\<open>ParseResolvedIpv4s\<close> of \<^verbatim>\<open>src/pkg/dns/handler.go\<close> is here too, since \<^verbatim>\<open>Resolve\<close> calls it.

  The server state is a record; an operation returns the new state and the logger calls it makes.  The
  eviction loop of the cache may not end, so an operation that inserts returns an \<open>option\<close>, and the
  slice expressions that may panic make it an \<open>outcome\<close>.
\<close>

section \<open>State and host table\<close>

record DevDnsServer =
  srvCfg :: ServerConfig
  srvCache :: DnsCache
  dnsCacheTtl :: int
  dnsCacheSize :: int

definition NewDevDnsServer :: "ServerConfig \<Rightarrow> DevDnsServer" where
  "NewDevDnsServer cfg =
     \<lparr>srvCfg = cfg, srvCache = NewDnsCache (scDnsCacheMaxSize cfg) (scDnsCacheTtlMs cfg),
      dnsCacheTtl = scDnsCacheTtlMs cfg, dnsCacheSize = scDnsCacheMaxSize cfg\<rparr>"

definition ServerUpdateConfig :: "ServerConfig \<Rightarrow> DevDnsServer \<Rightarrow> DevDnsServer" where
  "ServerUpdateConfig newCfg s =
     s\<lparr>srvCfg := newCfg, srvCache := NewDnsCache (scDnsCacheMaxSize newCfg) (scDnsCacheTtlMs newCfg),
       dnsCacheTtl := scDnsCacheTtlMs newCfg, dnsCacheSize := scDnsCacheMaxSize newCfg\<rparr>"

definition normalizeHost :: "golib \<Rightarrow> string \<Rightarrow> string" where
  "normalizeHost L name = ToLower L (TrimSuffix name ''.'')"

definition IsLocalHost :: "golib \<Rightarrow> string \<Rightarrow> DevDnsServer \<Rightarrow> bool" where
  "IsLocalHost L name s =
     (let normalized = normalizeHost L name in
      if normalized = ''*'' \<or> normalized = [] then False
      else map_of (scHosts (srvCfg s)) normalized \<noteq> None)"

fun wildcardScan :: "(string, HostConfig) gomap \<Rightarrow> string list \<Rightarrow> HostConfig option" where
  "wildcardScan hosts [] = None"
| "wildcardScan hosts (l # ls) =
     (case map_of hosts (''*.'' @ Join ''.'' (l # ls)) of
        Some hc \<Rightarrow> Some hc
      | None \<Rightarrow> wildcardScan hosts ls)"

definition findHostConfig :: "string \<Rightarrow> DevDnsServer \<Rightarrow> HostConfig option" where
  "findHostConfig normalizedName s =
     (let hosts = scHosts (srvCfg s);
          exact = (if \<not> Contains normalizedName ''*'' then map_of hosts normalizedName else None)
      in case exact of
        Some hc \<Rightarrow> Some hc
      | None \<Rightarrow>
          (case wildcardScan hosts (Split CHR ''.'' normalizedName) of
             Some hc \<Rightarrow> Some hc
           | None \<Rightarrow> map_of hosts ''*''))"

definition toTypeNumber :: "golib \<Rightarrow> string \<Rightarrow> u16" where
  "toTypeNumber L recordType =
     (let t = ToUpper L recordType in
      if t = ''A'' then DnsTypeA else if t = ''AAAA'' then DnsTypeAAAA
      else if t = ''CNAME'' then DnsTypeCNAME else if t = ''TXT'' then DnsTypeTXT
      else if t = ''MX'' then DnsTypeMX else if t = ''NS'' then DnsTypeNS
      else if t = ''SRV'' then DnsTypeSRV else if t = ''PTR'' then DnsTypePTR else 0)"

definition toTypeString :: "u16 \<Rightarrow> string" where
  "toTypeString t =
     (if t = DnsTypeA then ''A'' else if t = DnsTypeAAAA then ''AAAA''
      else if t = DnsTypeCNAME then ''CNAME'' else if t = DnsTypeTXT then ''TXT''
      else if t = DnsTypeMX then ''MX'' else if t = DnsTypeNS then ''NS''
      else if t = DnsTypeSRV then ''SRV'' else if t = DnsTypePTR then ''PTR''
      else ''TYPE'' @ itoa (unat t))"

section \<open>Answers\<close>

definition or_zero :: "int option \<Rightarrow> u16" where
  "or_zero p = (case p of None \<Rightarrow> 0 | Some v \<Rightarrow> word_of_int v)"

definition nil_bytes :: "bytes option \<Rightarrow> bytes" where
  "nil_bytes b = (case b of None \<Rightarrow> [] | Some x \<Rightarrow> x)"

definition recordData :: "DnsRecord \<Rightarrow> bytes" where
  "recordData r =
     (if drType r = ''A'' then nil_bytes (EncodeARecord (drAddress r))
      else if drType r = ''AAAA'' then nil_bytes (EncodeAAAARecord (drAddress r))
      else if drType r = ''CNAME'' then EncodeCNAME (drTarget r)
      else if drType r = ''TXT'' then EncodeTXT (drData r)
      else if drType r = ''MX'' then EncodeMX (or_zero (drPriority r)) (drExchange r)
      else if drType r = ''NS'' then EncodeNS (drTarget r)
      else if drType r = ''SRV''
      then EncodeSRV (or_zero (drPriority r)) (or_zero (drWeight r)) (or_zero (drPort r)) (drTarget r)
      else if drType r = ''PTR'' then EncodePTR (drTarget r)
      else [])"

definition buildSingleAnswer :: "golib \<Rightarrow> DnsRecord \<Rightarrow> bytes" where
  "buildSingleAnswer L r =
     be16 (toTypeNumber L (drType r)) @ be16 DnsClassIn @ be32 300 @ be16 (of_nat (length (recordData r)))
     @ recordData r"

definition buildAnswers :: "golib \<Rightarrow> HostConfig \<Rightarrow> u16 \<Rightarrow> bytes list" where
  "buildAnswers L hostConfig recordType =
     map (buildSingleAnswer L) (filter (\<lambda>r. toTypeNumber L (drType r) = recordType) (hcRecords hostConfig))"

section \<open>Packets\<close>

fun writeQuestions :: "ParsedQuestion list \<Rightarrow> DnsWireFormat \<Rightarrow> u16 list \<Rightarrow> DnsWireFormat \<times> u16 list" where
  "writeQuestions [] encoder tracked = (encoder, tracked)"
| "writeQuestions (q # qs) encoder tracked =
     (let currentOffset = of_nat (Offset encoder)
      in writeQuestions qs
           (WriteUint16 DnsClassIn (WriteUint16 (pqType q) (WriteDomainName (pqName q) encoder)))
           (tracked @ [currentOffset]))"

text \<open>The question that an answer points to: the one with the number of the answer, or the last.\<close>

definition matchedOffset :: "u16 list \<Rightarrow> u16 \<Rightarrow> u16" where
  "matchedOffset tracked ancount =
     (let target = int (unat ancount);
          target = (if target \<ge> int (length tracked) then int (length tracked) - 1 else target)
      in if target \<ge> 0 \<and> target < int (length tracked) then tracked ! nat target else 12)"

fun writeAnswers :: "u16 list \<Rightarrow> bytes list \<Rightarrow> u16 \<Rightarrow> DnsWireFormat \<Rightarrow> u16 \<times> DnsWireFormat" where
  "writeAnswers tracked [] ancount encoder = (ancount, encoder)"
| "writeAnswers tracked (ans # rest) ancount encoder =
     (if length ans < 10 then writeAnswers tracked rest ancount encoder
      else writeAnswers tracked rest (ancount + 1)
             (WriteBytes ans (WriteUint16 (0xc000 OR matchedOffset tracked ancount) encoder)))"

definition BuildResponsePacket :: "u16 \<Rightarrow> u16 \<Rightarrow> nat \<Rightarrow> ParsedQuestion list \<Rightarrow> bytes list \<Rightarrow> bytes" where
  "BuildResponsePacket txid flags rcode questions answerBuffers =
     (let combinedFlags = (flags AND NOT 0x8000) OR FlagQR OR FlagAA OR of_nat rcode;
          encoder = WriteUint16 (of_nat (length questions))
            (WriteUint16 combinedFlags (WriteUint16 txid (NewDnsWireFormat None)));
          answerCountOffset = Offset encoder;
          encoder = WriteUint16 0 (WriteUint16 0 (WriteUint16 0 encoder));
          (encoder, tracked) = writeQuestions questions encoder [];
          (ancount, encoder) = writeAnswers tracked answerBuffers 0 encoder
      in Finish (encoder\<lparr>Buf := put_bytes answerCountOffset (be16 ancount) (Buf encoder)\<rparr>))"

definition BuildNoErrorResponse :: "u16 \<Rightarrow> u16 \<Rightarrow> ParsedQuestion list \<Rightarrow> bytes" where
  "BuildNoErrorResponse txid flags questions = BuildResponsePacket txid flags DnsRcodeNoError questions []"

definition GenerateErrorResponse :: "bytes \<Rightarrow> nat \<Rightarrow> bytes option \<times> audit_call list" where
  "GenerateErrorResponse query rcode =
     (if length query < 12 then (None, [])
      else case ExtractQuestions query of
        (questions, errs) \<Rightarrow>
          (Some (BuildResponsePacket (get16 query 0) (get16 query 2) rcode questions []), map LogError errs))"

text \<open>The silent \<^verbatim>\<open>readUint16\<close> of the handler and the addresses of a response.\<close>

definition readUint16 :: "DnsWireFormat \<Rightarrow> u16 \<times> DnsWireFormat" where
  "readUint16 dw =
     (if Offset dw + 2 > length (Buf dw) then (0, dw\<lparr>Offset := length (Buf dw)\<rparr>)
      else (get16 (Buf dw) (Offset dw), dw\<lparr>Offset := Offset dw + 2\<rparr>))"

fun skipNames :: "nat \<Rightarrow> DnsWireFormat \<Rightarrow> DnsWireFormat" where
  "skipNames 0 f = f"
| "skipNames (Suc n) f = (case ReadDomainName f of (_, f) \<Rightarrow> skipNames n (f\<lparr>Offset := Offset f + 4\<rparr>))"

fun resolvedLoop :: "nat \<Rightarrow> DnsWireFormat \<Rightarrow> string list \<times> DnsWireFormat" where
  "resolvedLoop 0 f = ([], f)"
| "resolvedLoop (Suc n) f =
     (let (_, f) = ReadDomainName f;
          (qtype, f) = readUint16 f;
          (rdlen, f) = readUint16 (f\<lparr>Offset := Offset f + 6\<rparr>);
          ips = (if qtype = DnsTypeA \<and> rdlen = 4 then
                   (if Offset f + 4 \<le> length (Buf f) then [string4 (take 4 (drop (Offset f) (Buf f)))] else [])
                 else if qtype = DnsTypeAAAA \<and> rdlen = 16 then
                   (if Offset f + 16 \<le> length (Buf f) then [IPString (take 16 (drop (Offset f) (Buf f)))] else [])
                 else []);
          (rest, f) = resolvedLoop n (f\<lparr>Offset := Offset f + unat rdlen\<rparr>)
      in (ips @ rest, f))"

definition ParseResolvedIpv4s :: "bytes \<Rightarrow> string list \<times> audit_call list" where
  "ParseResolvedIpv4s resp =
     (if length resp < 12 then ([], [])
      else
       (let f = (NewDnsWireFormat (Some resp))\<lparr>Offset := 4\<rparr>;
            (qd, f) = readUint16 f;
            (an, f) = readUint16 f;
            f = skipNames (unat qd) (f\<lparr>Offset := Offset f + 4\<rparr>);
            (ips, f) = resolvedLoop (unat an) f
        in (ips, map LogError (Errors f))))"

section \<open>Resolving\<close>

type_synonym resolution = "(bytes option \<times> audit_call list \<times> DevDnsServer) outcome option"

definition logQuestions :: "ParsedQuestion list \<Rightarrow> (string \<times> string) list" where
  "logQuestions questions = map (\<lambda>q. (pqName q, toTypeString (pqType q))) questions"

definition localFirst :: "golib \<Rightarrow> ParsedQuestion list \<Rightarrow> DevDnsServer \<Rightarrow> bool" where
  "localFirst L questions s = (questions \<noteq> [] \<and> IsLocalHost L (pqName (hd questions)) s)"

text \<open>A response is stored in the cache, logged and returned.\<close>

definition storeResponse ::
  "golib \<Rightarrow> int \<Rightarrow> string \<Rightarrow> ParsedQuestion list \<Rightarrow> string \<Rightarrow> bytes \<Rightarrow> nat \<Rightarrow> string list \<times> audit_call list
     \<Rightarrow> audit_call list \<Rightarrow> DevDnsServer \<Rightarrow> resolution" where
  "storeResponse L later sourceIp questions cacheKey resp rcode resolved log s =
     (case Put cacheKey resp later (srvCache s) of
        None \<Rightarrow> None
      | Some c \<Rightarrow> Some (Ret (Some resp,
          log @ snd resolved @ [LogDNS sourceIp (logQuestions questions) (int rcode) False (fst resolved) (localFirst L questions s)],
          s\<lparr>srvCache := c\<rparr>)))"

definition resolveTable ::
  "golib \<Rightarrow> int \<Rightarrow> bytes \<Rightarrow> string \<Rightarrow> ParsedQuestion list \<Rightarrow> string \<Rightarrow> audit_call list \<Rightarrow> DevDnsServer \<Rightarrow> resolution" where
  "resolveTable L later query sourceIp questions cacheKey log s =
     (let found = concat (map (\<lambda>q. case findHostConfig (normalizeHost L (pqName q)) s of
                None \<Rightarrow> [] | Some hc \<Rightarrow> [(hc, pqType q)]) questions);
          answers = concat (map (\<lambda>(hc, t). buildAnswers L hc t) found);
          fw = scFirewall (srvCfg s); txid = get16 query 0; flags = get16 query 2
      in if found = [] then
           (if list_ex (\<lambda>q. EvaluateDomain L (pqName q) fw = ''DENY'') questions then
              (case GenerateErrorResponse query DnsRcodeRefused of (resp, errs) \<Rightarrow>
                 Some (Ret (resp, log @ [LogFirewall sourceIp (Join '', '' (map pqName questions)) ''DENY'' ''Domain Blocked''] @ errs, s)))
            else if scFallbackDns (srvCfg s) = [] then
              (case GenerateErrorResponse query DnsRcodeNxDomain of (resp, errs) \<Rightarrow>
                 storeResponse L later sourceIp questions cacheKey (nil_bytes resp) DnsRcodeNxDomain ([], []) (log @ errs) s)
            else Some (Ret (None, log, s)))
         else if answers \<noteq> [] then
           (let resp = BuildResponsePacket txid flags DnsRcodeNoError questions answers
            in storeResponse L later sourceIp questions cacheKey resp DnsRcodeNoError (ParseResolvedIpv4s resp) log s)
         else storeResponse L later sourceIp questions cacheKey (BuildNoErrorResponse txid flags questions)
                DnsRcodeNoError ([], []) log s)"

definition resolveQuestions :: "golib \<Rightarrow> int \<Rightarrow> int \<Rightarrow> bytes \<Rightarrow> string \<Rightarrow> DevDnsServer \<Rightarrow> resolution" where
  "resolveQuestions L now later query sourceIp s =
     (case ExtractQuestions query of (questions, errs) \<Rightarrow>
       (let cacheKey = GenerateCacheKey questions; log = map LogError errs in
        case Get cacheKey now (srvCache s) of
          (Some (cachedBytes, _), c) \<Rightarrow>
            if length cachedBytes < 4 then Some Panic
            else
             (case ParseResolvedIpv4s cachedBytes of (ips, perrs) \<Rightarrow>
                Some (Ret (Some (put_bytes 0 (take 2 query) cachedBytes),
                  log @ perrs @ [LogDNS sourceIp (logQuestions questions) (int (unat (get16 cachedBytes 2 AND 0xf))) True ips
                     (localFirst L questions s)],
                  s\<lparr>srvCache := c\<rparr>)))
        | (None, c) \<Rightarrow>
            if questions = [] then
              (case GenerateErrorResponse query DnsRcodeNxDomain of (resp, errs') \<Rightarrow>
                 Some (Ret (resp, log @ errs', s\<lparr>srvCache := c\<rparr>)))
            else resolveTable L later query sourceIp questions cacheKey log (s\<lparr>srvCache := c\<rparr>)))"

text \<open>
  \<^verbatim>\<open>Resolve\<close>; \<open>now\<close> is the time of the lookup in the cache and \<open>later\<close> that of the insertion.
\<close>

definition Resolve :: "golib \<Rightarrow> int \<Rightarrow> int \<Rightarrow> bytes \<Rightarrow> string \<Rightarrow> DevDnsServer \<Rightarrow> resolution" where
  "Resolve L now later query sourceIp s =
     (if length query < 12 then Some (Ret (None, [], s))
      else if get16 query 2 AND 0x8000 \<noteq> 0 then Some (Ret (None, [], s))
      else if get16 query 2 AND 0x0100 = 0 then Some (Ret (None, [], s))
      else if get16 query 4 = 0 \<or> get16 query 6 > 0 \<or> get16 query 8 > 0 then Some (Ret (None, [], s))
      else resolveQuestions L now later query sourceIp s)"

definition HasRecord :: "golib \<Rightarrow> string \<Rightarrow> u16 \<Rightarrow> DevDnsServer \<Rightarrow> bool" where
  "HasRecord L name qtype s =
     (case findHostConfig (normalizeHost L name) s of
        None \<Rightarrow> False
      | Some hc \<Rightarrow> list_ex (\<lambda>r. toTypeNumber L (drType r) = qtype) (hcRecords hc))"

section \<open>Response packets on the wire\<close>

lemma sink_offset: "sink_ok dw \<Longrightarrow> Offset dw = length (Finish dw)"
  by (simp add: sink_ok_def Finish_def)

definition question_of :: "ParsedQuestion \<Rightarrow> string \<times> u16" where
  "question_of q = (pqName q, pqType q)"

text \<open>The offsets at which the questions start, and the encoded answers with their pointers.\<close>

fun question_offsets :: "nat \<Rightarrow> ParsedQuestion list \<Rightarrow> u16 list" where
  "question_offsets off [] = []"
| "question_offsets off (q # qs) = of_nat off # question_offsets (off + length (question_wire (question_of q))) qs"

fun answer_wires :: "u16 list \<Rightarrow> u16 \<Rightarrow> bytes list \<Rightarrow> bytes" where
  "answer_wires tracked n [] = []"
| "answer_wires tracked n (ans # rest) =
     (if length ans < 10 then answer_wires tracked n rest
      else be16 (0xc000 OR matchedOffset tracked n) @ ans @ answer_wires tracked (n + 1) rest)"

definition response_flags :: "u16 \<Rightarrow> nat \<Rightarrow> u16" where
  "response_flags flags rcode = (flags AND NOT 0x8000) OR FlagQR OR FlagAA OR of_nat rcode"

lemma writeQuestions_sink:
  assumes "sink_ok dw"
  shows "sink_ok (fst (writeQuestions qs dw tr))
    \<and> Finish (fst (writeQuestions qs dw tr)) = Finish dw @ concat (map (question_wire \<circ> question_of) qs)
    \<and> snd (writeQuestions qs dw tr) = tr @ question_offsets (length (Finish dw)) qs"
  using assms
proof (induction qs dw tr rule: writeQuestions.induct)
  case (2 q qs dw tr)
  let ?dw = "WriteUint16 DnsClassIn (WriteUint16 (pqType q) (WriteDomainName (pqName q) dw))"
  have "sink_ok ?dw" "Finish ?dw = Finish dw @ question_wire (question_of q)"
    using 2(2) by (simp_all add: sink_simps question_wire_def question_of_def)
  with 2(1) [of "of_nat (Offset dw)"] 2(2) show ?case by (simp add: sink_offset Let_def)
qed simp

lemma writeAnswers_sink:
  assumes "sink_ok dw"
  shows "sink_ok (snd (writeAnswers tr as n dw))
    \<and> Finish (snd (writeAnswers tr as n dw)) = Finish dw @ answer_wires tr n as
    \<and> fst (writeAnswers tr as n dw) = n + of_nat (length (filter (\<lambda>a. 10 \<le> length a) as))"
  using assms by (induction tr as n dw rule: writeAnswers.induct) (simp_all add: sink_simps not_less)

lemma Finish_patch:
  assumes "sink_ok dw" "Finish dw = a @ c @ e" "length a = i" "length d = length c"
  shows "Finish (dw\<lparr>Buf := put_bytes i d (Buf dw)\<rparr>) = a @ d @ e"
proof -
  have "Buf dw = (a @ c @ e) @ drop (Offset dw) (Buf dw)"
    using assms(1,2) by (metis Finish_def append_take_drop_id)
  then have "put_bytes i d (Buf dw) = a @ d @ e @ drop (Offset dw) (Buf dw)"
    using put_bytes_exact [of d "length c" a i c "e @ drop (Offset dw) (Buf dw)"] assms(3,4) by simp
  moreover have "Offset dw = length (a @ d @ e)" using sink_offset [OF assms(1)] assms(2,4) by simp
  ultimately show ?thesis by (simp add: Finish_def)
qed

lemma BuildResponsePacket_wire:
  "BuildResponsePacket txid flags rcode qs as =
     be16 txid @ be16 (response_flags flags rcode) @ be16 (of_nat (length qs))
     @ be16 (of_nat (length (filter (\<lambda>a. 10 \<le> length a) as))) @ be16 0 @ be16 0
     @ concat (map (question_wire \<circ> question_of) qs) @ answer_wires (question_offsets 12 qs) 0 as"
proof -
  let ?h = "WriteUint16 (of_nat (length qs)) (WriteUint16 (response_flags flags rcode) (WriteUint16 txid (NewDnsWireFormat None)))"
  let ?e = "WriteUint16 0 (WriteUint16 0 (WriteUint16 0 ?h))"
  have h: "sink_ok ?h" "Finish ?h = be16 txid @ be16 (response_flags flags rcode) @ be16 (of_nat (length qs))"
    by (simp_all add: sink_simps)
  then have off: "Offset ?h = 6" using sink_offset by fastforce
  have e: "sink_ok ?e" "Finish ?e = Finish ?h @ be16 0 @ be16 0 @ be16 0" using h(1) by (simp_all add: sink_simps)
  obtain d tr where d: "writeQuestions qs ?e [] = (d, tr)" by force
  note q = writeQuestions_sink [OF e(1), of qs "[]", unfolded d fst_conv snd_conv]
  obtain n f where f: "writeAnswers tr as 0 d = (n, f)" by force
  note a = writeAnswers_sink [OF q [THEN conjunct1], of tr as 0, unfolded f fst_conv snd_conv]
  have tr: "tr = question_offsets 12 qs" using q e(2) h(2) by simp
  have "Finish f = Finish ?h @ be16 0 @ be16 0 @ be16 0 @ concat (map (question_wire \<circ> question_of) qs)
      @ answer_wires tr 0 as" using a q e(2) by simp
  from Finish_patch [OF a [THEN conjunct1] this, of 6 "be16 n"] h(2) a tr
  have "Finish (f\<lparr>Buf := put_bytes 6 (be16 n) (Buf f)\<rparr>) = Finish ?h @ be16 (of_nat (length (filter (\<lambda>a. 10 \<le> length a) as)))
      @ be16 0 @ be16 0 @ concat (map (question_wire \<circ> question_of) qs) @ answer_wires (question_offsets 12 qs) 0 as"
    by simp
  then show ?thesis
    unfolding BuildResponsePacket_def Let_def response_flags_def [symmetric] off d prod.case f h(2) by simp
qed

section \<open>Every query gets a well-formed reply or is handed on\<close>

text \<open>A reply has a header and its QR bit is set.\<close>

definition reply_ok :: "bytes \<Rightarrow> bool" where
  "reply_ok r \<longleftrightarrow> 12 \<le> length r \<and> bit (get16 r 2) 15"

lemma be16_get16:
  assumes "2 \<le> length b"
  shows "be16 (get16 b 0) = take 2 b"
proof -
  have "\<not> bit (x :: byte) (8 + n)" for x n using bit_imp_le_length [of x "8 + n"] by auto
  then have "be16 (get16 b 0) = [b ! 0, b ! 1]"
    by (auto simp: be16_def get16_def bit_simps intro!: bit_word_eqI)
  also have "\<dots> = take 2 b" using assms by (cases b; cases "tl b") auto
  finally show ?thesis .
qed

lemma response_flags_qr: "bit (response_flags flags rcode) 15"
  by (simp add: response_flags_def FlagQR_def bit_or_iff bit_push_bit_iff)

lemma BuildResponsePacket_reply: "reply_ok (BuildResponsePacket txid flags rcode qs as)"
proof -
  let ?f = "response_flags flags rcode"
  obtain post where p: "BuildResponsePacket txid flags rcode qs as = be16 txid @ be16 ?f @ post" "8 \<le> length post"
    by (simp add: BuildResponsePacket_wire)
  have "get16 (be16 txid @ be16 ?f @ post) 2 = get16 (be16 ?f @ post) 0"
    using get16_shift [of "be16 txid" "be16 ?f @ post" 0] by simp
  also have "\<dots> = ?f" by (simp add: get16_append)
  finally show ?thesis using response_flags_qr by (simp add: reply_ok_def p)
qed

lemma BuildResponsePacket_id: "take 2 (BuildResponsePacket txid flags rcode qs as) = be16 txid"
  by (simp add: BuildResponsePacket_wire)

lemma rewrite_header: "i < 12 \<Longrightarrow> i < length r \<Longrightarrow> rewriteResponseTtl r t ! i = r ! i"
  unfolding rewriteResponseTtl_put
  by (rule nth_put_ttls_other [OF ttl_offsets_fields]) (use ttl_offsets_fields [of r] in \<open>auto simp: ttl_fields_def\<close>)

lemma reply_ok_rewrite [simp]: "reply_ok (rewriteResponseTtl r t) = reply_ok r"
  using rewrite_header [of 2 r t] rewrite_header [of 3 r t] by (auto simp: reply_ok_def get16_def)

lemma Get_entries: "map_of (cacheMap (snd (Get k now c))) k' = Some e \<Longrightarrow> map_of (cacheMap c) k' = Some e"
  by (auto simp: Get_def Let_def deleteKey_def touchKey_def split: option.splits if_splits)

lemma Get_reply:
  "Get k now c = (Some (b, t), c') \<Longrightarrow> \<exists>e u. map_of (cacheMap c) k = Some e \<and> b = rewriteResponseTtl (ceResponse e) u"
  by (auto simp: Get_def Let_def split: option.splits if_splits)

lemma evict_entries: "map_of (cacheMap (evictOldest c)) k' = Some e \<Longrightarrow> map_of (cacheMap c) k' = Some e"
  by (auto simp: evictOldest_def deleteKey_def split: list.splits if_splits)

lemma Put_entries:
  assumes "cache_inv c" "Put k r now c = Some c'" "map_of (cacheMap c') k' = Some e"
  shows "map_of (cacheMap c) k' = Some e \<or> ceResponse e = r \<or> ceResponse e \<in> range (rewriteResponseTtl r)"
  using assms(2,3) evict_entries [of c k' e]
  by (auto simp: Put_def Let_def evictLoop_inv [OF assms(1)] touchKey_def split: if_splits)

definition srv_inv :: "DevDnsServer \<Rightarrow> bool" where
  "srv_inv s \<longleftrightarrow> cache_inv (srvCache s)
     \<and> (\<forall>k e. map_of (cacheMap (srvCache s)) k = Some e \<longrightarrow> reply_ok (ceResponse e))"

lemma srv_inv_new: "srv_inv (NewDevDnsServer cfg)" "srv_inv (ServerUpdateConfig cfg s)"
  using NewDnsCache_inv by (simp_all add: srv_inv_def NewDevDnsServer_def ServerUpdateConfig_def NewDnsCache_def)

lemma srv_inv_Get: "srv_inv s \<Longrightarrow> srv_inv (s\<lparr>srvCache := snd (Get k now (srvCache s))\<rparr>)"
  using Get_inv(1) [of "srvCache s" k now] by (auto simp: srv_inv_def dest: Get_entries)

text \<open>What the lemmas establish of one resolution: it returns, keeps the invariant and the configuration, and a
  reply echoes the identifier of the query.\<close>

definition replies :: "bytes \<Rightarrow> DevDnsServer \<Rightarrow> resolution \<Rightarrow> bool" where
  "replies query s r \<longleftrightarrow> (\<exists>b log t. r = Some (Ret (b, log, t)) \<and> srv_inv t \<and> srvCfg t = srvCfg s
     \<and> (\<forall>x. b = Some x \<longrightarrow> reply_ok x \<and> take 2 x = take 2 query))"

lemma storeResponse_replies:
  assumes "srv_inv s" "reply_ok resp" "take 2 resp = take 2 query"
  shows "replies query s (storeResponse L later ip qs key resp rcode resolved log s)"
proof -
  from assms(1) obtain c where c: "Put key resp later (srvCache s) = Some c" "cache_inv c"
    using run_cache_inv [of "srvCache s" "OpPut key resp later"] by (auto simp: srv_inv_def)
  have "reply_ok (ceResponse e)" if "map_of (cacheMap c) k = Some e" for k e
    using Put_entries [OF _ c(1) that] assms(1,2) by (auto simp: srv_inv_def)
  with c assms(2,3) show ?thesis by (simp add: replies_def storeResponse_def srv_inv_def)
qed

lemma GenerateErrorResponse_reply:
  assumes "12 \<le> length query"
  obtains resp errs where "GenerateErrorResponse query rcode = (Some resp, errs)" "reply_ok resp" "take 2 resp = take 2 query"
  using assms BuildResponsePacket_reply be16_get16 [of query]
  by (cases "ExtractQuestions query") (simp add: GenerateErrorResponse_def BuildResponsePacket_id)

lemma replies_now: "srv_inv s \<Longrightarrow> replies query s (Some (Ret (None, log, s)))"
  "srv_inv s \<Longrightarrow> reply_ok x \<Longrightarrow> take 2 x = take 2 query \<Longrightarrow> replies query s (Some (Ret (Some x, log, s)))"
  by (simp_all add: replies_def)

lemma resolveTable_replies:
  assumes "srv_inv s" "12 \<le> length query"
  shows "replies query s (resolveTable L later query ip qs key log s)"
proof -
  obtain refused e1 where refused: "GenerateErrorResponse query DnsRcodeRefused = (Some refused, e1)"
      "reply_ok refused" "take 2 refused = take 2 query" using assms(2) by (rule GenerateErrorResponse_reply)
  obtain nx e2 where nx: "GenerateErrorResponse query DnsRcodeNxDomain = (Some nx, e2)"
      "reply_ok nx" "take 2 nx = take 2 query" using assms(2) by (rule GenerateErrorResponse_reply)
  have built: "take 2 (BuildResponsePacket (get16 query 0) flags rcode qs as) = take 2 query" for flags rcode as
    using assms(2) by (simp add: BuildResponsePacket_id be16_get16)
  show ?thesis
    unfolding resolveTable_def Let_def refused(1) nx(1) prod.case nil_bytes_def option.case BuildNoErrorResponse_def
    using refused nx built assms(1) by (simp add: replies_now storeResponse_replies BuildResponsePacket_reply)
qed

lemma replies_cfg: "srvCfg s' = srvCfg s \<Longrightarrow> replies query s' r \<Longrightarrow> replies query s r"
  by (auto simp: replies_def)

lemma resolveQuestions_replies:
  assumes "srv_inv s" "12 \<le> length query"
  shows "replies query s (resolveQuestions L now later query ip s)"
proof -
  obtain qs errs where q: "ExtractQuestions query = (qs, errs)" by force
  obtain hit c where g: "Get (GenerateCacheKey qs) now (srvCache s) = (hit, c)" by force
  have inv: "srv_inv (s\<lparr>srvCache := c\<rparr>)" using srv_inv_Get [OF assms(1), of "GenerateCacheKey qs" now] g by simp
  show ?thesis
  proof (cases hit)
    case None
    obtain nx e where nx: "GenerateErrorResponse query DnsRcodeNxDomain = (Some nx, e)"
        "reply_ok nx" "take 2 nx = take 2 query" using assms(2) by (rule GenerateErrorResponse_reply)
    have "replies query s (resolveTable L later query ip qs (GenerateCacheKey qs) (map LogError errs) (s\<lparr>srvCache := c\<rparr>))"
      by (rule replies_cfg [OF _ resolveTable_replies [OF inv assms(2)]]) simp
    with None q g nx inv show ?thesis by (simp add: resolveQuestions_def Let_def replies_def)
  next
    case (Some bt)
    obtain b t where bt: "bt = (b, t)" by (cases bt)
    from Get_reply [of _ now "srvCache s" b t c] g Some bt
    obtain e u where "map_of (cacheMap (srvCache s)) (GenerateCacheKey qs) = Some e" "b = rewriteResponseTtl (ceResponse e) u"
      by blast
    with assms(1) have b: "reply_ok b" by (auto simp: srv_inv_def)
    let ?r = "put_bytes 0 (take 2 query) b"
    have r: "?r = take 2 query @ drop 2 b" using b assms(2) by (simp add: put_bytes_def reply_ok_def numeral_2_eq_2)
    have two: "length (take 2 query) = 2" using assms(2) by simp
    have "get16 ?r 2 = get16 b 2"
      using get16_shift [of "take 2 query" "drop 2 b" 0] get16_shift [of "take 2 b" "drop 2 b" 0] b two
      by (simp add: r reply_ok_def)
    moreover have "12 \<le> length ?r" using b two unfolding r by (auto simp: reply_ok_def)
    ultimately have "reply_ok ?r" using b by (simp add: reply_ok_def)
    moreover have "take 2 ?r = take 2 query" unfolding r using two by simp
    ultimately show ?thesis
      using Some bt q g inv b
      by (auto simp: resolveQuestions_def Let_def replies_def reply_ok_def split: prod.splits)
  qed
qed

lemma Resolve_replies: "srv_inv s \<Longrightarrow> replies query s (Resolve L now later query ip s)"
  using resolveQuestions_replies [of s query L now later ip] by (simp add: Resolve_def replies_now not_less)

section \<open>The server as a transition system\<close>

inductive server_step :: "golib \<Rightarrow> DevDnsServer \<Rightarrow> DevDnsServer \<Rightarrow> bool" for L :: golib where
  step_resolve: "Resolve L now later query ip s = Some (Ret (b, log, t)) \<Longrightarrow> server_step L s t"
| step_config: "server_step L s (ServerUpdateConfig cfg s)"

inductive_cases server_stepE: "server_step L s t"

interpretation server: invariant_of "\<lambda>s. \<exists>cfg. s = NewDevDnsServer cfg" "server_step L" srv_inv for L
proof
  fix s t
  assume inv: "srv_inv s" and "server_step L s t"
  from this(2) show "srv_inv t"
  proof (cases rule: server_step.cases)
    case (step_resolve now later query ip b log)
    with Resolve_replies [OF inv, of query L now later ip] show ?thesis by (simp add: replies_def)
  qed (simp add: srv_inv_new)
qed (auto simp: srv_inv_new)

text \<open>
  C9: in every state the server can reach, by any sequence of queries and configuration changes, every
  packet whatsoever is handled: \<^verbatim>\<open>Resolve\<close> returns without a panic, and what it returns is nil or a
  packet with a full header, the QR bit set and the identifier of the query.
\<close>

theorem server_replies:
  assumes "reachable (\<lambda>s. \<exists>cfg. s = NewDevDnsServer cfg) (server_step L) s"
  shows "\<exists>b log t. Resolve L now later query ip s = Some (Ret (b, log, t)) \<and> srvCfg t = srvCfg s
    \<and> (\<forall>x. b = Some x \<longrightarrow> 12 \<le> length x \<and> bit (get16 x 2) 15 \<and> take 2 x = take 2 query)"
  using Resolve_replies [OF server.inv_reachable [OF assms], of query L now later ip]
  by (auto simp: replies_def reply_ok_def)

section \<open>Which queries are handed on\<close>

text \<open>A standard query: QR clear, RD set, questions, no answers and no authority records.\<close>

definition standard_query :: "bytes \<Rightarrow> bool" where
  "standard_query query \<longleftrightarrow> 12 \<le> length query \<and> get16 query 2 AND 0x8000 = 0 \<and> get16 query 2 AND 0x0100 \<noteq> 0
     \<and> get16 query 4 \<noteq> 0 \<and> get16 query 6 = 0 \<and> get16 query 8 = 0"

definition unknown :: "golib \<Rightarrow> DevDnsServer \<Rightarrow> ParsedQuestion \<Rightarrow> bool" where
  "unknown L s q \<longleftrightarrow> findHostConfig (normalizeHost L (pqName q)) s = None"

lemma Resolve_standard:
  "Resolve L now later query ip s =
     (if standard_query query then resolveQuestions L now later query ip s else Some (Ret (None, [], s)))"
  by (auto simp: Resolve_def standard_query_def not_less word_gt_0)

lemma storeResponse_not_nil: "storeResponse L later ip qs key resp rcode rs log s \<noteq> Some (Ret (None, log', t))"
  by (simp add: storeResponse_def split: option.splits)

lemma found_Nil:
  "concat (map (\<lambda>q. case findHostConfig (normalizeHost L (pqName q)) s of None \<Rightarrow> [] | Some hc \<Rightarrow> [(hc, pqType q)]) qs) = []
     \<longleftrightarrow> list_all (unknown L s) qs"
  by (induction qs) (auto simp: unknown_def split: option.splits)

lemma resolveTable_nil:
  assumes "12 \<le> length query"
  shows "(\<exists>l t. resolveTable L later query ip qs key log s = Some (Ret (None, l, t))) \<longleftrightarrow>
     list_all (unknown L s) qs \<and> \<not> list_ex (\<lambda>q. EvaluateDomain L (pqName q) (scFirewall (srvCfg s)) = ''DENY'') qs
     \<and> scFallbackDns (srvCfg s) \<noteq> []"
proof -
  obtain refused e1 where refused: "GenerateErrorResponse query DnsRcodeRefused = (Some refused, e1)"
    using assms by (rule GenerateErrorResponse_reply)
  obtain nx e2 where nx: "GenerateErrorResponse query DnsRcodeNxDomain = (Some nx, e2)"
    using assms by (rule GenerateErrorResponse_reply)
  show ?thesis
    unfolding resolveTable_def Let_def found_Nil refused nx prod.case
    by (auto simp: storeResponse_not_nil)
qed

lemma findHostConfig_cache [simp]: "findHostConfig n (s\<lparr>srvCache := c\<rparr>) = findHostConfig n s"
  by (simp add: findHostConfig_def)

lemma unknown_cache [simp]: "unknown L (s\<lparr>srvCache := c\<rparr>) = unknown L s"
  by (simp add: unknown_def fun_eq_iff)

lemma resolveQuestions_nil:
  assumes "12 \<le> length query" "ExtractQuestions query = (qs, errs)"
  shows "(\<exists>l t. resolveQuestions L now later query ip s = Some (Ret (None, l, t))) \<longleftrightarrow>
     fst (Get (GenerateCacheKey qs) now (srvCache s)) = None \<and> qs \<noteq> [] \<and> list_all (unknown L s) qs
     \<and> \<not> list_ex (\<lambda>q. EvaluateDomain L (pqName q) (scFirewall (srvCfg s)) = ''DENY'') qs
     \<and> scFallbackDns (srvCfg s) \<noteq> []"
proof -
  obtain hit c where g: "Get (GenerateCacheKey qs) now (srvCache s) = (hit, c)" by force
  obtain nx e2 where nx: "GenerateErrorResponse query DnsRcodeNxDomain = (Some nx, e2)"
    using assms(1) by (rule GenerateErrorResponse_reply)
  show ?thesis
  proof (cases hit)
    case None
    then show ?thesis
      using resolveTable_nil [OF assms(1), of L later ip qs _ _ "s\<lparr>srvCache := c\<rparr>"] nx
      by (simp add: resolveQuestions_def assms(2) g Let_def)
  next
    case (Some bt)
    then show ?thesis by (cases bt) (auto simp: resolveQuestions_def assms(2) g Let_def split: prod.splits)
  qed
qed

text \<open>
  Exactly which packets \<^verbatim>\<open>Resolve\<close> hands on to the upstream resolver: those that are no standard
  query, and those that are neither cached nor known, ask something, name no blocked domain, and come
  while an upstream resolver is configured.  So no name of a standard query that the firewall denies is
  ever handed on; but the firewall is not asked about a packet that is no standard query, such as one
  with the RD bit clear.
\<close>

theorem Resolve_hands_on:
  "(\<exists>log t. Resolve L now later query ip s = Some (Ret (None, log, t))) \<longleftrightarrow>
     (if standard_query query then
       (let qs = fst (ExtractQuestions query) in
        fst (Get (GenerateCacheKey qs) now (srvCache s)) = None \<and> qs \<noteq> []
        \<and> list_all (\<lambda>q. findHostConfig (normalizeHost L (pqName q)) s = None
             \<and> EvaluateDomain L (pqName q) (scFirewall (srvCfg s)) \<noteq> ''DENY'') qs
        \<and> scFallbackDns (srvCfg s) \<noteq> [])
      else True)"
proof (cases "standard_query query")
  case True
  then have "12 \<le> length query" by (simp add: standard_query_def)
  moreover obtain qs errs where q: "ExtractQuestions query = (qs, errs)" by force
  ultimately show ?thesis
    using resolveQuestions_nil [OF _ q, of L now later ip s] True
    by (auto simp: Resolve_standard q Let_def unknown_def list_all_iff list_ex_iff)
qed (simp add: Resolve_standard)

section \<open>Configured addresses are what the response says\<close>

lemma ReadDomainName_pointer:
  assumes "wire_labels (Split (CHR ''.'') name)" "buf = hdr @ name_wire name @ post" "length hdr = 12"
    and "off + 1 < length buf" "buf ! off = 0xc0" "buf ! (off + 1) = 12"
  shows "ReadDomainName \<lparr>Buf = buf, Offset = off, Errors = es\<rparr> = (name, \<lparr>Buf = buf, Offset = off + 2, Errors = es\<rparr>)"
proof -
  have target: "pointer_target 0xc0 12 = 12" by code_simp
  have "readName buf 0 off None [] = readName buf 1 12 (Some (off + 2)) []"
    using assms(4-6) by (subst readName.simps) (simp add: maxJumps_def target)
  also have "\<dots> = (12 + length (concat (map label_wire (labels_of name))) + 1, Some (off + 2), Split (CHR ''.'') name, [])"
    using readName_written [OF assms(1), of hdr post 1 "Some (off + 2)" "[]"] assms(1-3)
    by (simp add: name_wire_def name_wire_labels)
  finally show ?thesis by (simp add: ReadDomainName_def)
qed

lemma readUint16_at:
  "length pre = off \<Longrightarrow> readUint16 \<lparr>Buf = pre @ be16 v @ post, Offset = off, Errors = es\<rparr>
     = (v, \<lparr>Buf = pre @ be16 v @ post, Offset = off + 2, Errors = es\<rparr>)"
  using get16_shift [of pre "be16 v @ post" 0] get16_append [of 0 "be16 v" post] by (simp add: readUint16_def)

text \<open>A resource record as the server writes it, and the addresses a reader of it reports.\<close>

definition entry :: "u16 \<times> bytes \<Rightarrow> bytes" where
  "entry = (\<lambda>(t, d). be16 t @ be16 DnsClassIn @ be32 300 @ be16 (of_nat (length d)) @ d)"

definition entry_ips :: "u16 \<times> bytes \<Rightarrow> string list" where
  "entry_ips = (\<lambda>(t, d). if t = DnsTypeA \<and> length d = 4 then [string4 d]
      else if t = DnsTypeAAAA \<and> length d = 16 then [IPString d] else [])"

lemma be16_pointer: "be16 0xc00c = [0xc0, 12]"
  by code_simp

lemma resolvedLoop_entries:
  assumes "wire_labels (Split (CHR ''.'') name)" "length hdr = 12"
    and "list_all (\<lambda>(t, d). length d < 65536) rs"
  shows "resolvedLoop (length rs) \<lparr>Buf = hdr @ name_wire name @ mid @ concat (map (\<lambda>r. be16 0xc00c @ entry r) rs),
       Offset = length (hdr @ name_wire name @ mid), Errors = es\<rparr>
     = (concat (map entry_ips rs), \<lparr>Buf = hdr @ name_wire name @ mid @ concat (map (\<lambda>r. be16 0xc00c @ entry r) rs),
       Offset = length (hdr @ name_wire name @ mid @ concat (map (\<lambda>r. be16 0xc00c @ entry r) rs)), Errors = es\<rparr>)"
  using assms(3)
proof (induction rs arbitrary: mid)
  case (Cons r rs)
  obtain t d where r: "r = (t, d)" by (cases r)
  have d: "length d < 65536" using Cons.prems by (simp add: r)
  then have u: "unat (of_nat (length d) :: u16) = length d" by (simp add: unat_of_nat)
  let ?rest = "concat (map (\<lambda>r. be16 0xc00c @ entry r) rs)"
  let ?pre = "hdr @ name_wire name @ mid"
  let ?buf = "?pre @ be16 0xc00c @ entry r @ ?rest"
  let ?st = "\<lambda>off. \<lparr>Buf = ?buf, Offset = off, Errors = es\<rparr>"
  have name: "ReadDomainName (?st (length ?pre)) = (name, ?st (length ?pre + 2))"
    by (rule ReadDomainName_pointer [OF assms(1) _ assms(2), of _ "mid @ be16 0xc00c @ entry r @ ?rest"])
       (simp_all add: be16_pointer nth_append)
  have ty: "readUint16 (?st (length ?pre + 2)) = (t, ?st (length ?pre + 4))"
    using readUint16_at [of "?pre @ be16 0xc00c" "length ?pre + 2" t] by (simp add: r entry_def)
  have len: "readUint16 (?st (length ?pre + 10)) = (of_nat (length d), ?st (length ?pre + 12))"
    using readUint16_at [of "?pre @ be16 0xc00c @ be16 t @ be16 DnsClassIn @ be32 300" "length ?pre + 10" "of_nat (length d)"]
    by (simp add: r entry_def)
  have data: "drop (length ?pre + 12) ?buf = d @ ?rest"
    using append_eq_conv_conj [of "?pre @ be16 0xc00c @ be16 t @ be16 DnsClassIn @ be32 300 @ be16 (of_nat (length d))" "d @ ?rest" ?buf]
    by (simp add: r entry_def)
  have n4: "of_nat (length d) = (4 :: u16) \<longleftrightarrow> length d = 4" "of_nat (length d) = (16 :: u16) \<longleftrightarrow> length d = 16"
    using u by (auto simp: word_unat_eq_iff)
  have nxt: "length ?pre + 12 + length d = length (hdr @ name_wire name @ mid @ be16 0xc00c @ entry r)"
    by (simp add: r entry_def)
  have fits: "length ?pre + 12 + length d \<le> length ?buf" by (simp add: r entry_def)
  let ?mid = "mid @ be16 0xc00c @ entry r"
  have ih: "resolvedLoop (length rs) (?st (length ?pre + 12 + length d))
      = (concat (map entry_ips rs), ?st (length (hdr @ name_wire name @ ?mid @ ?rest)))"
    using Cons.IH [of ?mid] Cons.prems unfolding nxt by simp
  have ips: "(if t = DnsTypeA \<and> of_nat (length d) = (4 :: u16) then
        (if length ?pre + 12 + 4 \<le> length ?buf then [string4 (take 4 (drop (length ?pre + 12) ?buf))] else [])
      else if t = DnsTypeAAAA \<and> of_nat (length d) = (16 :: u16) then
        (if length ?pre + 12 + 16 \<le> length ?buf then [IPString (take 16 (drop (length ?pre + 12) ?buf))] else [])
      else []) = entry_ips r"
    using fits unfolding data n4 by (auto simp: entry_ips_def r)
  have six: "length ?pre + 4 + 6 = length ?pre + 10" by simp
  have "resolvedLoop (Suc (length rs)) (?st (length ?pre))
      = (entry_ips r @ concat (map entry_ips rs), ?st (length (hdr @ name_wire name @ ?mid @ ?rest)))"
    unfolding resolvedLoop.simps Let_def name ty prod.case DnsWireFormat.update_convs DnsWireFormat.select_convs
      six len u ips ih ..
  then show ?case by simp
qed simp

lemma matchedOffset_single: "matchedOffset [off] n = off"
  by (auto simp: matchedOffset_def Let_def)

lemma answer_wires_single:
  "answer_wires [12] n (map entry rs) = concat (map (\<lambda>r. be16 0xc00c @ entry r) rs)"
proof (induction rs arbitrary: n)
  case (Cons r rs)
  have "10 \<le> length (entry r)" by (simp add: entry_def split: prod.splits)
  with Cons show ?case by (simp add: matchedOffset_single not_less)
qed simp

lemma ParseResolved_single:
  assumes "wire_labels (Split (CHR ''.'') (pqName q))" "list_all (\<lambda>(t, d). length d < 65536) rs" "length rs < 65536"
  shows "ParseResolvedIpv4s (BuildResponsePacket txid flags rcode [q] (map entry rs)) = (concat (map entry_ips rs), [])"
proof -
  have ten: "10 \<le> length (entry r)" for r by (simp add: entry_def split: prod.splits)
  let ?a = "be16 txid @ be16 (response_flags flags rcode)"
  let ?hdr = "?a @ be16 1 @ be16 (of_nat (length rs)) @ be16 0 @ be16 0"
  let ?mid = "be16 (pqType q) @ be16 DnsClassIn"
  let ?all = "concat (map (\<lambda>r. be16 0xc00c @ entry r) rs)"
  let ?buf = "?hdr @ name_wire (pqName q) @ ?mid @ ?all"
  let ?st = "\<lambda>off. \<lparr>Buf = ?buf, Offset = off, Errors = []\<rparr>"
  have "BuildResponsePacket txid flags rcode [q] (map entry rs) = ?buf"
    using ten by (simp add: BuildResponsePacket_wire answer_wires_single question_wire_def question_of_def filter_id_conv)
  moreover have "readUint16 (?st 4) = (1, ?st 6)" using readUint16_at [of ?a 4 1] by simp
  moreover have "readUint16 (?st 6) = (of_nat (length rs), ?st 8)"
    using readUint16_at [of "?a @ be16 1" 6 "of_nat (length rs)"] by simp
  moreover have "ReadDomainName (?st 12) = (pqName q, ?st (12 + length (name_wire (pqName q))))"
    using ReadDomainName_at [OF assms(1), of ?hdr "?mid @ ?all" "[]"] by simp
  moreover have "12 + length (name_wire (pqName q)) + 4 = length (?hdr @ name_wire (pqName q) @ ?mid)" by simp
  moreover have "unat (of_nat (length rs) :: u16) = length rs" using assms(3) by (simp add: unat_of_nat)
  moreover have "12 \<le> length ?buf" by simp
  moreover have "resolvedLoop (length rs) (?st (length (?hdr @ name_wire (pqName q) @ ?mid)))
      = (concat (map entry_ips rs), ?st (length ?buf))"
    using resolvedLoop_entries [OF assms(1) _ assms(2), of ?hdr ?mid "[]"] by simp
  ultimately show ?thesis
    by (simp add: ParseResolvedIpv4s_def decoder_at Let_def numeral_eq_Suc [of "num.One"] del: append_assoc append.simps)
qed

lemma findHostConfig_in: "findHostConfig n s = Some hc \<Longrightarrow> \<exists>k. (k, hc) \<in> set (scHosts (srvCfg s))"
proof -
  have scan: "wildcardScan hosts ls = Some hc \<Longrightarrow> \<exists>k. (k, hc) \<in> set hosts" for hosts ls
    by (induction hosts ls rule: wildcardScan.induct) (auto split: option.splits dest: map_of_SomeD)
  show "findHostConfig n s = Some hc \<Longrightarrow> ?thesis"
    by (auto simp: findHostConfig_def Let_def split: option.splits if_splits dest!: map_of_SomeD dest: scan)
qed

lemma ToUpper_fixed: "\<forall>c\<in>set s. code c < 128 \<and> \<not> (97 \<le> code c \<and> code c \<le> 122) \<Longrightarrow> ToUpper L s = s"
  by (auto simp: ToUpper_def isASCII_def list_all_iff ascii_upper_def intro!: map_idI)

lemma concat_singletons: "\<forall>x\<in>set xs. g x = [f x] \<Longrightarrow> concat (map g xs) = map f xs"
  by (induction xs) auto

lemma toTypeNumber_valid:
  assumes "ValidateDnsRecord r = None"
  shows "toTypeNumber L (drType r) = DnsTypeA \<longleftrightarrow> drType r = ''A''"
proof -
  have upper: "ToUpper L t = t" if "t \<in> {''A'', ''AAAA'', ''CNAME'', ''NS'', ''PTR'', ''TXT'', ''MX'', ''SRV''}" for t
    using that by (intro ToUpper_fixed) auto
  have "drType r \<in> {''A'', ''AAAA'', ''CNAME'', ''NS'', ''PTR'', ''TXT'', ''MX'', ''SRV''}"
    using assms by (auto simp: ValidateDnsRecord_def split: if_splits)
  with upper [OF this] show ?thesis unfolding toTypeNumber_def Let_def by (auto simp: dns_consts)
qed

lemma valid_A_data:
  assumes "ValidateDnsRecord r = None" "drType r = ''A''"
  shows "length (recordData r) = 4 \<and> string4 (recordData r) = NormalizeIp (drAddress r)"
proof -
  from assms obtain ip b where ip: "ParseIP (drAddress r) = Some ip" "To4 ip = Some b"
    by (auto simp: ValidateDnsRecord_def IsValidIPv4_def split: if_splits option.splits)
  have b: "length b = 4" using To4_ParseIP [OF ip] by simp
  then have "IPString b = string4 b" by (simp add: IPString_def To4_def)
  with ip b assms(2) show ?thesis
    by (simp add: recordData_def EncodeARecord_def nil_bytes_def NormalizeIp_def)
qed

text \<open>The configured address records of a host.\<close>

definition address_records :: "HostConfig \<Rightarrow> DnsRecord list" where
  "address_records hc = filter (\<lambda>r. drType r = ''A'') (hcRecords hc)"

lemma host_answers:
  assumes "list_all (\<lambda>r. ValidateDnsRecord r = None) (hcRecords hc)"
  shows "buildAnswers L hc DnsTypeA = map entry (map (\<lambda>r. (DnsTypeA, recordData r)) (address_records hc))"
    and "concat (map entry_ips (map (\<lambda>r. (DnsTypeA, recordData r)) (address_records hc)))
           = map (\<lambda>r. NormalizeIp (drAddress r)) (address_records hc)"
    and "list_all (\<lambda>(t, d). length d < 65536) (map (\<lambda>r. (DnsTypeA, recordData r)) (address_records hc))"
proof -
  have A: "toTypeNumber L (drType r) = DnsTypeA \<longleftrightarrow> drType r = ''A''" if "r \<in> set (hcRecords hc)" for r
    using assms that by (intro toTypeNumber_valid) (auto simp: list_all_iff)
  then have "filter (\<lambda>r. toTypeNumber L (drType r) = DnsTypeA) (hcRecords hc) = address_records hc"
    by (auto simp: address_records_def intro: filter_cong)
  moreover have "toTypeNumber L (drType r) = DnsTypeA" if "r \<in> set (address_records hc)" for r
    using A [of r] that by (simp add: address_records_def)
  ultimately show "buildAnswers L hc DnsTypeA = map entry (map (\<lambda>r. (DnsTypeA, recordData r)) (address_records hc))"
    by (simp add: buildAnswers_def buildSingleAnswer_def entry_def)
  have d: "length (recordData r) = 4 \<and> string4 (recordData r) = NormalizeIp (drAddress r)"
    if "r \<in> set (address_records hc)" for r
    using assms that by (intro valid_A_data) (auto simp: address_records_def list_all_iff)
  then show "list_all (\<lambda>(t, d). length d < 65536) (map (\<lambda>r. (DnsTypeA, recordData r)) (address_records hc))"
    by (simp add: list_all_iff)
  show "concat (map entry_ips (map (\<lambda>r. (DnsTypeA, recordData r)) (address_records hc)))
           = map (\<lambda>r. NormalizeIp (drAddress r)) (address_records hc)"
    unfolding map_map comp_def by (rule concat_singletons) (use d in \<open>auto simp: entry_ips_def\<close>)
qed


definition example_host :: HostConfig where
  "example_host = \<lparr>hcRecords =
      [\<lparr>drType = ''A'', drAddress = ''10.0.0.7'', drTarget = [], drData = [], drPriority = None,
        drExchange = [], drWeight = None, drPort = None\<rparr>],
      hcHttpProxy = None, hcTlsProxy = None, hcRedirect = None\<rparr>"

definition example_server :: DevDnsServer where
  "example_server = NewDevDnsServer (example_accepted\<lparr>scHosts := [(''www.a.io'', example_host)]\<rparr>)"

definition example_query :: bytes where
  "example_query = [0, 7, 1, 0, 0, 1, 0, 0, 0, 0, 0, 0, 3, 119, 119, 119, 1, 97, 2, 105, 111, 0, 0, 1, 0, 1]"


theorem server_replies_witness:
  "\<exists>b log t. Resolve example_lib 0 0 [1, 2, 3] ''10.0.0.9'' example_server = Some (Ret (b, log, t))
    \<and> srvCfg t = srvCfg example_server
    \<and> (\<forall>x. b = Some x \<longrightarrow> 12 \<le> length x \<and> bit (get16 x 2) 15 \<and> take 2 x = take 2 [1, 2, 3])"
  by (rule server_replies) (auto simp: example_server_def intro: reach_init)

end
