(* ===== verification/Dnssec.thy ===== *)
theory Dnssec
  imports Wire GoHash AuditLog "HOL-Library.List_Lexorder" "HOL-Library.Multiset"
begin

text \<open>
  The DNSSEC checks of \<^verbatim>\<open>src/pkg/dns/dnssec.go\<close>: the record sections of a response, the RRSIG and
  DNSKEY records, the data a signature covers, key tags, and the verdict on a response.

  The signature algorithms are the parameters \<open>RsaVerify\<close> and \<open>EcdsaVerify\<close> of the record \<open>golib\<close>;
  the clock is an argument.  Each function returns the logger calls it makes.  \<^verbatim>\<open>sort.Slice\<close> is
  insertion sort, which Go runs on up to twelve records; on more, Go leaves the order of records with
  equal data open.
\<close>

section \<open>Records\<close>

record ParsedRecord =
  prName :: string
  prType :: u16
  prClass :: u16
  prTTL :: u32
  prRdLength :: u16
  prRdata :: bytes
  prOffset :: nat

record RRSIG =
  TypeCovered :: u16
  sigAlgorithm :: byte
  Labels :: byte
  OriginalTTL :: u32
  SignatureExpiration :: u32
  SignatureInception :: u32
  KeyTag :: u16
  SignerName :: string
  Signature :: bytes
  RawRdata :: bytes

record DNSKEY =
  Flags :: u16
  Protocol :: byte
  keyAlgorithm :: byte
  PublicKey :: bytes

definition parseDomainNameCanonical :: "golib \<Rightarrow> bytes \<Rightarrow> nat \<Rightarrow> string \<times> nat" where
  "parseDomainNameCanonical L buf offset =
     (case ReadDomainName ((NewDnsWireFormat (Some buf))\<lparr>Offset := offset\<rparr>) of
        (name, dw) \<Rightarrow> (ToLower L name, Offset dw))"

definition encodeCanonicalName :: "golib \<Rightarrow> string \<Rightarrow> bytes" where
  "encodeCanonicalName L name = Finish (WriteDomainName (ToLower L name) (NewDnsWireFormat None))"

definition parseDnskey :: "bytes \<Rightarrow> DNSKEY option" where
  "parseDnskey rdata =
     (if length rdata < 4 then None
      else Some \<lparr>Flags = get16 rdata 0, Protocol = rdata ! 2, keyAlgorithm = rdata ! 3, PublicKey = drop 4 rdata\<rparr>)"

text \<open>The signature, and the messages that reading the name of the signer logged.\<close>

definition parseRrsig :: "bytes \<Rightarrow> (RRSIG \<times> string list) option" where
  "parseRrsig rdata =
     (if length rdata < 18 then None
      else case ReadDomainName ((NewDnsWireFormat (Some rdata))\<lparr>Offset := 18\<rparr>) of
        (signerName, dw) \<Rightarrow>
          Some (\<lparr>TypeCovered = get16 rdata 0, sigAlgorithm = rdata ! 2, Labels = rdata ! 3,
                 OriginalTTL = get32 rdata 4, SignatureExpiration = get32 rdata 8, SignatureInception = get32 rdata 12,
                 KeyTag = get16 rdata 16, SignerName = signerName, Signature = drop (Offset dw) rdata,
                 RawRdata = rdata\<rparr>, Errors dw))"

fun skipQuestionNames :: "nat \<Rightarrow> DnsWireFormat \<Rightarrow> DnsWireFormat" where
  "skipQuestionNames 0 dw = dw"
| "skipQuestionNames (Suc n) dw =
     (case ReadDomainName dw of (_, dw) \<Rightarrow> skipQuestionNames n (dw\<lparr>Offset := Offset dw + 4\<rparr>))"

fun parseSection :: "golib \<Rightarrow> nat \<Rightarrow> DnsWireFormat \<Rightarrow> ParsedRecord list \<times> DnsWireFormat" where
  "parseSection L 0 dw = ([], dw)"
| "parseSection L (Suc n) dw =
     (if Offset dw \<ge> length (Buf dw) then ([], dw)
      else
       (let (name, dw) = ReadDomainName dw;
            (rtype, dw) = ReadUint16 dw;
            (rclass, dw) = ReadUint16 dw;
            (ttl, dw) = ReadUint32 dw;
            (rdlen, dw) = ReadUint16 dw
        in if Offset dw + unat rdlen > length (Buf dw) then ([], dw)
           else
            (let r = \<lparr>prName = ToLower L name, prType = rtype, prClass = rclass, prTTL = ttl, prRdLength = rdlen,
                   prRdata = take (unat rdlen) (drop (Offset dw) (Buf dw)), prOffset = Offset dw\<rparr>;
                 (rs, dw) = parseSection L n (dw\<lparr>Offset := Offset dw + unat rdlen\<rparr>)
             in (r # rs, dw))))"

text \<open>
  The sections of a packet and the messages logged, or none for a packet that is too short.  The
  readers never panic, so the deferred \<^verbatim>\<open>recover\<close> has nothing to catch.
\<close>

record Sections =
  qdcount :: nat
  answers :: "ParsedRecord list"
  authorities :: "ParsedRecord list"
  additionals :: "ParsedRecord list"

definition extractRecords :: "golib \<Rightarrow> bytes \<Rightarrow> (Sections \<times> string list) option" where
  "extractRecords L buffer =
     (if length buffer < 12 then None
      else
       (let dw = (NewDnsWireFormat (Some buffer))\<lparr>Offset := 4\<rparr>;
            (qd, dw) = ReadUint16 dw;
            (an, dw) = ReadUint16 dw;
            (ns, dw) = ReadUint16 dw;
            (ar, dw) = ReadUint16 dw;
            dw = skipQuestionNames (unat qd) dw;
            (ans, dw) = parseSection L (unat an) dw;
            (auth, dw) = parseSection L (unat ns) dw;
            (add, dw) = parseSection L (unat ar) dw
        in Some (\<lparr>qdcount = unat qd, answers = ans, authorities = auth, additionals = add\<rparr>, Errors dw)))"

section \<open>Signatures\<close>

fun rdataLess :: "bytes \<Rightarrow> bytes \<Rightarrow> bool" where
  "rdataLess (x # a) (y # b) = (if x \<noteq> y then x < y else rdataLess a b)"
| "rdataLess a b = (length a < length b)"

fun insertRecord :: "ParsedRecord \<Rightarrow> ParsedRecord list \<Rightarrow> ParsedRecord list" where
  "insertRecord r [] = [r]"
| "insertRecord r (s # rs) =
     (if rdataLess (prRdata s) (prRdata r) then s # insertRecord r rs else r # s # rs)"

definition sortRrset :: "ParsedRecord list \<Rightarrow> ParsedRecord list" where
  "sortRrset rrset = foldr insertRecord rrset []"

definition signedRecord :: "golib \<Rightarrow> RRSIG \<Rightarrow> ParsedRecord \<Rightarrow> bytes" where
  "signedRecord L rrsig rr =
     encodeCanonicalName L (prName rr)
     @ be16 (prType rr) @ be16 (prClass rr) @ be32 (OriginalTTL rrsig) @ be16 (prRdLength rr) @ prRdata rr"

definition signedData :: "golib \<Rightarrow> RRSIG \<Rightarrow> ParsedRecord list \<Rightarrow> bytes" where
  "signedData L rrsig rrset =
     take 18 (RawRdata rrsig) @ encodeCanonicalName L (SignerName rrsig)
     @ concat (map (signedRecord L rrsig) (sortRrset rrset))"

definition SetBytes :: "bytes \<Rightarrow> nat" where
  "SetBytes bs = foldl (\<lambda>n b. 256 * n + unat b) 0 bs"

text \<open>The exponent is a 64-bit \<^verbatim>\<open>int\<close>, shifted without a check.\<close>

definition rsaExponent :: "bytes \<Rightarrow> int" where
  "rsaExponent bs = sint (foldl (\<lambda>e b. push_bit 8 e OR ucast b) (0 :: u64) bs)"

definition verifyRsa :: "golib \<Rightarrow> bytes \<Rightarrow> bytes \<Rightarrow> bytes \<Rightarrow> bool \<times> audit_call list" where
  "verifyRsa L pubKeyRaw hashed sig =
     (if length pubKeyRaw < 2 then (False, [])
      else if pubKeyRaw ! 0 = 0 \<and> length pubKeyRaw < 3 then (False, [])
      else
       (let exponentLen = (if pubKeyRaw ! 0 = 0 then unat (get16 pubKeyRaw 1) else unat (pubKeyRaw ! 0));
            offset = (if pubKeyRaw ! 0 = 0 then 3 else 1)
        in if length pubKeyRaw < offset + exponentLen then (False, [])
           else
            (let exponentBytes = take exponentLen (drop offset pubKeyRaw);
                 modulusBytes = drop (offset + exponentLen) pubKeyRaw
             in if modulusBytes = []
                then (False, [LogError ''DNSSEC Cryptographic Violation: Zero modulus key exception rejected''])
                else (RsaVerify L (SetBytes modulusBytes) (rsaExponent exponentBytes) hashed sig, []))))"

definition verifyEcdsa :: "golib \<Rightarrow> bytes \<Rightarrow> bytes \<Rightarrow> bytes \<Rightarrow> bool" where
  "verifyEcdsa L pubKeyRaw hashed sig =
     (if length pubKeyRaw \<noteq> 64 then False
      else if length sig \<noteq> 64 then False
      else EcdsaVerify L (SetBytes (take 32 pubKeyRaw)) (SetBytes (drop 32 pubKeyRaw)) hashed
             (SetBytes (take 32 sig)) (SetBytes (drop 32 sig)))"

definition verifySignature ::
  "golib \<Rightarrow> u32 \<Rightarrow> RRSIG \<Rightarrow> ParsedRecord list \<Rightarrow> DNSKEY \<Rightarrow> bool \<times> audit_call list" where
  "verifySignature L now rrsig rrset dnskey =
     (if now > SignatureExpiration rrsig \<or> now < SignatureInception rrsig
      then (False, [LogError ''DNSSEC Temporal Fault: RRSIG outside validity window''])
      else
       (let hashed = Sha256 (signedData L rrsig rrset) in
        if sigAlgorithm rrsig = 8 then verifyRsa L (PublicKey dnskey) hashed (Signature rrsig)
        else if sigAlgorithm rrsig = 13 then (verifyEcdsa L (PublicKey dnskey) hashed (Signature rrsig), [])
        else (False, [LogSystem (''DNSSEC Skipped: Unsupported cryptographic algorithm ''
                                 @ itoa (unat (sigAlgorithm rrsig)))])))"

fun keyTagSum :: "bool \<Rightarrow> bytes \<Rightarrow> u32 \<Rightarrow> u32" where
  "keyTagSum low [] ac = ac"
| "keyTagSum low (b # bs) ac =
     keyTagSum (\<not> low) bs (ac + (if low then ucast b else push_bit 8 (ucast b)))"

definition calculateKeyTag :: "DNSKEY \<Rightarrow> bytes \<Rightarrow> u16 outcome" where
  "calculateKeyTag k rawRdata =
     (if keyAlgorithm k = 1 then
        (let n = length (PublicKey k) in
         if n < 2 then Ret 0
         else if n < 3 then Panic
         else Ret (push_bit 8 (ucast (PublicKey k ! (n - 3))) + ucast (PublicKey k ! (n - 2))))
      else
       (let ac = keyTagSum False rawRdata 0; ac = ac + (drop_bit 16 ac AND 0xffff)
        in Ret (ucast (ac AND 0xffff))))"

section \<open>The verdict on a response\<close>

definition isHostConfigDomainSecure :: "golib \<Rightarrow> string \<Rightarrow> FirewallConfig option \<Rightarrow> bool" where
  "isHostConfigDomainSecure L domain fw =
     (case fw of None \<Rightarrow> False
      | Some fw \<Rightarrow>
         (let normDomain = ToLower L (TrimSuffix domain ''.'') in
          list_ex (\<lambda>pattern.
            let normPattern = ToLower L (TrimSuffix pattern ''.'') in
            normPattern = normDomain
            \<or> (HasPrefix normPattern ''*.'' \<and> HasSuffix normDomain (''.'' @ drop 2 normPattern))) (AllowlistDomains fw)))"

fun findDnskey :: "u16 \<Rightarrow> ParsedRecord list \<Rightarrow> DNSKEY option outcome" where
  "findDnskey keyTag [] = Ret None"
| "findDnskey keyTag (kRec # rest) =
     (case parseDnskey (prRdata kRec) of
        None \<Rightarrow> findDnskey keyTag rest
      | Some k \<Rightarrow>
          (case calculateKeyTag k (prRdata kRec) of
             Panic \<Rightarrow> Panic
           | Ret tag \<Rightarrow> if tag = keyTag then Ret (Some k) else findDnskey keyTag rest))"

fun verifyRrsigs ::
  "golib \<Rightarrow> u32 \<Rightarrow> ParsedRecord list \<Rightarrow> ParsedRecord list \<Rightarrow> ParsedRecord list \<Rightarrow> (bool \<times> audit_call list) outcome" where
  "verifyRrsigs L now ans keys [] = Ret (True, [])"
| "verifyRrsigs L now ans keys (sigRec # rest) =
     (case parseRrsig (prRdata sigRec) of
        None \<Rightarrow> verifyRrsigs L now ans keys rest
      | Some (rrsig, errs) \<Rightarrow>
         (let covered = filter (\<lambda>rr. prName rr = prName sigRec \<and> prType rr = TypeCovered rrsig) ans;
              go = (\<lambda>log. map_outcome (\<lambda>(b, l). (b, map LogError errs @ log @ l)) (verifyRrsigs L now ans keys rest))
          in if covered = [] then go []
             else case findDnskey (KeyTag rrsig) keys of
               Panic \<Rightarrow> Panic
             | Ret None \<Rightarrow>
                 Ret (False, map LogError errs @ [LogError (''DNSSEC Cryptographic Fault: No matching DNSKEY found for RRSIG key tag ''
                                        @ itoa (unat (KeyTag rrsig)))])
             | Ret (Some k) \<Rightarrow>
                 (case verifySignature L now rrsig covered k of
                    (True, log) \<Rightarrow> go log
                  | (False, log) \<Rightarrow>
                      Ret (False, map LogError errs @ log
                             @ [LogError (''DNSSEC Cryptographic Fault: Signature validation failed for '' @ prName sigRec)]))))"

definition VerifyDnssecResponse ::
  "golib \<Rightarrow> u32 \<Rightarrow> bytes \<Rightarrow> string list \<Rightarrow> FirewallConfig option \<Rightarrow> (bool \<times> audit_call list) outcome" where
  "VerifyDnssecResponse L now buffer expectedNames fw =
     (case extractRecords L buffer of
        None \<Rightarrow> Ret (False, [])
      | Some (s, errs) \<Rightarrow>
         (let allRecords = answers s @ authorities s @ additionals s;
              dnskeyRecords = filter (\<lambda>r. prType r = 48) allRecords;
              rrsigRecords = filter (\<lambda>r. prType r = 46) allRecords
          in if rrsigRecords = [] then
               (case find (\<lambda>name. isHostConfigDomainSecure L name fw) expectedNames of
                  Some name \<Rightarrow> Ret (False, map LogError errs
                    @ [LogError (''DNSSEC Enforcement Downgrade Fault: Stripped signatures detected for secure zone '' @ name)])
                | None \<Rightarrow> Ret (True, map LogError errs))
             else map_outcome (\<lambda>(b, l). (b, map LogError errs @ l))
                    (verifyRrsigs L now (answers s) dnskeyRecords rrsigRecords)))"

section \<open>The data under a signature\<close>

lemma rdataLess_iff: "rdataLess a b \<longleftrightarrow> a < b"
proof -
  have "[] < b \<longleftrightarrow> b \<noteq> []" for b :: bytes by (cases b) simp_all
  then show ?thesis by (induction a b rule: rdataLess.induct) auto
qed

lemma map_insertRecord: "map prRdata (insertRecord r rs) = insort (prRdata r) (map prRdata rs)"
  by (induction rs) (auto simp: rdataLess_iff not_less)

lemma mset_insertRecord [simp]: "mset (insertRecord r rs) = add_mset r (mset rs)"
  by (induction rs) auto

lemma map_sortRrset: "map prRdata (sortRrset rs) = sort (map prRdata rs)"
  by (induction rs) (simp_all add: sortRrset_def map_insertRecord)

lemma mset_sortRrset [simp]: "mset (sortRrset rs) = mset rs"
  by (induction rs) (simp_all add: sortRrset_def)

text \<open>The records of one set: one owner, one type, one class, and a length field that fits the data.\<close>

definition one_rrset :: "string \<Rightarrow> u16 \<Rightarrow> u16 \<Rightarrow> ParsedRecord list \<Rightarrow> bool" where
  "one_rrset name rtype rclass rs =
     list_all (\<lambda>r. prName r = name \<and> prType r = rtype \<and> prClass r = rclass
                   \<and> prRdLength r = of_nat (length (prRdata r))) rs"

lemma signedRecord_rdata:
  assumes "one_rrset name rtype rclass rs"
  shows "map (signedRecord L rrsig) rs = map (\<lambda>d. encodeCanonicalName L name @ be16 rtype @ be16 rclass
           @ be32 (OriginalTTL rrsig) @ be16 (of_nat (length d)) @ d) (map prRdata rs)"
  using assms by (auto simp: one_rrset_def list_all_iff signedRecord_def)

lemma one_rrset_perm: "mset ys = mset rs \<Longrightarrow> one_rrset n t c ys = one_rrset n t c rs"
  by (simp add: one_rrset_def list_all_iff flip: set_mset_mset)

definition example_rr :: "byte \<Rightarrow> ParsedRecord" where
  "example_rr b = \<lparr>prName = ''a.io'', prType = 1, prClass = 1, prTTL = 60, prRdLength = 4,
     prRdata = [10, 0, 0, b], prOffset = 0\<rparr>"

definition example_rrsig :: RRSIG where
  "example_rrsig = \<lparr>TypeCovered = 1, sigAlgorithm = 13, Labels = 2, OriginalTTL = 60, SignatureExpiration = 9,
     SignatureInception = 1, KeyTag = 781, SignerName = ''io'', Signature = replicate 64 0,
     RawRdata = replicate 18 7\<rparr>"

text \<open>
  The data that a signature is checked against is the canonical form of RFC 4034: the fixed part of
  the signature, the signer's name and the records of the set in the order of their data, each with
  the canonical owner name and the original TTL.  It is the same for every order in which the response
  lists the records, and for every way to sort them by their data.
\<close>

theorem signedData_canonical:
  assumes "mset ys = mset rrset" "one_rrset name rtype rclass rrset"
    and "sorted_wrt (\<lambda>a b. \<not> rdataLess (prRdata b) (prRdata a)) ys"
  shows "signedData L rrsig rrset = take 18 (RawRdata rrsig) @ encodeCanonicalName L (SignerName rrsig)
           @ concat (map (signedRecord L rrsig) ys)"
proof -
  have "sorted (map prRdata ys)" using assms(3) by (simp add: rdataLess_iff not_less sorted_wrt_map)
  moreover have "mset (map prRdata ys) = mset (map prRdata rrset)" using assms(1) by simp
  ultimately have "map prRdata ys = sort (map prRdata rrset)" by (metis properties_for_sort)
  then have "map prRdata (sortRrset rrset) = map prRdata ys" by (simp add: map_sortRrset)
  moreover have "one_rrset name rtype rclass ys" "one_rrset name rtype rclass (sortRrset rrset)"
    using assms(1,2) one_rrset_perm by (metis mset_sortRrset)+
  ultimately have "map (signedRecord L rrsig) (sortRrset rrset) = map (signedRecord L rrsig) ys"
    by (simp only: signedRecord_rdata)
  then show ?thesis by (simp add: signedData_def)
qed

theorem signedData_canonical_witness:
  "signedData example_lib example_rrsig [example_rr 2, example_rr 1]
     = take 18 (RawRdata example_rrsig) @ encodeCanonicalName example_lib (SignerName example_rrsig)
       @ concat (map (signedRecord example_lib example_rrsig) [example_rr 1, example_rr 2])"
  by (rule signedData_canonical [of _ _ "''a.io''" 1 1])
     (simp_all add: one_rrset_def example_rr_def)

section \<open>Accepted responses\<close>

lemma findDnskey_Some:
  "findDnskey tag keys = Ret (Some k) \<Longrightarrow>
     \<exists>r\<in>set keys. parseDnskey (prRdata r) = Some k \<and> calculateKeyTag k (prRdata r) = Ret tag"
  by (induction tag keys rule: findDnskey.induct) (auto split: option.splits outcome.splits if_splits)

definition covered_by :: "ParsedRecord \<Rightarrow> RRSIG \<Rightarrow> ParsedRecord list \<Rightarrow> ParsedRecord list" where
  "covered_by sigRec rrsig ans = filter (\<lambda>rr. prName rr = prName sigRec \<and> prType rr = TypeCovered rrsig) ans"

text \<open>A signature record is satisfied: it covers no answer, or one of the keys verifies it.\<close>

definition verified :: "golib \<Rightarrow> u32 \<Rightarrow> ParsedRecord list \<Rightarrow> ParsedRecord list \<Rightarrow> ParsedRecord \<Rightarrow> RRSIG \<Rightarrow> bool" where
  "verified L now ans keys sigRec rrsig \<longleftrightarrow>
     covered_by sigRec rrsig ans = []
     \<or> SignatureInception rrsig \<le> now \<and> now \<le> SignatureExpiration rrsig
       \<and> (\<exists>r\<in>set keys. \<exists>k. parseDnskey (prRdata r) = Some k \<and> calculateKeyTag k (prRdata r) = Ret (KeyTag rrsig)
            \<and> fst (verifySignature L now rrsig (covered_by sigRec rrsig ans) k))"

lemma verifySignature_window:
  "fst (verifySignature L now rrsig rrset k) \<Longrightarrow> SignatureInception rrsig \<le> now \<and> now \<le> SignatureExpiration rrsig"
  by (auto simp: verifySignature_def not_less split: if_splits)

lemma map_outcome_Ret [simp]: "map_outcome f x = Ret y \<longleftrightarrow> (\<exists>z. x = Ret z \<and> f z = y)"
  by (cases x) auto

lemma map_outcome_Panic [simp]: "map_outcome f x = Panic \<longleftrightarrow> x = Panic"
  by (cases x) auto

lemma verifyRrsigs_step:
  assumes "verifyRrsigs L now ans keys (s # rest) = Ret (True, log)"
  shows "(\<exists>log'. verifyRrsigs L now ans keys rest = Ret (True, log'))
    \<and> (\<forall>r e. parseRrsig (prRdata s) = Some (r, e) \<longrightarrow> verified L now ans keys s r)"
proof (cases "parseRrsig (prRdata s)")
  case None
  with assms show ?thesis by simp
next
  case (Some re)
  obtain r e where re: "re = (r, e)" by (cases re)
  show ?thesis
  proof (cases "covered_by s r ans = []")
    case True
    then have "verified L now ans keys s r" by (simp add: verified_def)
    with True assms Some re show ?thesis by (auto simp: covered_by_def Let_def)
  next
    case False
    with assms Some re obtain k l where k: "findDnskey (KeyTag r) keys = Ret (Some k)"
        "verifySignature L now r (covered_by s r ans) k = (True, l)"
        "\<exists>log. verifyRrsigs L now ans keys rest = Ret (True, log)"
      by (auto simp: covered_by_def Let_def split: outcome.splits option.splits prod.splits bool.splits)
    with findDnskey_Some [OF k(1)] verifySignature_window [of L now r "covered_by s r ans" k] Some re
    show ?thesis by (fastforce simp: verified_def)
  qed
qed

lemma verifyRrsigs_verified:
  assumes "verifyRrsigs L now ans keys sigs = Ret (True, log)" "sigRec \<in> set sigs"
    "parseRrsig (prRdata sigRec) = Some (rrsig, errs)"
  shows "verified L now ans keys sigRec rrsig"
  using assms(1,2)
proof (induction sigs arbitrary: log)
  case (Cons s rest)
  from verifyRrsigs_step [OF Cons.prems(1)] Cons.IH Cons.prems(2) assms(3) show ?case by auto
qed simp

text \<open>
  C3: a response is accepted only if it is a packet of at least 12 bytes and, when it carries no
  signature, none of the names asked for is in a zone the firewall lists as secure; otherwise every
  well-formed signature record that covers records of the answer section is inside its validity
  period and verifies, under a key of the response with its key tag, over all the records it covers.
\<close>

theorem VerifyDnssecResponse_sound:
  assumes "VerifyDnssecResponse L now buffer names fw = Ret (True, log)"
  shows "\<exists>s errs. extractRecords L buffer = Some (s, errs)
    \<and> (let records = answers s @ authorities s @ additionals s;
           sigs = filter (\<lambda>r. prType r = 46) records; keys = filter (\<lambda>r. prType r = 48) records
       in (sigs = [] \<longrightarrow> list_all (\<lambda>n. \<not> isHostConfigDomainSecure L n fw) names)
        \<and> (\<forall>sigRec\<in>set sigs. \<forall>rrsig errs. parseRrsig (prRdata sigRec) = Some (rrsig, errs)
              \<longrightarrow> verified L now (answers s) keys sigRec rrsig))"
proof -
  from assms obtain s errs where s: "extractRecords L buffer = Some (s, errs)"
    by (auto simp: VerifyDnssecResponse_def split: option.splits)
  define records where "records = answers s @ authorities s @ additionals s"
  define sigs where "sigs = filter (\<lambda>r. prType r = 46) records"
  define keys where "keys = filter (\<lambda>r. prType r = 48) records"
  have "sigs = [] \<longrightarrow> list_all (\<lambda>n. \<not> isHostConfigDomainSecure L n fw) names"
    using assms s by (auto simp: VerifyDnssecResponse_def Let_def sigs_def records_def find_None_iff list_all_iff
      split: option.splits)
  moreover have "verified L now (answers s) keys sigRec rrsig"
    if "sigRec \<in> set sigs" "parseRrsig (prRdata sigRec) = Some (rrsig, e)" for sigRec rrsig e
  proof -
    have "sigs \<noteq> []" using that by auto
    then obtain l where "verifyRrsigs L now (answers s) keys sigs = Ret (True, l)"
      using assms s unfolding VerifyDnssecResponse_def Let_def
      by (auto simp: sigs_def keys_def records_def)
    then show ?thesis using that by (rule verifyRrsigs_verified)
  qed
  ultimately show ?thesis using s unfolding sigs_def keys_def records_def Let_def by blast
qed

section \<open>Panics\<close>

lemma calculateKeyTag_Panic:
  "calculateKeyTag k raw = Panic \<longleftrightarrow> keyAlgorithm k = 1 \<and> length (PublicKey k) = 2"
  by (auto simp: calculateKeyTag_def Let_def)

lemma findDnskey_Panic:
  "findDnskey tag keys = Panic \<Longrightarrow> \<exists>r\<in>set keys. length (prRdata r) = 6 \<and> prRdata r ! 3 = 1"
  by (induction tag keys rule: findDnskey.induct)
     (auto simp: calculateKeyTag_Panic parseDnskey_def split: option.splits outcome.splits if_splits)

lemma verifyRrsigs_Panic:
  "verifyRrsigs L now ans keys sigs = Panic \<Longrightarrow> \<exists>r\<in>set keys. length (prRdata r) = 6 \<and> prRdata r ! 3 = 1"
  by (induction L now ans keys sigs rule: verifyRrsigs.induct)
     (auto simp: Let_def dest: findDnskey_Panic split: option.splits outcome.splits prod.splits bool.splits if_splits)


text \<open>A response of three records of the root: an address, a signature over it and a key.\<close>

definition example_response :: "bytes \<Rightarrow> bytes" where
  "example_response key =
     [0, 0, 0, 0, 0, 0, 0, 3, 0, 0, 0, 0]
     @ [0, 0, 1, 0, 1, 0, 0, 0, 0, 0, 4, 10, 0, 0, 1]
     @ [0, 0, 46, 0, 1, 0, 0, 0, 0, 0, 19, 0, 1, 8, 0, 0, 0, 0, 0, 0, 0, 0, 9, 0, 0, 0, 0, 5, 11, 0]
     @ [0, 0, 48, 0, 1, 0, 0, 0, 0, 0, of_nat (length key)] @ key"

definition trusting_lib :: golib where
  "trusting_lib = example_lib\<lparr>RsaVerify := (\<lambda>n e hash sig. True)\<rparr>"

lemma example_response_accepted:
  "VerifyDnssecResponse trusting_lib 5 (example_response [0, 0, 3, 8, 1, 3, 1]) [] None = Ret (True, [])"
proof -
  let ?ans = "\<lparr>prName = [], prType = 1, prClass = 1, prTTL = 0, prRdLength = 4, prRdata = [10, 0, 0, 1], prOffset = 23\<rparr>"
  let ?sigdata = "[0, 1, 8, 0, 0, 0, 0, 0, 0, 0, 0, 9, 0, 0, 0, 0, 5, 11, 0]"
  let ?sig = "\<lparr>prName = [], prType = 46, prClass = 1, prTTL = 0, prRdLength = 19, prRdata = ?sigdata, prOffset = 38\<rparr>"
  let ?keydata = "[0, 0, 3, 8, 1, 3, 1]"
  let ?key = "\<lparr>prName = [], prType = 48, prClass = 1, prTTL = 0, prRdLength = 7, prRdata = ?keydata, prOffset = 68\<rparr>"
  have records: "extractRecords trusting_lib (example_response ?keydata)
      = Some (\<lparr>qdcount = 0, answers = [?ans, ?sig, ?key], authorities = [], additionals = []\<rparr>, [])"
    by code_simp
  have sig: "parseRrsig ?sigdata = Some (\<lparr>TypeCovered = 1, sigAlgorithm = 8, Labels = 0, OriginalTTL = 0,
      SignatureExpiration = 9, SignatureInception = 0, KeyTag = 1291, SignerName = [],
      Signature = [], RawRdata = ?sigdata\<rparr>, [])" by code_simp
  have key: "findDnskey 1291 [?key] = Ret (Some \<lparr>Flags = 0, Protocol = 3, keyAlgorithm = 8, PublicKey = [1, 3, 1]\<rparr>)"
    by code_simp
  show ?thesis
    unfolding VerifyDnssecResponse_def records using key
    by (simp add: sig Let_def verifySignature_def verifyRsa_def trusting_lib_def)
qed

theorem VerifyDnssecResponse_sound_witness:
  "\<exists>s errs. extractRecords trusting_lib (example_response [0, 0, 3, 8, 1, 3, 1]) = Some (s, errs)
    \<and> (let records = answers s @ authorities s @ additionals s;
           sigs = filter (\<lambda>r. prType r = 46) records; keys = filter (\<lambda>r. prType r = 48) records
       in (sigs = [] \<longrightarrow> list_all (\<lambda>n. \<not> isHostConfigDomainSecure trusting_lib n None) [])
        \<and> (\<forall>sigRec\<in>set sigs. \<forall>rrsig errs. parseRrsig (prRdata sigRec) = Some (rrsig, errs)
              \<longrightarrow> verified trusting_lib 5 (answers s) keys sigRec rrsig))"
  by (rule VerifyDnssecResponse_sound [OF example_response_accepted])


end
