(* ===== verification/DnsHandler.thy ===== *)
theory DnsHandler
  imports DnsServer Dnssec RateLimiter GoHttp
begin

text \<open>
  The network side of the DNS gateway, \<^verbatim>\<open>src/pkg/dns/handler.go\<close>: the UDP, TCP, DoT and DoH front
  ends, the forwarding of queries to the upstream resolver with random letter case (0x20) and the
  DNSSEC bit, the table of pending forwards, and the checks on what the upstream resolver returns.

  An operation takes what it reads from the outside as arguments (random bytes, the clock, the
  datagram or the stream the upstream resolver returns, none for any of the errors of an exchange,
  which the code treats alike) and returns the datagrams it sends, the logger calls it makes and the
  new state.  The limiters are objects that goroutines share while the configuration is replaced, so
  they live in a store and the handler holds a reference.
\<close>

section \<open>State\<close>

record UDPAddr =
  uaIP :: bytes
  uaPort :: int

record PendingUdpQuery =
  RemoteAddr :: UDPAddr
  OriginalID :: u16
  ExpectedNames :: "string list"
  OriginalQuery :: bytes

record DnsHandler =
  hServer :: DevDnsServer
  hCfg :: ServerConfig
  udpListener :: bool
  tcpListener :: bool
  dotListener :: bool
  dohServer :: bool
  rateLimiter :: "nat option"
  limiters :: "RateLimiter list"
  hPort :: int
  fallbackDns :: string
  maxTcpConns :: int
  idleTimeout :: int
  stopChan :: bool
  activeTcpConns :: "nat list"
  upstreamTcpConns :: "nat list"
  pendingUdpQueries :: "(u16, PendingUdpQuery) gomap option"
  maxUdpForwards :: int

definition NewDnsHandler :: "DevDnsServer \<Rightarrow> ServerConfig \<Rightarrow> DnsHandler" where
  "NewDnsHandler server cfg =
     \<lparr>hServer = server, hCfg = cfg, udpListener = False, tcpListener = False, dotListener = False, dohServer = False,
      rateLimiter = (if scRateLimitMaxRequests cfg > 0 then Some 0 else None),
      limiters = (if scRateLimitMaxRequests cfg > 0
                  then [NewRateLimiter (scRateLimitMaxRequests cfg) (scRateLimitWindowMs cfg) 100000] else []),
      hPort = scPort cfg, fallbackDns = scFallbackDns cfg,
      maxTcpConns = (if scMaxTcpConnections cfg > 0 then scMaxTcpConnections cfg else 100),
      idleTimeout = (if scTcpIdleTimeoutMs cfg > 0 then scTcpIdleTimeoutMs cfg * 1000000 else 30 * 1000000000),
      stopChan = False, activeTcpConns = [], upstreamTcpConns = [], pendingUdpQueries = Some [],
      maxUdpForwards = 2000\<rparr>"

text \<open>\<^verbatim>\<open>Destroy\<close> on the limiter the handler refers to, if any.\<close>

definition destroyLimiter :: "DnsHandler \<Rightarrow> DnsHandler outcome" where
  "destroyLimiter h =
     (case rateLimiter h of
        None \<Rightarrow> Ret h
      | Some p \<Rightarrow>
          (case Destroy (limiters h ! p) of
             Panic \<Rightarrow> Panic
           | Ret rl \<Rightarrow> Ret (h\<lparr>limiters := (limiters h)[p := rl]\<rparr>)))"

definition UpdateConfig :: "ServerConfig \<Rightarrow> DnsHandler \<Rightarrow> DnsHandler outcome" where
  "UpdateConfig newCfg h =
     (let h = h\<lparr>hCfg := newCfg, hPort := scPort newCfg, fallbackDns := scFallbackDns newCfg\<rparr>;
          h = (if scMaxTcpConnections newCfg > 0 then h\<lparr>maxTcpConns := scMaxTcpConnections newCfg\<rparr> else h);
          h = (if scTcpIdleTimeoutMs newCfg > 0 then h\<lparr>idleTimeout := scTcpIdleTimeoutMs newCfg * 1000000\<rparr> else h)
      in case destroyLimiter h of
           Panic \<Rightarrow> Panic
         | Ret h \<Rightarrow>
             (let h = h\<lparr>rateLimiter := None\<rparr> in
              if scRateLimitMaxRequests newCfg > 0 then
                Ret (h\<lparr>rateLimiter := Some (length (limiters h)),
                       limiters := limiters h
                         @ [NewRateLimiter (scRateLimitMaxRequests newCfg) (scRateLimitWindowMs newCfg) 100000]\<rparr>)
              else Ret h))"

section \<open>TLS material and listeners\<close>

definition resolveTlsMaterial :: "(string \<Rightarrow> string + bytes) \<Rightarrow> string \<Rightarrow> string + bytes" where
  "resolveTlsMaterial readFile data = (if Contains data ''-----BEGIN'' then Inr (bytes_of data) else readFile data)"

record TlsServerConfig =
  tlsSource :: TlsConfig
  MinVersion :: nat
  ClientCAs :: "bytes option"
  RequireClientCert :: bool

text \<open>The callback \<^verbatim>\<open>GetCertificate\<close>, which loads the files anew for each handshake.\<close>

definition getCertificate ::
  "(string \<Rightarrow> string + bytes) \<Rightarrow> (bytes \<Rightarrow> bytes \<Rightarrow> string + 'cert) \<Rightarrow> TlsConfig \<Rightarrow> string + 'cert" where
  "getCertificate readFile keyPair tc =
     (case resolveTlsMaterial readFile (tcCert tc) of
        Inl err \<Rightarrow> Inl (''failed to read cert: '' @ err)
      | Inr certBytes \<Rightarrow>
          (case resolveTlsMaterial readFile (tcKey tc) of
             Inl err \<Rightarrow> Inl (''failed to read key: '' @ err)
           | Inr keyBytes \<Rightarrow> keyPair certBytes keyBytes))"

definition loadTlsConfig :: "(string \<Rightarrow> string + bytes) \<Rightarrow> (bytes \<Rightarrow> bool) \<Rightarrow> TlsConfig \<Rightarrow> TlsServerConfig" where
  "loadTlsConfig readFile appendCerts tc =
     (let tlsCfg = \<lparr>tlsSource = tc, MinVersion = 0x0304, ClientCAs = None, RequireClientCert = False\<rparr> in
      if tcCa tc \<noteq> [] then
        (case resolveTlsMaterial readFile (tcCa tc) of
           Inl _ \<Rightarrow> tlsCfg
         | Inr caBytes \<Rightarrow>
             if appendCerts caBytes then tlsCfg\<lparr>ClientCAs := Some caBytes, RequireClientCert := True\<rparr> else tlsCfg)
      else tlsCfg)"

text \<open>What the calls that open sockets return: the bound UDP port, or the text of an error.\<close>

record ListenEnv =
  UdpListen :: "string + int"
  TcpListen :: "string option"
  DotListen :: "string option"
  DohServe :: "string option"

definition startUdp :: "ListenEnv \<Rightarrow> DnsHandler \<Rightarrow> string option \<times> DnsHandler" where
  "startUdp env h =
     (case UdpListen env of
        Inl err \<Rightarrow> (Some err, h)
      | Inr port \<Rightarrow> (None, h\<lparr>udpListener := True, hPort := (if hPort h = 0 then port else hPort h)\<rparr>))"

definition startTcp :: "ListenEnv \<Rightarrow> DnsHandler \<Rightarrow> string option \<times> DnsHandler" where
  "startTcp env h = (case TcpListen env of Some err \<Rightarrow> (Some err, h) | None \<Rightarrow> (None, h\<lparr>tcpListener := True\<rparr>))"

text \<open>\<^verbatim>\<open>Stop\<close> closes the stop channel, which panics the second time, the limiter, the listeners and
  the connections, and drops the pending forwards.\<close>

definition Stop :: "DnsHandler \<Rightarrow> DnsHandler outcome" where
  "Stop h =
     (if stopChan h then Panic
      else case destroyLimiter (h\<lparr>stopChan := True\<rparr>) of
        Panic \<Rightarrow> Panic
      | Ret h \<Rightarrow> Ret (h\<lparr>udpListener := False, tcpListener := False, dotListener := False, dohServer := False,
                      pendingUdpQueries := None\<rparr>))"

definition stopWith :: "string \<Rightarrow> audit_call list \<Rightarrow> DnsHandler \<Rightarrow> (string option \<times> audit_call list \<times> DnsHandler) outcome" where
  "stopWith err log h = (case Stop h of Panic \<Rightarrow> Panic | Ret h \<Rightarrow> Ret (Some err, log, h))"

definition Start :: "ListenEnv \<Rightarrow> DnsHandler \<Rightarrow> (string option \<times> audit_call list \<times> DnsHandler) outcome" where
  "Start env h =
     (case startUdp env h of
        (Some err, h) \<Rightarrow> Ret (Some err, [], h)
      | (None, h) \<Rightarrow>
          (case startTcp env h of
             (Some err, h) \<Rightarrow> stopWith err [] h
           | (None, h) \<Rightarrow>
              (let dotPort = (case scDotPort (hCfg h) of None \<Rightarrow> 853 | Some p \<Rightarrow> p);
                   dohPort = (case scDohPort (hCfg h) of None \<Rightarrow> 8443 | Some p \<Rightarrow> p)
               in case scTls (hCfg h) of
                    None \<Rightarrow> Ret (None, [], h)
                  | Some tc \<Rightarrow>
                      (case DotListen env of
                         Some err \<Rightarrow> stopWith err [] h
                       | None \<Rightarrow>
                           Ret (None,
                             [LogSystem (''DoT (DNS over TLS) isolated boundary listening on port '' @ itoa_int dotPort),
                              LogSystem (''DoH (DNS over HTTPS) isolated boundary listening on port '' @ itoa_int dohPort)]
                             @ (case DohServe env of None \<Rightarrow> []
                                | Some err \<Rightarrow> [LogError (''DoH server execution fault: '' @ err)]),
                             h\<lparr>dotListener := True, dohServer := True\<rparr>)))))"

text \<open>One accepted connection: refused when the table is full, otherwise entered in it.\<close>

definition acceptConn :: "nat \<Rightarrow> DnsHandler \<Rightarrow> bool \<times> DnsHandler" where
  "acceptConn conn h =
     (if int (length (activeTcpConns h)) \<ge> maxTcpConns h then (False, h)
      else (True, h\<lparr>activeTcpConns := conn # activeTcpConns h\<rparr>))"

definition closeConn :: "nat \<Rightarrow> DnsHandler \<Rightarrow> DnsHandler" where
  "closeConn conn h = h\<lparr>activeTcpConns := removeAll conn (activeTcpConns h)\<rparr>"

section \<open>Rate limiting\<close>

text \<open>
  \<^verbatim>\<open>isRateLimited\<close> reads the reference without the lock: \<open>allowAt\<close> is the call on what was read, in
  the state of the moment; on a nil reference it panics.
\<close>

definition allowAt :: "string list \<Rightarrow> int \<Rightarrow> string \<Rightarrow> nat option \<Rightarrow> DnsHandler \<Rightarrow> (bool \<times> DnsHandler) outcome" where
  "allowAt order now ip ref h =
     (case ref of
        None \<Rightarrow> Panic
      | Some p \<Rightarrow>
          (case Allow order now ip (limiters h ! p) of
             Panic \<Rightarrow> Panic
           | Ret (ok, rl) \<Rightarrow> Ret (ok, h\<lparr>limiters := (limiters h)[p := rl]\<rparr>)))"

definition isRateLimited :: "string list \<Rightarrow> int \<Rightarrow> string \<Rightarrow> DnsHandler \<Rightarrow> (bool \<times> DnsHandler) outcome" where
  "isRateLimited order now ip h =
     (if rateLimiter h = None then Ret (False, h)
      else case allowAt order now ip (rateLimiter h) h of
        Panic \<Rightarrow> Panic
      | Ret (ok, h) \<Rightarrow> Ret (\<not> ok, h))"

definition isPrivateIp :: "golib \<Rightarrow> string \<Rightarrow> bool" where
  "isPrivateIp L ipStr =
     (case ParseIP ipStr of
        None \<Rightarrow> False
      | Some ip \<Rightarrow>
          (case To4 ip of
             Some ip4 \<Rightarrow> (let b0 = ip4 ! 0; b1 = ip4 ! 1 in
               b0 = 127 \<or> b0 = 10 \<or> (b0 = 172 \<and> b1 \<ge> 16 \<and> b1 \<le> 31) \<or> (b0 = 192 \<and> b1 = 168))
           | None \<Rightarrow> (let norm = ToLower L (IPString ip) in
               norm = ''::1'' \<or> HasPrefix norm ''fe80:'' \<or> HasPrefix norm ''fc00:'' \<or> HasPrefix norm ''fd'')))"

section \<open>Letter case and the DNSSEC bit\<close>

definition flipCase :: "byte \<Rightarrow> byte \<Rightarrow> byte" where
  "flipCase e c =
     (if (c \<ge> 0x41 \<and> c \<le> 0x5a) \<or> (c \<ge> 0x61 \<and> c \<le> 0x7a) then (if e mod 2 = 0 then c OR 0x20 else c AND NOT 0x20)
      else c)"

text \<open>The loop over the bytes of one label, which stops at the end of the packet.\<close>

fun flipLabel :: "bytes \<Rightarrow> nat \<Rightarrow> bytes \<Rightarrow> bytes" where
  "flipLabel [] pos query = query"
| "flipLabel (e # entropy) pos query =
     (if pos \<ge> length query then query
      else flipLabel entropy (pos + 1) (query[pos := flipCase e (query ! pos)]))"

lemma length_flipLabel [simp]: "length (flipLabel es pos q) = length q"
  by (induction es pos q rule: flipLabel.induct) simp_all

text \<open>The loop over the labels of a name; \<open>rnd\<close> is the source of entropy, read from position \<open>k\<close> on.\<close>

function encodeName :: "(nat \<Rightarrow> byte) \<Rightarrow> nat \<Rightarrow> nat \<Rightarrow> bytes \<Rightarrow> nat \<times> nat \<times> bytes" where
  "encodeName rnd k offset query =
     (if offset < length query then
        (let len = query ! offset in
         if len = 0 then (k, offset + 1, query)
         else if len AND 0xc0 = 0xc0 then (k, offset + 2, query)
         else encodeName rnd (k + unat len) (offset + 1 + unat len)
                (flipLabel (map rnd [k..<k + unat len]) (offset + 1) query))
      else (k, offset, query))"
  by pat_completeness auto
termination
  by (relation "measure (\<lambda>(rnd, k, offset, query). length query - offset)") auto

declare encodeName.simps [simp del]

fun encodeQuestions :: "(nat \<Rightarrow> byte) \<Rightarrow> nat \<Rightarrow> nat \<Rightarrow> nat \<Rightarrow> bytes \<Rightarrow> bytes" where
  "encodeQuestions rnd 0 k offset query = query"
| "encodeQuestions rnd (Suc n) k offset query =
     (case encodeName rnd k offset query of
        (k, offset, query) \<Rightarrow>
          encodeQuestions rnd n k (if offset + 4 \<le> length query then offset + 4 else offset) query)"

definition Apply0x20Encoding :: "(nat \<Rightarrow> byte) \<Rightarrow> bytes \<Rightarrow> bytes \<times> string list \<times> audit_call list" where
  "Apply0x20Encoding rnd originalQuery =
     (if length originalQuery < 12 then (originalQuery, [], [])
      else
       (let query = encodeQuestions rnd (unat (get16 originalQuery 4)) 0 12 originalQuery
        in case ExtractQuestions query of
             (questions, errs) \<Rightarrow> (query, map pqName questions, map LogError errs)))"

definition DnssecDoBit :: u32 where "DnssecDoBit = 0x00008000"

definition AppendEdns0DoBit :: "bytes \<Rightarrow> bytes" where
  "AppendEdns0DoBit query =
     (if length query < 12 then query
      else if get16 query 10 > 0 then query
      else
       (let encoder = WriteBytes query (NewDnsWireFormat None);
            encoder = encoder\<lparr>Buf := put_bytes 10 (be16 1) (Buf encoder)\<rparr>
        in Finish (WriteUint16 0 (WriteUint32 DnssecDoBit (WriteUint16 4096 (WriteUint16 DnsTypeOPT (WriteUint8 0 encoder)))))))"

section \<open>The environment of a request\<close>

text \<open>
  The random bytes and identifiers a request draws, the times it reads (cache lookup, cache
  insertion, signature check), and the network: whether the address of the resolver parses, the
  datagram or the stream it answers a query with, and which writes to the client succeed.
\<close>

record DnsEnv =
  eRand :: "nat \<Rightarrow> byte"
  eIds :: "nat \<Rightarrow> u16"
  eNow :: "nat \<Rightarrow> int"
  eLater :: "nat \<Rightarrow> int"
  eUnix :: u32
  eOrder :: "string list"
  eResolves :: "string \<Rightarrow> bool"
  eUdp :: "string \<Rightarrow> bytes \<Rightarrow> bytes option"
  eTcp :: "string \<Rightarrow> bytes \<Rightarrow> bytes option"
  eWriteOk :: "nat \<Rightarrow> bool"

type_synonym 'a handled = "('a \<times> audit_call list \<times> DnsHandler) outcome option"

definition serverResolve :: "golib \<Rightarrow> DnsEnv \<Rightarrow> nat \<Rightarrow> bytes \<Rightarrow> string \<Rightarrow> DnsHandler \<Rightarrow> bytes option handled" where
  "serverResolve L e i query ip h =
     map_option (map_outcome (\<lambda>(resp, log, s). (resp, log, h\<lparr>hServer := s\<rparr>)))
       (Resolve L (eNow e i) (eLater e i) query ip (hServer h))"

definition valid0x20 :: "string list \<Rightarrow> ParsedQuestion list \<Rightarrow> bool" where
  "valid0x20 expectedNames responseQuestions =
     (length expectedNames = length responseQuestions
      \<and> list_all (\<lambda>i. pqName (responseQuestions ! i) = expectedNames ! i) [0..<length expectedNames])"

definition blockedIp :: "string list \<Rightarrow> FirewallConfig option \<Rightarrow> string" where
  "blockedIp ips fw = (case find (\<lambda>ip. EvaluateIp ip fw = ''DENY'') ips of None \<Rightarrow> [] | Some ip \<Rightarrow> ip)"

definition rcodeOf :: "bytes \<Rightarrow> int" where
  "rcodeOf msg = int (unat (get16 msg 2 AND 0xf))"

section \<open>DNS over HTTPS\<close>

text \<open>
  The part of \<^verbatim>\<open>resolveQueryAsync\<close> after the datagram of the resolver has been read into the buffer of
  4096 bytes: the slice of the two bytes of the flags is within the capacity of the buffer, whose
  bytes after the datagram are zero.
\<close>

definition checkDohResponse ::
  "golib \<Rightarrow> DnsEnv \<Rightarrow> bytes \<Rightarrow> string \<Rightarrow> string list \<Rightarrow> bytes \<Rightarrow> DnsHandler \<Rightarrow> (bytes option \<times> audit_call list) outcome" where
  "checkDohResponse L e query clientIp expectedNames msg h =
     (let fw = scFirewall (hCfg h);
          failure = (\<lambda>log rcode. case GenerateErrorResponse query rcode of (r, errs) \<Rightarrow> Ret (r, log @ errs))
      in case VerifyDnssecResponse L (eUnix e) msg expectedNames fw of
           Panic \<Rightarrow> Panic
         | Ret (False, vlog) \<Rightarrow>
             failure (vlog @ [LogError ''Dropped upstream DoH fallback response: DNSSEC signature validation failed''])
               DnsRcodeServFail
         | Ret (True, vlog) \<Rightarrow>
             (case ExtractQuestions msg of (responseQuestions, errs) \<Rightarrow>
               let log = vlog @ map LogError errs in
               if \<not> valid0x20 expectedNames responseQuestions then
                 failure (log @ [LogError
                     ''Dropped upstream DoH fallback response: 0x20 bit encoding mismatch (Spoofing Mitigation)''])
                   DnsRcodeServFail
               else
                (let (ips, perrs) = ParseResolvedIpv4s msg;
                     blocked = blockedIp ips fw;
                     (questions, qerrs) = ExtractQuestions query;
                     log = log @ perrs @ map LogError qerrs;
                     isLocal = localFirst L questions (hServer h)
                 in if blocked \<noteq> [] then
                      failure (log @ [LogFirewall clientIp blocked ''DENY'' ''Upstream target IP blocked'',
                          LogDNS clientIp (logQuestions questions) (int DnsRcodeRefused) False [] isLocal]) DnsRcodeRefused
                    else Ret (Some msg, log @ perrs
                      @ [LogDNS clientIp (logQuestions questions) (rcodeOf (msg @ replicate 4 0)) False ips isLocal]))))"

definition resolveQueryAsync :: "golib \<Rightarrow> DnsEnv \<Rightarrow> bytes \<Rightarrow> string \<Rightarrow> DnsHandler \<Rightarrow> bytes option handled" where
  "resolveQueryAsync L e query clientIp h =
     (case serverResolve L e 0 query clientIp h of
        None \<Rightarrow> None
      | Some Panic \<Rightarrow> Some Panic
      | Some (Ret (resp, log, h)) \<Rightarrow>
         (let failure = (\<lambda>log rcode. case GenerateErrorResponse query rcode of (r, errs) \<Rightarrow> Some (Ret (r, log @ errs, h)))
          in case resp of
               Some r \<Rightarrow> if length r > 0 then Some (Ret (resp, log, h)) else failure log DnsRcodeServFail
             | None \<Rightarrow>
                 if fallbackDns h = [] then failure log DnsRcodeNxDomain
                 else
                  (case Apply0x20Encoding (eRand e) query of (encoded, expectedNames, alog) \<Rightarrow>
                     if \<not> eResolves e (fallbackDns h @ '':53'') then failure (log @ alog) DnsRcodeServFail
                     else case eUdp e (fallbackDns h @ '':53'') (AppendEdns0DoBit encoded) of
                       None \<Rightarrow> failure (log @ alog) DnsRcodeServFail
                     | Some datagram \<Rightarrow>
                         Some (map_outcome (\<lambda>(r, clog). (r, log @ alog @ clog, h))
                           (checkDohResponse L e query clientIp expectedNames (take 4096 datagram) h)))))"

text \<open>A request as the server of \<^verbatim>\<open>net/http\<close> presents it; a body whose reading fails is none.\<close>

record DohRequest =
  rRemoteAddr :: string
  rMethod :: string
  rPath :: string
  rRawQuery :: string
  rHeader :: Header
  rBody :: "bytes option"

definition dohQuery :: "DohRequest \<Rightarrow> int + bytes" where
  "dohQuery r =
     (if rMethod r = ''GET'' then
        (let dnsParam = QueryGet (rRawQuery r) ''dns'' in
         if dnsParam = [] then Inl 400
         else if length dnsParam > 512 then Inl 413
         else case DecodeURL64 False dnsParam of
           Some query \<Rightarrow> Inr query
         | None \<Rightarrow> (case DecodeURL64 True dnsParam of Some query \<Rightarrow> Inr query | None \<Rightarrow> Inl 400))
      else if rMethod r = ''POST'' then
        (if HeaderGet ''Content-Type'' (rHeader r) \<noteq> ''application/dns-message'' then Inl 415
         else case rBody r of None \<Rightarrow> Inl 400 | Some b \<Rightarrow> Inr (take 65535 b))
      else Inl 405)"

definition handleDohRequest :: "golib \<Rightarrow> DnsEnv \<Rightarrow> DohRequest \<Rightarrow> DnsHandler \<Rightarrow> HttpResponse handled" where
  "handleDohRequest L e r h =
     (let clientIp = hostOf (rRemoteAddr r) in
      case isRateLimited (eOrder e) (eNow e 1) clientIp h of
        Panic \<Rightarrow> Some Panic
      | Ret (True, h) \<Rightarrow> Some (Ret (statusOnly 429, [], h))
      | Ret (False, h) \<Rightarrow>
          if rPath r \<noteq> ''/dns-query'' then Some (Ret (statusOnly 404, [], h))
          else case dohQuery r of
            Inl status \<Rightarrow> Some (Ret (statusOnly status, [], h))
          | Inr query \<Rightarrow>
              if length query < 12 then Some (Ret (statusOnly 400, [], h))
              else map_option (map_outcome (\<lambda>(resp, log, h).
                     (\<lparr>respStatus = 200,
                       respHeaders = [(''Content-Type'', [''application/dns-message'']),
                         (''Content-Length'', [itoa (length (nil_bytes resp))]), (''Cache-Control'', [''max-age=0'']),
                         (''Connection'', [''close''])],
                       respBody = nil_bytes resp\<rparr>, log, h)))
                   (resolveQueryAsync L e query clientIp h))"

section \<open>DNS over UDP\<close>

datatype udp_effect =
    WriteToUDP bytes UDPAddr
  | UpstreamQuery string bytes u16 bytes

text \<open>
  \<open>UpstreamQuery\<close> is the goroutine that asks the resolver, with the address and the packet it sends,
  together with the timer of the forward, which holds the identifier and the query as they are when
  it fires.  The loop that draws identifiers ends when it draws one that is not pending.
\<close>

partial_function (option) freshID :: "(nat \<Rightarrow> u16) \<Rightarrow> nat \<Rightarrow> (u16, PendingUdpQuery) gomap \<Rightarrow> u16 option" where
  [code]: "freshID ids k pending =
     (if map_of pending (ids k) = None then Some (ids k) else freshID ids (k + 1) pending)"

definition wanAllowed :: "golib \<Rightarrow> string \<Rightarrow> FirewallConfig option \<Rightarrow> bool" where
  "wanAllowed L clientIp fw =
     (isPrivateIp L clientIp \<or> (case fw of None \<Rightarrow> False | Some f \<Rightarrow> list_ex (\<lambda>ip. ip = clientIp) (AllowlistIps f)))"

text \<open>
  For a query shorter than a header \<^verbatim>\<open>Apply0x20Encoding\<close> returns the slice itself, so the new
  identifier is stored in the query the timer and the table hold.
\<close>

definition forwardUdpQuery :: "golib \<Rightarrow> DnsEnv \<Rightarrow> bytes \<Rightarrow> UDPAddr \<Rightarrow> DnsHandler \<Rightarrow> udp_effect list handled" where
  "forwardUdpQuery L e data raddr h =
     (let fallback = fallbackDns h; fw = scFirewall (hCfg h); clientIp = IPString (uaIP raddr);
          pendings = (case pendingUdpQueries h of None \<Rightarrow> [] | Some m \<Rightarrow> m)
      in if fallback = [] then Some (Ret ([], [], h))
         else if \<not> wanAllowed L clientIp fw then
           Some (Ret ([], [LogSystem (''Dropped UDP forward request from untrusted WAN IP: '' @ clientIp @ '' (Anti-Amplification)'')], h))
         else if int (length pendings) \<ge> maxUdpForwards h then
           Some (Ret ([], [LogSystem ''Dropped UDP forward request: Concurrent connection limit reached''], h))
         else if length data < 2 then Some (Ret ([], [], h))
         else case freshID (eIds e) 0 pendings of
           None \<Rightarrow> None
         | Some ephemeralID \<Rightarrow>
            (case Apply0x20Encoding (eRand e) data of (encoded, expectedNames, alog) \<Rightarrow>
              (let encoded = put_bytes 0 (be16 ephemeralID) encoded;
                   held = (if length data < 12 then encoded else data)
               in if \<not> eResolves e (fallback @ '':53'') then Some (Ret ([], alog, h))
                  else case pendingUdpQueries h of
                    None \<Rightarrow> Some Panic
                  | Some m \<Rightarrow>
                      Some (Ret ([UpstreamQuery (fallback @ '':53'') (AppendEdns0DoBit encoded) ephemeralID held], alog,
                        h\<lparr>pendingUdpQueries := Some (map_put ephemeralID
                            \<lparr>RemoteAddr = raddr, OriginalID = get16 data 0, ExpectedNames = expectedNames,
                             OriginalQuery = held\<rparr> m)\<rparr>)))))"

definition dropPending :: "u16 \<Rightarrow> DnsHandler \<Rightarrow> DnsHandler" where
  "dropPending ephemeralID h = h\<lparr>pendingUdpQueries := map_option (map_del ephemeralID) (pendingUdpQueries h)\<rparr>"

definition pendingAt :: "u16 \<Rightarrow> DnsHandler \<Rightarrow> PendingUdpQuery option" where
  "pendingAt ephemeralID h = (case pendingUdpQueries h of None \<Rightarrow> None | Some m \<Rightarrow> map_of m ephemeralID)"

text \<open>The function of the timer.\<close>

definition udpTimeout :: "u16 \<Rightarrow> bytes \<Rightarrow> DnsHandler \<Rightarrow> udp_effect list \<times> audit_call list \<times> DnsHandler" where
  "udpTimeout ephemeralID data h =
     (case pendingAt ephemeralID h of
        None \<Rightarrow> ([], [], h)
      | Some pending \<Rightarrow>
          (case GenerateErrorResponse data DnsRcodeServFail of
             (ref, errs) \<Rightarrow> ([WriteToUDP (nil_bytes ref) (RemoteAddr pending)], errs, dropPending ephemeralID h)))"

definition handleUdpMessage :: "golib \<Rightarrow> DnsEnv \<Rightarrow> bytes \<Rightarrow> UDPAddr \<Rightarrow> DnsHandler \<Rightarrow> udp_effect list handled" where
  "handleUdpMessage L e data raddr h =
     (case serverResolve L e 0 data (IPString (uaIP raddr)) h of
        None \<Rightarrow> None
      | Some Panic \<Rightarrow> Some Panic
      | Some (Ret (resp, log, h)) \<Rightarrow>
         (case resp of
            Some r \<Rightarrow> Some (Ret (if length r > 0 then [WriteToUDP r raddr] else [], log, h))
          | None \<Rightarrow>
              if fallbackDns h \<noteq> [] then
                map_option (map_outcome (\<lambda>(effects, flog, h). (effects, log @ flog, h))) (forwardUdpQuery L e data raddr h)
              else (case GenerateErrorResponse data DnsRcodeNxDomain of
                      (nx, errs) \<Rightarrow> Some (Ret ([WriteToUDP (nil_bytes nx) raddr], log @ errs, h)))))"

text \<open>One round of \<^verbatim>\<open>udpReadLoop\<close>: the datagram is cut to the buffer of 4096 bytes.\<close>

definition udpReceive :: "golib \<Rightarrow> DnsEnv \<Rightarrow> bytes \<Rightarrow> UDPAddr \<Rightarrow> DnsHandler \<Rightarrow> udp_effect list handled" where
  "udpReceive L e datagram raddr h =
     (case isRateLimited (eOrder e) (eNow e 1) (IPString (uaIP raddr)) h of
        Panic \<Rightarrow> Some Panic
      | Ret (True, h) \<Rightarrow> Some (Ret ([], [], h))
      | Ret (False, h) \<Rightarrow> handleUdpMessage L e (take 4096 datagram) raddr h)"

definition checkUdpResponse ::
  "golib \<Rightarrow> DnsEnv \<Rightarrow> bytes \<Rightarrow> PendingUdpQuery \<Rightarrow> DnsHandler \<Rightarrow> (udp_effect list \<times> audit_call list) outcome" where
  "checkUdpResponse L e msg pending h =
     (let fw = scFirewall (hCfg h) in
      case VerifyDnssecResponse L (eUnix e) msg (ExpectedNames pending) fw of
        Panic \<Rightarrow> Panic
      | Ret (False, vlog) \<Rightarrow>
          Ret ([], vlog @ [LogError ''Dropped upstream UDP response: DNSSEC signature validation failed''])
      | Ret (True, vlog) \<Rightarrow>
          (case ExtractQuestions msg of (responseQuestions, errs) \<Rightarrow>
            let log = vlog @ map LogError errs in
            if \<not> valid0x20 (ExpectedNames pending) responseQuestions then
              Ret ([], log @ [LogError ''Dropped upstream UDP response: 0x20 bit encoding mismatch (Spoofing Mitigation)''])
            else
             (let restoredMsg = put_bytes 0 (be16 (OriginalID pending)) msg;
                  (ips, perrs) = ParseResolvedIpv4s restoredMsg;
                  blocked = blockedIp ips fw;
                  (questions, qerrs) = ExtractQuestions restoredMsg;
                  log = log @ perrs @ map LogError qerrs;
                  clientIp = IPString (uaIP (RemoteAddr pending));
                  isLocal = localFirst L questions (hServer h)
              in if blocked \<noteq> [] then
                   (case GenerateErrorResponse restoredMsg DnsRcodeRefused of (ref, gerrs) \<Rightarrow>
                      Ret ([WriteToUDP (nil_bytes ref) (RemoteAddr pending)],
                        log @ [LogFirewall clientIp blocked ''DENY'' ''Upstream target IP blocked'',
                          LogDNS clientIp (logQuestions questions) (int DnsRcodeRefused) False [] isLocal] @ gerrs))
                 else if length restoredMsg < 4 then Panic
                 else Ret ([WriteToUDP restoredMsg (RemoteAddr pending)],
                        log @ perrs @ [LogDNS clientIp (logQuestions questions) (rcodeOf restoredMsg) False ips isLocal]))))"

definition handleUdpUpstreamResponse :: "golib \<Rightarrow> DnsEnv \<Rightarrow> bytes \<Rightarrow> DnsHandler \<Rightarrow> (udp_effect list \<times> audit_call list \<times> DnsHandler) outcome" where
  "handleUdpUpstreamResponse L e msg h =
     (if length msg < 2 then Ret ([], [], h)
      else
       (let ephemeralID = get16 msg 0 in
        case pendingAt ephemeralID h of
          None \<Rightarrow> Ret ([], [], h)
        | Some pending \<Rightarrow>
            map_outcome (\<lambda>(effects, log). (effects, log, dropPending ephemeralID h))
              (checkUdpResponse L e msg pending (dropPending ephemeralID h))))"

section \<open>DNS over TCP and TLS\<close>

text \<open>A message with its length in front, a \<^verbatim>\<open>uint16\<close> that wraps.\<close>

definition prefixed :: "bytes \<Rightarrow> bytes" where
  "prefixed b = be16 (of_nat (length b)) @ b"

definition sendTcpError :: "bytes \<Rightarrow> nat \<Rightarrow> bytes list \<times> audit_call list" where
  "sendTcpError query rcode = (case GenerateErrorResponse query rcode of (nx, errs) \<Rightarrow> ([prefixed (nil_bytes nx)], errs))"

definition checkTcpResponse ::
  "golib \<Rightarrow> DnsEnv \<Rightarrow> bytes \<Rightarrow> string \<Rightarrow> string list \<Rightarrow> bytes \<Rightarrow> DnsHandler \<Rightarrow> (bytes list \<times> audit_call list) outcome" where
  "checkTcpResponse L e query clientIp expectedNames resp h =
     (let fw = scFirewall (hCfg h);
          failure = (\<lambda>log rcode. case sendTcpError query rcode of (w, errs) \<Rightarrow> Ret (w, log @ errs))
      in case VerifyDnssecResponse L (eUnix e) resp expectedNames fw of
           Panic \<Rightarrow> Panic
         | Ret (False, vlog) \<Rightarrow>
             failure (vlog @ [LogError ''Dropped upstream TCP response: DNSSEC signature validation failed'']) DnsRcodeServFail
         | Ret (True, vlog) \<Rightarrow>
             (case ExtractQuestions resp of (responseQuestions, errs) \<Rightarrow>
               let log = vlog @ map LogError errs in
               if \<not> valid0x20 expectedNames responseQuestions then
                 failure (log @ [LogError
                   ''Dropped upstream TCP response: 0x20 bit encoding mismatch (Spoofing Mitigation)'']) DnsRcodeServFail
               else
                (let (ips, perrs) = ParseResolvedIpv4s resp;
                     blocked = blockedIp ips fw;
                     (questions, qerrs) = ExtractQuestions query;
                     log = log @ perrs @ map LogError qerrs;
                     isLocal = localFirst L questions (hServer h)
                 in if blocked \<noteq> [] then
                      failure (log @ [LogFirewall clientIp blocked ''DENY'' ''Upstream target IP blocked'',
                          LogDNS clientIp (logQuestions questions) (int DnsRcodeRefused) False [] isLocal]) DnsRcodeRefused
                    else if length resp < 4 \<or> length query < 2 then Panic
                    else Ret ([prefixed (put_bytes 0 (take 2 query) resp)],
                           log @ perrs @ [LogDNS clientIp (logQuestions questions) (rcodeOf resp) False ips isLocal]))))"

text \<open>
  The stream of the resolver is what it sends before the connection fails or ends; none is a failed
  dial or write.  The connection \<open>up\<close> is in the table while the exchange lasts.
\<close>

definition forwardTcpQuery :: "golib \<Rightarrow> DnsEnv \<Rightarrow> nat \<Rightarrow> bytes \<Rightarrow> string \<Rightarrow> DnsHandler \<Rightarrow> (bytes list \<times> audit_call list \<times> DnsHandler) outcome" where
  "forwardTcpQuery L e up query clientIp h =
     (case Apply0x20Encoding (eRand e) query of (encoded, expectedNames, alog) \<Rightarrow>
       (let failure = (\<lambda>h. case sendTcpError query DnsRcodeServFail of (w, errs) \<Rightarrow> Ret (w, alog @ errs, h)) in
        case eTcp e (fallbackDns h @ '':53'') (prefixed (AppendEdns0DoBit encoded)) of
          None \<Rightarrow> failure h
        | Some stream \<Rightarrow>
           (let h' = h\<lparr>upstreamTcpConns := up # upstreamTcpConns h\<rparr>;
                closed = h'\<lparr>upstreamTcpConns := removeAll up (upstreamTcpConns h')\<rparr>
            in if length stream < 2 then failure closed
               else
                (let len = unat (get16 stream 0) in
                 if length (drop 2 stream) < len then failure closed
                 else map_outcome (\<lambda>(w, log). (w, alog @ log, closed))
                        (checkTcpResponse L e query clientIp expectedNames (take len (drop 2 stream)) h')))))"

text \<open>
  The loop of \<^verbatim>\<open>handleTcpConnection\<close> over what the client sends; \<open>i\<close> counts the queries.
\<close>

function tcpLoop :: "golib \<Rightarrow> DnsEnv \<Rightarrow> nat \<Rightarrow> nat \<Rightarrow> bytes \<Rightarrow> string \<Rightarrow> DnsHandler \<Rightarrow> bytes list handled" where
  "tcpLoop L e up i stream clientIp h =
     (if length stream < 2 then Some (Ret ([], [], h))
      else
       (let len = unat (get16 stream 0) in
        if len = 0 \<or> len > 65535 then Some (Ret ([], [], h))
        else if length (drop 2 stream) < len then Some (Ret ([], [], h))
        else
         (let query = take len (drop 2 stream) in
          case serverResolve L e i query clientIp h of
            None \<Rightarrow> None
          | Some Panic \<Rightarrow> Some Panic
          | Some (Ret (resp, log, h)) \<Rightarrow>
             (case resp of
                Some r \<Rightarrow>
                  if length r > 0 then
                    (if eWriteOk e i then
                       map_option (map_outcome (\<lambda>(ws, log', h). (prefixed r # ws, log @ log', h)))
                         (tcpLoop L e up (i + 1) (drop (2 + len) stream) clientIp h)
                     else Some (Ret ([], log, h)))
                  else Some (Ret ([], log, h))
              | None \<Rightarrow>
                  if fallbackDns h \<noteq> [] then
                    Some (map_outcome (\<lambda>(ws, log', h). (ws, log @ log', h)) (forwardTcpQuery L e up query clientIp h))
                  else (case sendTcpError query DnsRcodeNxDomain of (ws, errs) \<Rightarrow> Some (Ret (ws, log @ errs, h)))))))"
  by pat_completeness auto
termination
  by (relation "measure (\<lambda>(L, e, up, i, stream, clientIp, h). length stream)") auto

declare tcpLoop.simps [simp del]

definition handleTcpConnection :: "golib \<Rightarrow> DnsEnv \<Rightarrow> nat \<Rightarrow> nat \<Rightarrow> string \<Rightarrow> bytes \<Rightarrow> DnsHandler \<Rightarrow> bytes list handled" where
  "handleTcpConnection L e conn up remoteAddr stream h =
     (let clientIp = hostOf remoteAddr in
      case isRateLimited (eOrder e) (eNow e 0) clientIp h of
        Panic \<Rightarrow> Some Panic
      | Ret (True, h) \<Rightarrow> Some (Ret ([], [], closeConn conn h))
      | Ret (False, h) \<Rightarrow>
          map_option (map_outcome (\<lambda>(ws, log, h). (ws, log, closeConn conn h))) (tcpLoop L e up 0 stream clientIp h))"

definition GetPort :: "DnsHandler \<Rightarrow> int" where
  "GetPort h = hPort h"

end
