(* ===== verification/ConfigJson.thy ===== *)
theory ConfigJson
  imports Config GoJson
begin

text \<open>
  The JSON form of the configuration: what \<^verbatim>\<open>encoding/json\<close> writes for the types of
  \<^verbatim>\<open>src/pkg/config/types.go\<close>, from the tags of their fields, and its indented layout.
\<close>

section \<open>Maps and layout\<close>

text \<open>The keys of a map are written in the order of their bytes.\<close>

fun strLess :: "string \<Rightarrow> string \<Rightarrow> bool" where
  "strLess _ [] = False"
| "strLess [] (_ # _) = True"
| "strLess (a # s) (b # t) = (code a < code b \<or> a = b \<and> strLess s t)"

fun insertKey :: "string \<times> 'a \<Rightarrow> (string \<times> 'a) list \<Rightarrow> (string \<times> 'a) list" where
  "insertKey x [] = [x]"
| "insertKey x (y # ys) = (if strLess (fst y) (fst x) then y # insertKey x ys else x # y # ys)"

definition sortKeys :: "(string \<times> 'a) list \<Rightarrow> (string \<times> 'a) list" where
  "sortKeys m = foldr insertKey m []"

definition mapJson :: "('a \<Rightarrow> json) \<Rightarrow> (string, 'a) gomap \<Rightarrow> json" where
  "mapJson f m = JObj (map (\<lambda>(k, v). (k, f v)) (sortKeys m))"

text \<open>\<^verbatim>\<open>json.Indent\<close> with no prefix and an indent of two spaces.\<close>

definition newline :: "nat \<Rightarrow> string" where
  "newline n = CHR 0x0A # replicate (2 * n) (CHR '' '')"

fun json_indent :: "nat \<Rightarrow> json \<Rightarrow> string" where
  "json_indent n (JStr s) = json_string s"
| "json_indent n (JInt i) = itoa_int i"
| "json_indent n (JBool b) = (if b then ''true'' else ''false'')"
| "json_indent n (JArr xs) =
     (if xs = [] then ''[]''
      else ''['' @ newline (n + 1) @ Join ('','' @ newline (n + 1)) (map (json_indent (n + 1)) xs) @ newline n @ '']'')"
| "json_indent n (JObj fs) =
     (if fs = [] then ''{}''
      else ''{'' @ newline (n + 1)
        @ Join ('','' @ newline (n + 1)) (map (\<lambda>(k, v). json_string k @ '': '' @ json_indent (n + 1) v) fs)
        @ newline n @ ''}'')"

section \<open>The types of the configuration\<close>

definition strOpt :: "string \<Rightarrow> string \<Rightarrow> (string \<times> json) list" where
  "strOpt name s = omitempty (s = []) (name, JStr s)"

definition intOpt :: "string \<Rightarrow> int \<Rightarrow> (string \<times> json) list" where
  "intOpt name i = omitempty (i = 0) (name, JInt i)"

definition ptrOpt :: "string \<Rightarrow> ('a \<Rightarrow> json) \<Rightarrow> 'a option \<Rightarrow> (string \<times> json) list" where
  "ptrOpt name f p = (case p of None \<Rightarrow> [] | Some x \<Rightarrow> [(name, f x)])"

definition arrOpt :: "string \<Rightarrow> ('a \<Rightarrow> json) \<Rightarrow> 'a list \<Rightarrow> (string \<times> json) list" where
  "arrOpt name f xs = omitempty (xs = []) (name, JArr (map f xs))"

definition DnsRecordJson :: "DnsRecord \<Rightarrow> json" where
  "DnsRecordJson r = JObj
     ([(''type'', JStr (drType r))] @ strOpt ''address'' (drAddress r) @ strOpt ''target'' (drTarget r)
      @ arrOpt ''data'' JStr (drData r) @ ptrOpt ''priority'' JInt (drPriority r) @ strOpt ''exchange'' (drExchange r)
      @ ptrOpt ''weight'' JInt (drWeight r) @ ptrOpt ''port'' JInt (drPort r))"

definition TlsConfigJson :: "TlsConfig \<Rightarrow> json" where
  "TlsConfigJson t = JObj
     ([(''cert'', JStr (tcCert t)), (''key'', JStr (tcKey t))] @ strOpt ''ca'' (tcCa t) @ strOpt ''serverName'' (tcServerName t))"

definition HttpProxyConfigJson :: "HttpProxyConfig \<Rightarrow> json" where
  "HttpProxyConfigJson p = JObj
     ([(''enabled'', JBool (hpEnabled p))] @ strOpt ''upstream'' (hpUpstream p)
      @ omitempty (hpHeaders p = []) (''headers'', mapJson JStr (hpHeaders p))
      @ [(''forwardRequestBody'', JBool (hpForwardRequestBody p))]
      @ intOpt ''maxRequestBodyBytes'' (hpMaxRequestBodyBytes p) @ ptrOpt ''clientTls'' TlsConfigJson (hpClientTls p))"

definition TlsProxyConfigJson :: "TlsProxyConfig \<Rightarrow> json" where
  "TlsProxyConfigJson p = JObj (intOpt ''targetPort'' (tpTargetPort p) @ strOpt ''targetIp'' (tpTargetIp p))"

definition RedirectConfigJson :: "RedirectConfig \<Rightarrow> json" where
  "RedirectConfigJson r = JObj
     [(''enabled'', JBool (rcEnabled r)), (''code'', JInt (rcCode r)), (''target'', JStr (rcTarget r))]"

definition HostConfigJson :: "HostConfig \<Rightarrow> json" where
  "HostConfigJson h = JObj
     (arrOpt ''records'' DnsRecordJson (hcRecords h) @ ptrOpt ''http_proxy'' HttpProxyConfigJson (hcHttpProxy h)
      @ ptrOpt ''tls_proxy'' TlsProxyConfigJson (hcTlsProxy h) @ ptrOpt ''redirect'' RedirectConfigJson (hcRedirect h))"

definition FirewallConfigJson :: "FirewallConfig \<Rightarrow> json" where
  "FirewallConfigJson f = JObj
     ([(''defaultPolicy'', JStr (DefaultPolicy f))]
      @ arrOpt ''allowlist_domains'' JStr (AllowlistDomains f) @ arrOpt ''blocklist_domains'' JStr (BlocklistDomains f)
      @ arrOpt ''allowlist_ranges'' JStr (AllowlistRanges f) @ arrOpt ''blocklist_ranges'' JStr (BlocklistRanges f)
      @ arrOpt ''allowlist_ips'' JStr (AllowlistIps f) @ arrOpt ''blocklist_ips'' JStr (BlocklistIps f))"

definition ControlPlaneConfigJson :: "ControlPlaneConfig \<Rightarrow> json" where
  "ControlPlaneConfigJson c = JObj
     (ptrOpt ''enabled'' JBool (cpEnabled c) @ intOpt ''port'' (cpPort c) @ strOpt ''socketPath'' (cpSocketPath c)
      @ strOpt ''apiKey'' (cpApiKey c) @ ptrOpt ''tls'' TlsConfigJson (cpTls c))"

definition ServerConfigJson :: "ServerConfig \<Rightarrow> json" where
  "ServerConfigJson c = JObj
     ([(''port'', JInt (scPort c))]
      @ ptrOpt ''httpPort'' JInt (scHttpPort c) @ ptrOpt ''httpsPort'' JInt (scHttpsPort c)
      @ ptrOpt ''tls'' TlsConfigJson (scTls c)
      @ ptrOpt ''dotPort'' JInt (scDotPort c) @ ptrOpt ''dohPort'' JInt (scDohPort c)
      @ strOpt ''fallbackDns'' (scFallbackDns c) @ ptrOpt ''firewall'' FirewallConfigJson (scFirewall c)
      @ ptrOpt ''controlPlane'' ControlPlaneConfigJson (scControlPlane c)
      @ intOpt ''dnsCacheMaxSize'' (scDnsCacheMaxSize c) @ intOpt ''dnsCacheTtlMs'' (scDnsCacheTtlMs c)
      @ intOpt ''maxTcpConnections'' (scMaxTcpConnections c) @ intOpt ''tcpIdleTimeoutMs'' (scTcpIdleTimeoutMs c)
      @ intOpt ''rateLimitMaxRequests'' (scRateLimitMaxRequests c) @ intOpt ''rateLimitWindowMs'' (scRateLimitWindowMs c)
      @ strOpt ''upstreamHttpProxy'' (scUpstreamHttpProxy c) @ strOpt ''upstreamHttpsProxy'' (scUpstreamHttpsProxy c)
      @ strOpt ''upstreamNoProxy'' (scUpstreamNoProxy c) @ [(''hosts'', mapJson HostConfigJson (scHosts c))])"

end
