(* ===== verification/ControlPlane.thy ===== *)
theory ControlPlane
  imports HttpProxy DnsHandler ConfigJson
begin

text \<open>
  The control plane, \<^verbatim>\<open>src/pkg/controlplane/controlplane.go\<close>: an HTTP server that shows metrics, logs and
  the configuration and replaces the configuration.  Requests are authenticated with an API key and a
  device identifier; a change also needs a proof of work, whose nonce is good for one request.

  A request runs against an environment: the clock, the process environment, the shared logger and
  container table, the master key and the random source, and the errors of the file operations.  Its
  result is the response, the logger calls, what happens to files and subscribers, and whether the
  handler panics.
\<close>

section \<open>State\<close>

record ControlPlane =
  clCfg :: ServerConfig
  clPort :: int
  clSocketPath :: string
  clApiKey :: string
  blindIndexSalt :: string
  configFilePath :: string
  clTlsCfg :: "TlsConfig option"
  clListener :: bool
  subscribers :: "nat list"
  seenNonces :: "string list"
  currentPoWWindow :: int
  expectedApiKeyHash :: string
  apiKeySecret :: bytes
  deviceSecret :: bytes
  tlsActive :: bool
  clStop :: bool

text \<open>\<^verbatim>\<open>filepath.Clean\<close>: the elements of the path that stay, innermost first.\<close>

fun cleanParts :: "bool \<Rightarrow> string list \<Rightarrow> string list \<Rightarrow> string list" where
  "cleanParts rooted [] out = out"
| "cleanParts rooted (p # ps) out =
     (if p = [] \<or> p = ''.'' then cleanParts rooted ps out
      else if p = ''..'' then
        (case out of
           q # rest \<Rightarrow> if q = ''..'' then cleanParts rooted ps (p # out) else cleanParts rooted ps rest
         | [] \<Rightarrow> if rooted then cleanParts rooted ps [] else cleanParts rooted ps [p])
      else cleanParts rooted ps (p # out))"

definition CleanPath :: "string \<Rightarrow> string" where
  "CleanPath path =
     (if path = [] then ''.''
      else (let rooted = (hd path = CHR ''/'');
                out = (if rooted then ''/'' else []) @ Join ''/'' (rev (cleanParts rooted (Split (CHR ''/'') path) []))
            in if out = [] then ''.'' else out))"

definition hkdf32 :: "string \<Rightarrow> string \<Rightarrow> bytes" where
  "hkdf32 salt info = (case HKDF (bytes_of salt) [] (bytes_of info) 32 of Ret b \<Rightarrow> b | Panic \<Rightarrow> [])"

definition macHex :: "bytes \<Rightarrow> string \<Rightarrow> string" where
  "macHex secret s = EncodeToString (HmacSha256 secret (bytes_of s))"

definition NewControlPlane ::
  "int \<Rightarrow> string \<Rightarrow> string \<Rightarrow> string \<Rightarrow> ServerConfig \<Rightarrow> string \<Rightarrow> TlsConfig option \<Rightarrow> ControlPlane" where
  "NewControlPlane port socketPath apiKey salt initialConfig path tlsCfg =
     (let keySecret = hkdf32 salt ''api_key_derivation'' in
      \<lparr>clCfg = initialConfig, clPort = (if port = 0 then 8080 else port), clSocketPath = socketPath, clApiKey = apiKey,
       blindIndexSalt = salt, configFilePath = CleanPath path, clTlsCfg = tlsCfg, clListener = False, subscribers = [],
       seenNonces = [], currentPoWWindow = 0, expectedApiKeyHash = macHex keySecret apiKey, apiKeySecret = keySecret,
       deviceSecret = hkdf32 salt ''device_id_derivation'', tlsActive = False, clStop = False\<rparr>)"

definition Subscribe :: "nat \<Rightarrow> ControlPlane \<Rightarrow> ControlPlane" where
  "Subscribe callback cp = cp\<lparr>subscribers := subscribers cp @ [callback]\<rparr>"

definition cpTlsMaterial :: "(string \<Rightarrow> string + bytes) \<Rightarrow> string \<Rightarrow> string + bytes" where
  "cpTlsMaterial readFile data = (if Contains data ''-----BEGIN'' then Inr (bytes_of data) else readFile data)"

text \<open>The callback \<^verbatim>\<open>GetCertificate\<close> reads the files at each handshake; the configuration itself never fails.\<close>

definition cpGetCertificate ::
  "(string \<Rightarrow> string + bytes) \<Rightarrow> (bytes \<Rightarrow> bytes \<Rightarrow> string + 'cert) \<Rightarrow> TlsConfig \<Rightarrow> string + 'cert" where
  "cpGetCertificate readFile keyPair tc =
     (case cpTlsMaterial readFile (tcCert tc) of
        Inl err \<Rightarrow> Inl (''failed to read cert: '' @ err)
      | Inr certBytes \<Rightarrow>
          (case cpTlsMaterial readFile (tcKey tc) of
             Inl err \<Rightarrow> Inl (''failed to read key: '' @ err)
           | Inr keyBytes \<Rightarrow> keyPair certBytes keyBytes))"

definition cpLoadTls :: "(string \<Rightarrow> string + bytes) \<Rightarrow> (bytes \<Rightarrow> bool) \<Rightarrow> TlsConfig \<Rightarrow> TlsServerConfig" where
  "cpLoadTls readFile appendCerts tc =
     (let tlsCfg = \<lparr>tlsSource = tc, MinVersion = 0x0304, ClientCAs = None, RequireClientCert = False\<rparr> in
      if tcCa tc \<noteq> [] then
        (case cpTlsMaterial readFile (tcCa tc) of
           Inl _ \<Rightarrow> tlsCfg
         | Inr caBytes \<Rightarrow>
             if appendCerts caBytes then tlsCfg\<lparr>ClientCAs := Some caBytes, RequireClientCert := True\<rparr> else tlsCfg)
      else tlsCfg)"

text \<open>
  \<^verbatim>\<open>Start\<close>: the error of the listener, or the TLS configuration of the server, with the logger calls;
  \<open>serveErr\<close> is the error with which the server ends, none for a regular close.
\<close>

definition controlStart ::
  "(string \<Rightarrow> string + bytes) \<Rightarrow> (bytes \<Rightarrow> bool) \<Rightarrow> string option \<Rightarrow> string option \<Rightarrow> ControlPlane
    \<Rightarrow> (string + TlsServerConfig option) \<times> audit_call list \<times> ControlPlane" where
  "controlStart readFile appendCerts listenErr serveErr cp =
     (let tlsConfig = map_option (cpLoadTls readFile appendCerts) (clTlsCfg cp);
          cp = cp\<lparr>tlsActive := (tlsConfig \<noteq> None)\<rparr>;
          started = (if clSocketPath cp \<noteq> []
             then LogSystem (''Control Plane locked strictly to Unix Domain Socket at '' @ clSocketPath cp)
             else LogSystem (''Control Plane active using '' @ (if tlsConfig \<noteq> None then ''HTTPS/mTLS'' else ''HTTP'')
                    @ '' on port '' @ itoa_int (clPort cp)))
      in case listenErr of
           Some err \<Rightarrow> (Inl err, [], cp)
         | None \<Rightarrow>
             (Inr tlsConfig,
              started # (case serveErr of None \<Rightarrow> []
                         | Some err \<Rightarrow> [LogError (''Control Plane server execution fault: '' @ err)]),
              cp\<lparr>clListener := True\<rparr>))"

definition controlStop :: "ControlPlane \<Rightarrow> ControlPlane outcome" where
  "controlStop cp = (if clStop cp then Panic else Ret (cp\<lparr>clStop := True, clListener := False\<rparr>))"

section \<open>Authentication\<close>

text \<open>
  \<open>now\<close> is the time in seconds since 1970.  The check of the nonce and the update of the table run under
  the lock; the window is computed before.
\<close>

definition powChallenge :: "int \<Rightarrow> string \<Rightarrow> string \<Rightarrow> ControlPlane \<Rightarrow> string" where
  "powChallenge now deviceHash payloadHash cp =
     blindIndexSalt cp @ '':'' @ itoa_int (now div 300) @ '':'' @ deviceHash @ '':'' @ payloadHash"

definition useNonce :: "int \<Rightarrow> string \<Rightarrow> ControlPlane \<Rightarrow> string option \<times> ControlPlane" where
  "useNonce timeWindow nonce cp =
     (let cp = (if currentPoWWindow cp \<noteq> timeWindow then cp\<lparr>currentPoWWindow := timeWindow, seenNonces := []\<rparr> else cp) in
      if nonce \<in> set (seenNonces cp) then (Some ''Proof of Work challenge nonce already used'', cp)
      else (None, cp\<lparr>seenNonces := nonce # seenNonces cp\<rparr>))"

definition verifyProofOfWork :: "int \<Rightarrow> string \<Rightarrow> string \<Rightarrow> string \<Rightarrow> ControlPlane \<Rightarrow> string option \<times> ControlPlane" where
  "verifyProofOfWork now nonce deviceHash payloadHash cp =
     (if \<not> HasPrefix (EncodeToString (Sha256 (bytes_of (powChallenge now deviceHash payloadHash cp @ nonce)))) ''0000''
      then (Some ''Invalid Proof of Work Challenge'', cp)
      else useNonce (now div 300) nonce cp)"

definition authenticate :: "int \<Rightarrow> Header \<Rightarrow> bool \<Rightarrow> bytes \<Rightarrow> ControlPlane \<Rightarrow> (string + string) \<times> ControlPlane" where
  "authenticate now hs isMutation bodyBytes cp =
     (let apiKey = HeaderGet ''X-Api-Key'' hs; deviceId = HeaderGet ''X-Device-Id'' hs; nonce = HeaderGet ''X-Pow-Nonce'' hs in
      if apiKey = [] then (Inl ''Missing API Key'', cp)
      else if macHex (apiKeySecret cp) apiKey \<noteq> expectedApiKeyHash cp then (Inl ''Unauthorized Access'', cp)
      else if deviceId = [] then (Inl ''Authentication Validation Failed (Missing device id)'', cp)
      else
       (let deviceHash = macHex (deviceSecret cp) deviceId in
        if \<not> isMutation then (Inr deviceHash, cp)
        else if nonce = [] then (Inl ''Mutation endpoint requires x-pow-nonce header'', cp)
        else case verifyProofOfWork now nonce deviceHash (EncodeToString (Sha256 bodyBytes)) cp of
          (Some err, cp) \<Rightarrow> (Inl err, cp)
        | (None, cp) \<Rightarrow> (Inr deviceHash, cp)))"

section \<open>Requests\<close>

datatype control_effect =
    CreateTemp string
  | RemoveTemp string
  | ReplaceConfig string bytes
  | Notify nat ServerConfig

text \<open>
  \<open>ceSubnets\<close> is the variable \<^verbatim>\<open>OTTERGATE_SANDBOX_SUBNETS\<close>, \<open>ceTimeJson\<close> prints the time of an event, and
  \<open>ceRandom\<close> is what the random source gives for the nonce of a header of a host.
\<close>

record ControlEnv =
  ceSubnets :: string
  ceUnix :: int
  ceUnixNano :: int
  ceUnixMilli :: int
  ceLogger :: AuditLogger
  ceTimeJson :: "int \<Rightarrow> string"
  ceContainers :: "(string, string) gomap"
  ceDashboard :: string
  ceUnmarshal :: "bytes \<Rightarrow> string + ServerConfig"
  ceKey :: bytes
  ceRandom :: "string \<Rightarrow> string \<Rightarrow> bytes \<times> string option"
  ceOpenErr :: "string option"
  ceEncodeErr :: "string option"
  ceRenameErr :: "string option"

record ControlResult =
  crWriter :: ResponseWriter
  crEffects :: "control_effect list"
  crLog :: "audit_call list"
  crPanic :: bool

definition controlReply :: "ResponseWriter \<Rightarrow> audit_call list \<Rightarrow> ControlResult" where
  "controlReply w log = \<lparr>crWriter = w, crEffects = [], crLog = log, crPanic = False\<rparr>"

definition controlPanic :: "ResponseWriter \<Rightarrow> ControlResult" where
  "controlPanic w = \<lparr>crWriter = w, crEffects = [], crLog = [], crPanic = True\<rparr>"

definition errorJson :: "golib \<Rightarrow> string \<Rightarrow> string" where
  "errorJson L err = [CHR ''{'', CHR 0x22] @ ''error'' @ [CHR 0x22, CHR '':''] @ Quote L err @ ''}''"

text \<open>The first subnet of the list that holds the client.\<close>

fun sandboxOf :: "bytes \<Rightarrow> string list \<Rightarrow> string option" where
  "sandboxOf ip [] = None"
| "sandboxOf ip (s # ss) =
     (case ParseCIDR (TrimSpace s) of
        Some net \<Rightarrow> if NetContains net ip then Some s else sandboxOf ip ss
      | None \<Rightarrow> sandboxOf ip ss)"

definition sandboxed :: "string \<Rightarrow> string \<Rightarrow> string option" where
  "sandboxed subnets clientIp =
     (if subnets = [] then None
      else case ParseIP clientIp of None \<Rightarrow> None | Some ip \<Rightarrow> sandboxOf ip (Split (CHR '','') subnets))"

definition LogEventJson :: "(int \<Rightarrow> string) \<Rightarrow> LogEvent \<Rightarrow> json" where
  "LogEventJson timeJson ev = JObj
     [(''timestamp'', JStr (timeJson (Timestamp ev))), (''type'', JStr (evType ev)), (''client_ip'', JStr (ClientIP ev)),
      (''details'', JStr (Details ev)), (''status'', JStr (Status ev)), (''target'', JStr (Target ev))]"

definition statusJson :: "ControlPlane \<Rightarrow> json" where
  "statusJson cp = JObj
     [(''blindIndexSalt'', JStr (blindIndexSalt cp)), (''configFilePath'', JStr (configFilePath cp)),
      (''currentPoWWindow'', JInt (currentPoWWindow cp)), (''expectedApiKeyHash'', JStr (expectedApiKeyHash cp)),
      (''port'', JInt (clPort cp)), (''seenNoncesCount'', JInt (int (length (seenNonces cp)))),
      (''socketPath'', JStr (clSocketPath cp)), (''subscribersCount'', JInt (int (length (subscribers cp)))),
      (''tlsEnabled'', JBool (tlsActive cp))]"

text \<open>The headers of a configuration are sealed before it is stored; a header that cannot be sealed stays as it is.\<close>

fun sealHeaders :: "golib \<Rightarrow> bytes \<Rightarrow> (string \<Rightarrow> bytes \<times> string option) \<Rightarrow> (string, string) gomap \<Rightarrow> (string, string) gomap outcome" where
  "sealHeaders L key rnd [] = Ret []"
| "sealHeaders L key rnd ((k, v) # hs) =
     (case (if IsEncrypted v then Ret v
            else case EncryptSecret L key (rnd k) v of Panic \<Rightarrow> Panic | Ret (Inl _) \<Rightarrow> Ret v | Ret (Inr enc) \<Rightarrow> Ret enc) of
        Panic \<Rightarrow> Panic
      | Ret v' \<Rightarrow> map_outcome (\<lambda>rest. (k, v') # rest) (sealHeaders L key rnd hs))"

definition sealHost :: "golib \<Rightarrow> bytes \<Rightarrow> (string \<Rightarrow> bytes \<times> string option) \<Rightarrow> HostConfig \<Rightarrow> HostConfig outcome" where
  "sealHost L key rnd hc =
     (case hcHttpProxy hc of
        None \<Rightarrow> Ret hc
      | Some hp \<Rightarrow> map_outcome (\<lambda>hs. hc\<lparr>hcHttpProxy := Some (hp\<lparr>hpHeaders := hs\<rparr>)\<rparr>) (sealHeaders L key rnd (hpHeaders hp)))"

fun sealHosts ::
  "golib \<Rightarrow> bytes \<Rightarrow> (string \<Rightarrow> string \<Rightarrow> bytes \<times> string option) \<Rightarrow> (string, HostConfig) gomap \<Rightarrow> (string, HostConfig) gomap outcome" where
  "sealHosts L key rnd [] = Ret []"
| "sealHosts L key rnd ((name, hc) # hosts) =
     (case sealHost L key (rnd name) hc of
        Panic \<Rightarrow> Panic
      | Ret hc' \<Rightarrow> map_outcome (\<lambda>rest. (name, hc') # rest) (sealHosts L key rnd hosts))"

text \<open>The text of the stored file: the encoder ends it with a newline.\<close>

definition configText :: "ServerConfig \<Rightarrow> bytes" where
  "configText cfg = bytes_of (json_indent 0 (ServerConfigJson cfg) @ [CHR 0x0A])"

definition putConfig ::
  "golib \<Rightarrow> ControlEnv \<Rightarrow> string \<Rightarrow> string \<Rightarrow> string \<Rightarrow> bytes \<Rightarrow> ResponseWriter \<Rightarrow> ControlPlane \<Rightarrow> ControlResult \<times> ControlPlane" where
  "putConfig L e clientIp path deviceHash bodyBytes w cp =
     (case ParseServerConfig L (ceUnmarshal e) bodyBytes of
        Inl err \<Rightarrow> (controlReply (reply 400 (errorJson L err) w) [], cp)
      | Inr newCfg \<Rightarrow>
          (case sealHosts L (ceKey e) (ceRandom e) (scHosts newCfg) of
             Panic \<Rightarrow> (controlPanic w, cp)
           | Ret hosts \<Rightarrow>
              (let newCfg = newCfg\<lparr>scHosts := hosts\<rparr>;
                   tempPath = configFilePath cp @ ''.tmp.'' @ itoa_int (ceUnixNano e);
                   failed = (\<lambda>efs note. (\<lparr>crWriter = reply 500 (errorJson L note) w, crEffects = efs, crLog = [], crPanic = False\<rparr>, cp))
               in if ceOpenErr e \<noteq> None then failed [] ''failed to create persistent temp file''
                  else if ceEncodeErr e \<noteq> None then
                    failed [CreateTemp tempPath, RemoveTemp tempPath] ''failed to serialize configuration''
                  else if ceRenameErr e \<noteq> None then
                    failed [CreateTemp tempPath, RemoveTemp tempPath] ''failed to atomically replace configuration file''
                  else
                   (\<lparr>crWriter = reply 200 ([CHR ''{'', CHR 0x22] @ ''success'' @ [CHR 0x22] @ '':true,'' @ [CHR 0x22] @ ''timestamp''
                        @ [CHR 0x22, CHR '':''] @ itoa_int (ceUnixMilli e) @ '','' @ [CHR 0x22] @ ''device'' @ [CHR 0x22, CHR '':'']
                        @ Quote L deviceHash @ ''}'') w,
                     crEffects = [CreateTemp tempPath, ReplaceConfig (configFilePath cp) (configText newCfg)]
                        @ map (\<lambda>cb. Notify cb newCfg) (subscribers cp),
                     crLog = [LogHTTP clientIp ''PUT'' ''control-plane'' path 200 ''Config updated''], crPanic = False\<rparr>,
                    cp\<lparr>clCfg := newCfg\<rparr>))))"

definition notAllowed :: "ResponseWriter \<Rightarrow> ControlResult" where
  "notAllowed w = controlReply (reply 405 [] w) []"

definition notFound :: "golib \<Rightarrow> ResponseWriter \<Rightarrow> ControlResult" where
  "notFound L w = controlReply (reply 404 (errorJson L ''Endpoint Not Found'') w) []"

text \<open>The endpoints behind the authentication.\<close>

definition apiRequest ::
  "golib \<Rightarrow> ControlEnv \<Rightarrow> HttpRequest \<Rightarrow> string \<Rightarrow> string \<Rightarrow> bytes \<Rightarrow> ResponseWriter \<Rightarrow> ControlPlane \<Rightarrow> ControlResult \<times> ControlPlane" where
  "apiRequest L e r clientIp deviceHash bodyBytes w cp =
     (let path = hrPath r; isGet = (hrMethod r = ''GET'');
          get = (\<lambda>body. (if isGet then controlReply (reply 200 body w) [] else notAllowed w, cp))
      in if path = ''/api/v1/logs'' then
           get (json_print (JArr (map (LogEventJson (ceTimeJson e)) (GetEvents (GlobalBuffer (ceLogger e))))))
         else if path = ''/api/v1/containers'' then get (json_print (mapJson JStr (ceContainers e)))
         else if path = ''/api/v1/controlplane-status'' then get (json_print (statusJson cp))
         else if path = ''/api/v1/pow-challenge'' then
           (if \<not> isGet then (notAllowed w, cp)
            else
             (let payloadHash = QueryGet (hrRawQuery r) ''payload_hash'' in
              if payloadHash = [] then
                (controlReply (reply 400 (errorJson L ''Missing payload_hash query parameter'') w) [], cp)
              else
                (controlReply (reply 200 ([CHR ''{'', CHR 0x22] @ ''challenge'' @ [CHR 0x22, CHR '':'']
                   @ Quote L (powChallenge (ceUnix e) deviceHash payloadHash cp) @ ''}'') w) [], cp)))
         else if path = ''/api/v1/config'' \<and> isGet then
           (controlReply (reply 200 (json_print (ServerConfigJson (clCfg cp))) w)
              [LogHTTP clientIp ''GET'' ''control-plane'' path 200 ''Config retrieved''], cp)
         else if path = ''/api/v1/config'' \<and> hrMethod r = ''PUT'' then
           putConfig L e clientIp path deviceHash bodyBytes w cp
         else (notFound L w, cp))"

text \<open>The interface under \<^verbatim>\<open>/api/v1/\<close>: the body of a change is read up to one megabyte, then the request is authenticated.\<close>

definition apiServe ::
  "golib \<Rightarrow> ControlEnv \<Rightarrow> HttpRequest \<Rightarrow> string \<Rightarrow> ResponseWriter \<Rightarrow> ControlPlane \<Rightarrow> ControlResult \<times> ControlPlane" where
  "apiServe L e r clientIp w cp =
     (let w = SetHeader ''Content-Type'' ''application/json'' w;
          isMutation = (hrMethod r = ''PUT'' \<or> hrMethod r = ''POST'');
          fault = (\<lambda>status err cp. (controlReply (reply status (errorJson L err) w)
             [LogError (''Control Plane API Fault: HTTP '' @ itoa_int status @ '' | '' @ err @ '' | Client: '' @ clientIp)], cp))
      in case (if isMutation then hrBody r else Some (Inr [])) of
           None \<Rightarrow> (controlPanic w, cp)
         | Some (Inl _) \<Rightarrow> fault 413 ''Payload size limit exceeded'' cp
         | Some (Inr body) \<Rightarrow>
            (let bodyBytes = take 1048576 body in
             case authenticate (ceUnix e) (hrHeader r) isMutation bodyBytes cp of
               (Inl err, cp) \<Rightarrow> fault (if Contains err ''Proof of Work'' then 403 else 401) err cp
             | (Inr deviceHash, cp) \<Rightarrow> apiRequest L e r clientIp deviceHash bodyBytes w cp))"

definition healthJson :: "int \<Rightarrow> string" where
  "healthJson now = [CHR ''{'', CHR 0x22] @ ''status'' @ [CHR 0x22, CHR '':'', CHR 0x22] @ ''healthy'' @ [CHR 0x22, CHR '','', CHR 0x22]
     @ ''timestamp'' @ [CHR 0x22, CHR '':''] @ itoa_int now @ ''}''"

definition controlServe :: "golib \<Rightarrow> ControlEnv \<Rightarrow> HttpRequest \<Rightarrow> ControlPlane \<Rightarrow> ControlResult \<times> ControlPlane" where
  "controlServe L e r cp =
     (let clientIp = hostOf (hrRemoteAddr r); w = newWriter; path = hrPath r;
          page = (\<lambda>contentType body. (if hrMethod r = ''GET'' then controlReply (reply 200 body (SetHeader ''Content-Type'' contentType w)) []
                                      else notAllowed w, cp))
      in case sandboxed (ceSubnets e) clientIp of
           Some subnetStr \<Rightarrow>
             (controlReply (reply 403 (errorJson L
                ''Security Violation: Sandboxed containers are strictly forbidden from accessing the Control Plane.'')
                (SetHeader ''Content-Type'' ''application/json'' w))
              [LogError (''[SECURITY] Blocked Control Plane access attempt from sandboxed client IP: '' @ clientIp
                 @ '' (matches subnet: '' @ subnetStr @ '')'')], cp)
         | None \<Rightarrow>
             if path = ''/metrics'' then page ''text/plain; version=0.0.4'' (GetMetricsPrometheus (ceLogger e))
             else if path = ''/healthz'' then page ''application/json'' (healthJson (ceUnix e))
             else if path = ''/'' \<or> path = ''/dashboard'' then page ''text/html; charset=utf-8'' (ceDashboard e)
             else if HasPrefix path ''/api/v1/'' then apiServe L e r clientIp w cp
             else (notFound L w, cp))"

section \<open>Requests only reach the configuration when they are authenticated\<close>

lemma useNonce_frame:
  "useNonce t nonce cp = (err, cp') \<Longrightarrow> cp' = cp\<lparr>currentPoWWindow := currentPoWWindow cp', seenNonces := seenNonces cp'\<rparr>"
  by (auto simp: useNonce_def Let_def split: if_splits)

lemma useNonce_None:
  "useNonce t nonce cp = (None, cp') \<longleftrightarrow>
     (currentPoWWindow cp = t \<longrightarrow> nonce \<notin> set (seenNonces cp))
     \<and> cp' = cp\<lparr>currentPoWWindow := t, seenNonces := nonce # (if currentPoWWindow cp = t then seenNonces cp else [])\<rparr>"
  by (auto simp: useNonce_def Let_def)

lemma authenticate_frame:
  assumes "authenticate now hs isMutation body cp = (res, cp')"
  shows "cp' = cp\<lparr>currentPoWWindow := currentPoWWindow cp', seenNonces := seenNonces cp'\<rparr>"
  using assms useNonce_frame
  by (auto simp: authenticate_def verifyProofOfWork_def Let_def split: if_splits prod.splits option.splits)

text \<open>What an accepted change has shown.\<close>

definition proven :: "int \<Rightarrow> Header \<Rightarrow> bytes \<Rightarrow> ControlPlane \<Rightarrow> bool" where
  "proven now hs body cp \<longleftrightarrow>
     (let nonce = HeaderGet ''X-Pow-Nonce'' hs; deviceId = HeaderGet ''X-Device-Id'' hs in
      macHex (apiKeySecret cp) (HeaderGet ''X-Api-Key'' hs) = expectedApiKeyHash cp \<and> deviceId \<noteq> [] \<and> nonce \<noteq> []
      \<and> HasPrefix (EncodeToString (Sha256 (bytes_of (powChallenge now (macHex (deviceSecret cp) deviceId)
            (EncodeToString (Sha256 body)) cp @ nonce)))) ''0000''
      \<and> (currentPoWWindow cp \<noteq> now div 300 \<or> nonce \<notin> set (seenNonces cp)))"

lemma authenticate_mutation:
  assumes "authenticate now hs True body cp = (Inr d, cp')"
  shows "proven now hs body cp \<and> currentPoWWindow cp' = now div 300
    \<and> seenNonces cp' = HeaderGet ''X-Pow-Nonce'' hs # (if currentPoWWindow cp = now div 300 then seenNonces cp else [])"
  using assms
  by (auto simp: authenticate_def verifyProofOfWork_def proven_def Let_def useNonce_None split: if_splits prod.splits option.splits)

definition harmless :: "control_effect \<Rightarrow> bool" where
  "harmless ef = (case ef of CreateTemp _ \<Rightarrow> True | RemoveTemp _ \<Rightarrow> True | _ \<Rightarrow> False)"

lemma reply_effects [simp]:
  "crEffects (controlReply w log) = []" "crEffects (controlPanic w) = []" "crEffects (notAllowed w) = []" "crEffects (notFound L w) = []"
  by (simp_all add: controlReply_def controlPanic_def notAllowed_def notFound_def)

definition replaced :: "golib \<Rightarrow> ControlEnv \<Rightarrow> bytes \<Rightarrow> ControlPlane \<Rightarrow> ControlResult \<Rightarrow> ControlPlane \<Rightarrow> bool" where
  "replaced L e body cp res cp' \<longleftrightarrow>
     (\<exists>newCfg hosts temp. ParseServerConfig L (ceUnmarshal e) body = Inr newCfg
        \<and> sealHosts L (ceKey e) (ceRandom e) (scHosts newCfg) = Ret hosts \<and> clCfg cp' = newCfg\<lparr>scHosts := hosts\<rparr>
        \<and> crEffects res = [CreateTemp temp, ReplaceConfig (configFilePath cp) (configText (clCfg cp'))]
             @ map (\<lambda>cb. Notify cb (clCfg cp')) (subscribers cp))"

lemma putConfig_cases:
  assumes "putConfig L e clientIp path d body w cp = (res, cp')"
  shows "(clCfg cp' = clCfg cp \<and> list_all harmless (crEffects res)) \<or> replaced L e body cp res cp'"
proof (cases "ParseServerConfig L (ceUnmarshal e) body")
  case (Inl err)
  then show ?thesis using assms by (auto simp: putConfig_def)
next
  case (Inr newCfg)
  show ?thesis
  proof (cases "sealHosts L (ceKey e) (ceRandom e) (scHosts newCfg)")
    case Panic
    then show ?thesis using assms Inr by (auto simp: putConfig_def)
  next
    case (Ret hosts)
    show ?thesis
    proof (cases "ceOpenErr e = None \<and> ceEncodeErr e = None \<and> ceRenameErr e = None")
      case True
      then show ?thesis using assms Inr Ret by (auto simp: putConfig_def Let_def replaced_def)
    next
      case False
      then show ?thesis using assms Inr Ret by (auto simp: putConfig_def Let_def harmless_def split: if_splits)
    qed
  qed
qed

lemma putConfig_frame:
  assumes "putConfig L e clientIp path d body w cp = (res, cp')"
  shows "cp' = cp\<lparr>clCfg := clCfg cp'\<rparr>"
  using assms by (auto simp: putConfig_def Let_def split: sum.splits outcome.splits if_splits)

lemma apiRequest_cases:
  assumes "apiRequest L e r clientIp d body w cp = (res, cp')"
  shows "(cp' = cp \<and> crEffects res = [])
    \<or> (hrPath r = ''/api/v1/config'' \<and> hrMethod r = ''PUT'' \<and> putConfig L e clientIp ''/api/v1/config'' d body w cp = (res, cp'))"
  using assms by (auto simp: apiRequest_def Let_def split: if_splits)

lemma apiServe_cases:
  assumes "apiServe L e r clientIp w cp = (res, cp')"
  shows "(clCfg cp' = clCfg cp \<and> list_all harmless (crEffects res))
    \<or> (\<exists>body. hrMethod r = ''PUT'' \<and> hrPath r = ''/api/v1/config'' \<and> hrBody r = Some (Inr body)
        \<and> proven (ceUnix e) (hrHeader r) (take 1048576 body) cp \<and> HeaderGet ''X-Pow-Nonce'' (hrHeader r) \<in> set (seenNonces cp')
        \<and> currentPoWWindow cp' = ceUnix e div 300 \<and> replaced L e (take 1048576 body) cp res cp')"
proof (cases "if hrMethod r = ''PUT'' \<or> hrMethod r = ''POST'' then hrBody r else Some (Inr [])")
  case None
  then show ?thesis using assms by (auto simp: apiServe_def Let_def split: if_splits)
next
  case (Some b)
  show ?thesis
  proof (cases b)
    case (Inl err)
    then show ?thesis using assms Some by (auto simp: apiServe_def Let_def split: if_splits)
  next
    case (Inr body)
    let ?m = "hrMethod r = ''PUT'' \<or> hrMethod r = ''POST''" and ?w = "SetHeader ''Content-Type'' ''application/json'' w"
    obtain a cp1 where auth: "authenticate (ceUnix e) (hrHeader r) ?m (take 1048576 body) cp = (a, cp1)" by force
    note frame = authenticate_frame [OF auth]
    have same: "clCfg cp1 = clCfg cp" "configFilePath cp1 = configFilePath cp" "subscribers cp1 = subscribers cp"
      by (subst frame, simp)+
    show ?thesis
    proof (cases a)
      case l: (Inl err)
      then have "cp' = cp1" "crEffects res = []" using assms unfolding apiServe_def Let_def Some option.case Inr sum.case auth l prod.case by auto
      then show ?thesis using same by simp
    next
      case d: (Inr d)
      have api: "apiRequest L e r clientIp d (take 1048576 body) ?w cp1 = (res, cp')"
        using assms unfolding apiServe_def Let_def Some option.case Inr sum.case auth d prod.case by simp
      from apiRequest_cases [OF api] show ?thesis
      proof
        assume "cp' = cp1 \<and> crEffects res = []"
        then show ?thesis using same by simp
      next
        assume put: "hrPath r = ''/api/v1/config'' \<and> hrMethod r = ''PUT''
          \<and> putConfig L e clientIp ''/api/v1/config'' d (take 1048576 body) ?w cp1 = (res, cp')"
        have "proven (ceUnix e) (hrHeader r) (take 1048576 body) cp" "HeaderGet ''X-Pow-Nonce'' (hrHeader r) \<in> set (seenNonces cp1)"
            "currentPoWWindow cp1 = ceUnix e div 300"
          using authenticate_mutation [of "ceUnix e" "hrHeader r" "take 1048576 body" cp d cp1] auth d put by simp_all
        moreover obtain c where "cp' = cp1\<lparr>clCfg := c\<rparr>" using put putConfig_frame by blast
        then have "seenNonces cp' = seenNonces cp1" "currentPoWWindow cp' = currentPoWWindow cp1" by simp_all
        moreover have "hrBody r = Some (Inr body)" using Some Inr put by simp
        moreover have "replaced L e b cp1 res cp' = replaced L e b cp res cp'" for b using same by (simp add: replaced_def)
        ultimately show ?thesis using putConfig_cases [of L e clientIp _ d _ ?w cp1 res cp'] put same by auto
      qed
    qed
  qed
qed

text \<open>
  C6: the configuration changes only for an authenticated request: whatever is sent to the control plane,
  either the configuration in force stays, the stored file is not replaced and no subscriber is called,
  or the request is a PUT of the configuration from outside the sandbox subnets that carries the API
  key, a device identifier and a fresh nonce that solves the proof of work for its body; then the new
  configuration is the accepted one with its headers sealed, the stored file is its text, and every
  subscriber is called with it.
\<close>

theorem config_guarded:
  "case controlServe L e r cp of (res, cp') \<Rightarrow>
     (clCfg cp' = clCfg cp \<and> list_all (\<lambda>ef. case ef of CreateTemp _ \<Rightarrow> True | RemoveTemp _ \<Rightarrow> True | _ \<Rightarrow> False) (crEffects res))
     \<or> (\<exists>body newCfg hosts temp. hrMethod r = ''PUT'' \<and> hrPath r = ''/api/v1/config'' \<and> hrBody r = Some (Inr body)
          \<and> sandboxed (ceSubnets e) (hostOf (hrRemoteAddr r)) = None
          \<and> proven (ceUnix e) (hrHeader r) (take 1048576 body) cp \<and> HeaderGet ''X-Pow-Nonce'' (hrHeader r) \<in> set (seenNonces cp')
          \<and> ParseServerConfig L (ceUnmarshal e) (take 1048576 body) = Inr newCfg
          \<and> sealHosts L (ceKey e) (ceRandom e) (scHosts newCfg) = Ret hosts \<and> clCfg cp' = newCfg\<lparr>scHosts := hosts\<rparr>
          \<and> crEffects res = [CreateTemp temp, ReplaceConfig (configFilePath cp) (configText (clCfg cp'))]
               @ map (\<lambda>cb. Notify cb (clCfg cp')) (subscribers cp))"
proof -
  obtain res cp' where sv: "controlServe L e r cp = (res, cp')" by force
  then have "(clCfg cp' = clCfg cp \<and> crEffects res = [])
      \<or> (sandboxed (ceSubnets e) (hostOf (hrRemoteAddr r)) = None \<and> apiServe L e r (hostOf (hrRemoteAddr r)) newWriter cp = (res, cp'))"
    by (auto simp: controlServe_def Let_def split: option.splits if_splits)
  then show ?thesis
    unfolding sv prod.case harmless_def [abs_def, symmetric]
    using apiServe_cases [of L e r "hostOf (hrRemoteAddr r)" newWriter cp res cp'] by (auto simp: replaced_def)
qed

section \<open>A nonce is good for one change\<close>

text \<open>How a request moves the table of nonces: not at all, or to its own window, where nothing is forgotten.\<close>

definition nonces_move :: "int \<Rightarrow> ControlPlane \<Rightarrow> ControlPlane \<Rightarrow> bool" where
  "nonces_move t cp cp' \<longleftrightarrow>
     (currentPoWWindow cp' = currentPoWWindow cp \<and> seenNonces cp' = seenNonces cp)
     \<or> (currentPoWWindow cp' = t \<and> (currentPoWWindow cp = t \<longrightarrow> set (seenNonces cp) \<subseteq> set (seenNonces cp')))"

lemma authenticate_nonces: "authenticate now hs m body cp = (a, cp') \<Longrightarrow> nonces_move (now div 300) cp cp'"
  by (auto simp: authenticate_def verifyProofOfWork_def useNonce_def Let_def nonces_move_def split: if_splits)

lemma apiRequest_nonces:
  assumes "apiRequest L e r clientIp d body w cp = (res, cp')"
  shows "currentPoWWindow cp' = currentPoWWindow cp \<and> seenNonces cp' = seenNonces cp"
  using apiRequest_cases [OF assms]
proof
  assume "hrPath r = ''/api/v1/config'' \<and> hrMethod r = ''PUT'' \<and> putConfig L e clientIp ''/api/v1/config'' d body w cp = (res, cp')"
  then obtain c where "cp' = cp\<lparr>clCfg := c\<rparr>" using putConfig_frame by blast
  then show ?thesis by simp
qed simp

lemma controlServe_nonces:
  assumes "controlServe L e r cp = (res, cp')"
  shows "nonces_move (ceUnix e div 300) cp cp'"
proof -
  have "cp' = cp \<or> apiServe L e r (hostOf (hrRemoteAddr r)) newWriter cp = (res, cp')"
    using assms by (auto simp: controlServe_def Let_def split: option.splits if_splits)
  moreover have "nonces_move (ceUnix e div 300) cp cp'" if "apiServe L e r ip w cp = (res, cp')" for ip w
  proof -
    from that have "cp' = cp \<or> (\<exists>hs m body a cp1 d. authenticate (ceUnix e) hs m body cp = (a, cp1)
        \<and> (cp' = cp1 \<or> apiRequest L e r ip d body (SetHeader ''Content-Type'' ''application/json'' w) cp1 = (res, cp')))"
      by (auto simp: apiServe_def Let_def split: option.splits sum.splits prod.splits) blast+
    then show ?thesis
      using authenticate_nonces apiRequest_nonces by (fastforce simp: nonces_move_def)
  qed
  ultimately show ?thesis by (auto simp: nonces_move_def)
qed

definition replaces :: "control_effect \<Rightarrow> bool" where
  "replaces ef = (case ef of ReplaceConfig _ _ \<Rightarrow> True | _ \<Rightarrow> False)"

lemma replaces_fresh:
  assumes "controlServe L e r cp = (res, cp')" "list_ex replaces (crEffects res)"
  shows "(currentPoWWindow cp \<noteq> ceUnix e div 300 \<or> HeaderGet ''X-Pow-Nonce'' (hrHeader r) \<notin> set (seenNonces cp))
    \<and> HeaderGet ''X-Pow-Nonce'' (hrHeader r) \<in> set (seenNonces cp') \<and> currentPoWWindow cp' = ceUnix e div 300"
proof -
  have "apiServe L e r (hostOf (hrRemoteAddr r)) newWriter cp = (res, cp')"
    using assms by (auto simp: controlServe_def Let_def split: option.splits if_splits)
  moreover have "\<not> list_all harmless (crEffects res)"
    using assms(2) by (auto simp: list_ex_iff list_all_iff replaces_def harmless_def split: control_effect.splits)
  ultimately show ?thesis using apiServe_cases by (fastforce simp: proven_def Let_def)
qed

text \<open>The changes of the configuration in a sequence of requests: window and nonce of each.\<close>

fun configChanges :: "golib \<Rightarrow> (ControlEnv \<times> HttpRequest) list \<Rightarrow> ControlPlane \<Rightarrow> (int \<times> string) list" where
  "configChanges L [] cp = []"
| "configChanges L ((e, r) # rs) cp =
     (case controlServe L e r cp of (res, cp') \<Rightarrow>
        (if list_ex replaces (crEffects res) then [(ceUnix e div 300, HeaderGet ''X-Pow-Nonce'' (hrHeader r))] else [])
        @ configChanges L rs cp')"

lemma configChanges_fresh:
  assumes "sorted (currentPoWWindow cp # map (\<lambda>(e, r). ceUnix e div 300) rs)"
  shows "distinct (configChanges L rs cp)
    \<and> (\<forall>(t, n) \<in> set (configChanges L rs cp). currentPoWWindow cp \<le> t \<and> (t = currentPoWWindow cp \<longrightarrow> n \<notin> set (seenNonces cp)))"
  using assms
proof (induction L rs cp rule: configChanges.induct)
  case (2 L e r rs cp)
  let ?t = "ceUnix e div 300" and ?n = "HeaderGet ''X-Pow-Nonce'' (hrHeader r)"
  obtain res cp' where sv: "controlServe L e r cp = (res, cp')" by force
  note move = controlServe_nonces [OF sv]
  have t: "currentPoWWindow cp \<le> ?t" "currentPoWWindow cp' \<le> ?t" "currentPoWWindow cp \<le> currentPoWWindow cp'"
    using "2.prems" move by (auto simp: nonces_move_def)
  have "sorted (currentPoWWindow cp' # map (\<lambda>(e, r). ceUnix e div 300) rs)" using "2.prems" t(2) by fastforce
  with "2.IH" [OF sv [symmetric]] have IH: "distinct (configChanges L rs cp')"
      "\<forall>(t, n) \<in> set (configChanges L rs cp'). currentPoWWindow cp' \<le> t \<and> (t = currentPoWWindow cp' \<longrightarrow> n \<notin> set (seenNonces cp'))"
    by auto
  have later: "currentPoWWindow cp \<le> t \<and> (t = currentPoWWindow cp \<longrightarrow> n \<notin> set (seenNonces cp))"
    if "(t, n) \<in> set (configChanges L rs cp')" for t n
    using IH(2) that t(1,3) move by (fastforce simp: nonces_move_def)
  show ?case
  proof (cases "list_ex replaces (crEffects res)")
    case True
    note fresh = replaces_fresh [OF sv True]
    then have "(?t, ?n) \<notin> set (configChanges L rs cp')" using IH(2) fresh by auto
    then show ?thesis using IH(1) later fresh t(1) True by (auto simp: sv)
  qed (use IH(1) later in \<open>auto simp: sv\<close>)
qed simp


text \<open>
  The window of a request is computed before the lock is taken, so at the end of a window the order
  can turn: after a request of the next window with a nonce, one late request of the old window empties
  the table, and the nonce is accepted a second time in its own window.
\<close>

theorem nonce_race:
  assumes "currentPoWWindow cp \<le> t" "m \<notin> set (seenNonces cp)"
  shows "case useNonce (t + 1) n cp of (r1, cp1) \<Rightarrow> case useNonce t m cp1 of (r2, cp2) \<Rightarrow> case useNonce (t + 1) n cp2 of (r3, cp3) \<Rightarrow>
    r1 = None \<and> r2 = None \<and> r3 = None"
  using assms by (simp add: useNonce_def Let_def)

section \<open>The stored configuration\<close>

lemma sealed_no_crlf:
  assumes "EncryptSecret L key rnd v = Ret (Inr w)" "\<not> IsEncrypted v"
  shows "\<not> hasCRLF w"
proof -
  have "CHR 0x0D \<notin> set (EncodeToString b)" "CHR 0x0A \<notin> set (EncodeToString b)" for b
    using EncodeToString_hex [of "CHR 0x0D" b] EncodeToString_hex [of "CHR 0x0A" b] by (auto simp: is_hex_digit_def)
  then show ?thesis
    using assms by (auto simp: EncryptSecret_def Let_def hasCRLF_def ContainsAny_def list_ex_iff split: option.splits prod.splits if_splits)
qed

lemma sealHeaders_valid:
  assumes "sealHeaders L key rnd hs = Ret hs'" "list_all (\<lambda>kv. validateHeader kv = None) hs"
  shows "length hs' = length hs \<and> (list_all (\<lambda>kv. validateHeader kv = None) hs' \<longleftrightarrow> list_all (\<lambda>kv. length (snd kv) \<le> 8192) hs')"
  using assms
proof (induction L key rnd hs arbitrary: hs' rule: sealHeaders.induct)
  case (2 L key rnd k v hs)
  let ?v = "if IsEncrypted v then Ret v
    else case EncryptSecret L key (rnd k) v of Panic \<Rightarrow> Panic | Ret (Inl _) \<Rightarrow> Ret v | Ret (Inr enc) \<Rightarrow> Ret enc"
  obtain v' rest where v': "?v = Ret v'" "sealHeaders L key rnd hs = Ret rest" "hs' = (k, v') # rest"
    using "2.prems"(1) by (cases ?v; cases "sealHeaders L key rnd hs") auto
  have "\<not> hasCRLF v'"
    using v'(1) "2.prems"(2) sealed_no_crlf by (auto simp: validateHeader_def split: if_splits outcome.splits sum.splits)
  then have "validateHeader (k, v') = None \<longleftrightarrow> length v' \<le> 8192"
    using "2.prems"(2) by (auto simp: validateHeader_def split: if_splits)
  with "2.IH" [OF v'(1) v'(2)] "2.prems"(2) v'(3) show ?case by simp
qed simp

definition short_headers :: "HostConfig \<Rightarrow> bool" where
  "short_headers hc = (case hcHttpProxy hc of None \<Rightarrow> True | Some hp \<Rightarrow> list_all (\<lambda>kv. length (snd kv) \<le> 8192) (hpHeaders hp))"

lemma sealHost_valid:
  assumes "sealHost L key rnd hc = Ret hc'" "validateHost L k hc = None"
  shows "validateHost L k hc' = None \<longleftrightarrow> short_headers hc'"
proof (cases "hcHttpProxy hc")
  case None
  then show ?thesis using assms by (auto simp: sealHost_def short_headers_def)
next
  case (Some hp)
  then obtain hs' where hs': "sealHeaders L key rnd (hpHeaders hp) = Ret hs'" "hc' = hc\<lparr>hcHttpProxy := Some (hp\<lparr>hpHeaders := hs'\<rparr>)\<rparr>"
    using assms(1) by (cases "sealHeaders L key rnd (hpHeaders hp)") (auto simp: sealHost_def)
  have "list_all (\<lambda>kv. validateHeader kv = None) (hpHeaders hp)"
    using assms(2) Some by (auto simp: validateHost_def ValidateHttpProxy_def list_all_iff)
  from sealHeaders_valid [OF hs'(1) this] assms(2) Some show ?thesis
    by (auto simp: validateHost_def ValidateHttpProxy_def short_headers_def hs'(2) list_all_iff)
qed

lemma sealHosts_valid:
  assumes "sealHosts L key rnd hosts = Ret hosts'" "list_all (host_ok L) hosts"
  shows "map fst hosts' = map fst hosts \<and> list_all (\<lambda>(k, hc). normalizeKey L k = k) hosts'
    \<and> list_all (\<lambda>(k, hc). validateHost L k hc = None \<longleftrightarrow> short_headers hc) hosts'"
  using assms
proof (induction L key rnd hosts arbitrary: hosts' rule: sealHosts.induct)
  case (2 L key rnd name hc hosts)
  obtain hc' rest where r: "sealHost L key (rnd name) hc = Ret hc'" "sealHosts L key rnd hosts = Ret rest" "hosts' = (name, hc') # rest"
    using "2.prems"(1) by (cases "sealHost L key (rnd name) hc"; cases "sealHosts L key rnd hosts") auto
  from "2.IH" [OF r(1,2)] sealHost_valid [OF r(1)] "2.prems"(2) r(3) show ?case by (auto simp: host_ok_def)
qed simp

lemma normalizeHosts_refused:
  "(k, hc) \<in> set hs \<Longrightarrow> validateHost L k hc \<noteq> None \<Longrightarrow> \<exists>err. normalizeHosts L hs acc = Inl err"
  by (induction L hs acc rule: normalizeHosts.induct) (auto split: option.splits)

lemma accepted_limits:
  assumes "ValidateServerConfig L c = (None, c')"
  shows "validateListeners c' = None \<and> limits_ok c'"
proof -
  from assms obtain c1 hosts where v: "validateListeners c = None" "validateLimits c = (None, c1)" "c' = c1\<lparr>scHosts := hosts\<rparr>"
    by (rule ValidateServerConfig_None)
  note c1 = validateLimits_None [OF v(2)]
  have "validateListeners c1 = validateListeners c" by (subst c1 [THEN conjunct2]) simp
  moreover have "limits_ok c'" using c1 [THEN conjunct1] by (simp add: v(3))
  ultimately show ?thesis using v(1) by (simp add: v(3))
qed

lemma sealed_revalidated:
  assumes "ValidateServerConfig L c = (None, c')" "lower_ok L" "sealHosts L key rnd (scHosts c') = Ret hosts"
  shows "if list_all (short_headers \<circ> snd) hosts then ValidateServerConfig L (c'\<lparr>scHosts := hosts\<rparr>) = (None, c'\<lparr>scHosts := hosts\<rparr>)
    else \<exists>err c. ValidateServerConfig L (c'\<lparr>scHosts := hosts\<rparr>) = (Some err, c)"
proof -
  let ?c = "c'\<lparr>scHosts := hosts\<rparr>"
  note acc = hosts_accepted [OF assms(1,2)]
  have sealed: "map fst hosts = map fst (scHosts c')" "list_all (\<lambda>(k, hc). normalizeKey L k = k) hosts"
      "list_all (\<lambda>(k, hc). validateHost L k hc = None \<longleftrightarrow> short_headers hc) hosts"
    using sealHosts_valid [OF assms(3)] acc by blast+
  have wf: "distinct (map fst hosts)" "length hosts \<le> 5000"
    using acc map_eq_imp_length_eq [OF sealed(1)] by (simp_all add: sealed(1) map_wf_def)
  have base: "validateListeners ?c = None" "validateLimits ?c = (None, ?c)"
    using accepted_limits [OF assms(1)] by (simp_all add: validateLimits_fixed)
  show ?thesis
  proof (cases "list_all (short_headers \<circ> snd) hosts")
    case True
    then have "list_all (host_ok L) hosts" using sealed(2,3) by (fastforce simp: list_all_iff host_ok_def)
    then have "normalizeHosts L hosts [] = Inr hosts" using normalizeHosts_fixed [of L hosts "[]"] wf(1) by simp
    then show ?thesis using True base wf(2) by (simp add: ValidateServerConfig_def)
  next
    case False
    then obtain k hc where "(k, hc) \<in> set hosts" "\<not> short_headers hc" by (auto simp: list_all_iff)
    then have "validateHost L k hc \<noteq> None" using sealed(3) by (auto simp: list_all_iff)
    then obtain err where "normalizeHosts L hosts [] = Inl err" using normalizeHosts_refused \<open>(k, hc) \<in> set hosts\<close> by blast
    then show ?thesis using False base wf(2) by (simp add: ValidateServerConfig_def)
  qed
qed

lemma putConfig_replaces:
  assumes "putConfig L e clientIp p d body w cp = (res, cp')" "ReplaceConfig path text \<in> set (crEffects res)"
  shows "replaced L e body cp res cp'"
proof -
  have "\<not> list_all harmless (crEffects res)"
    using assms(2) by (auto simp: list_all_iff harmless_def intro: bexI [of _ "ReplaceConfig path text"])
  then show ?thesis using putConfig_cases [OF assms(1)] by blast
qed

lemma stored_checked:
  assumes "putConfig L e clientIp p d body w cp = (res, cp')" "ReplaceConfig path text \<in> set (crEffects res)" "lower_ok L"
    and "ceUnmarshal e text = Inr (clCfg cp')"
  shows "path = configFilePath cp \<and> text = configText (clCfg cp')
    \<and> (if list_all (short_headers \<circ> snd) (scHosts (clCfg cp')) then ParseServerConfig L (ceUnmarshal e) text = Inr (clCfg cp')
       else \<exists>err. ParseServerConfig L (ceUnmarshal e) text = Inl err)"
proof -
  obtain newCfg hosts temp where r: "ParseServerConfig L (ceUnmarshal e) body = Inr newCfg"
      "sealHosts L (ceKey e) (ceRandom e) (scHosts newCfg) = Ret hosts" "clCfg cp' = newCfg\<lparr>scHosts := hosts\<rparr>"
      "crEffects res = [CreateTemp temp, ReplaceConfig (configFilePath cp) (configText (clCfg cp'))]
         @ map (\<lambda>cb. Notify cb (clCfg cp')) (subscribers cp)"
    using putConfig_replaces [OF assms(1,2)] unfolding replaced_def by blast
  obtain c where "ValidateServerConfig L c = (None, newCfg)"
    using r(1) by (auto simp: ParseServerConfig_def split: sum.splits prod.splits option.splits)
  from sealed_revalidated [OF this assms(3) r(2)] show ?thesis
    using r(3,4) assms(2,4) by (auto simp: ParseServerConfig_def split: if_splits)
qed


lemma sealed_length:
  assumes "gcm_ok L" "length key = 32" "length nonce = 12" "\<not> IsEncrypted v"
  shows "\<exists>w. EncryptSecret L key (nonce, None) v = Ret (Inr w) \<and> length w = 61 + 2 * length v"
  using gcm_okD(2) [OF assms(1), of key nonce "bytes_of v"] assms(2-4) by (simp add: EncryptSecret_def NewCipher_def Let_def)

lemma sealHeaders_long:
  assumes "sealHeaders L key rnd hs = Ret hs'" "(k, v) \<in> set hs" "\<not> IsEncrypted v" "EncryptSecret L key (rnd k) v = Ret (Inr w)"
  shows "(k, w) \<in> set hs'"
  using assms
proof (induction L key rnd hs arbitrary: hs' rule: sealHeaders.induct)
  case (2 L key rnd k' v' hs)
  let ?v = "if IsEncrypted v' then Ret v'
    else case EncryptSecret L key (rnd k') v' of Panic \<Rightarrow> Panic | Ret (Inl _) \<Rightarrow> Ret v' | Ret (Inr enc) \<Rightarrow> Ret enc"
  obtain x rest where x: "?v = Ret x" "sealHeaders L key rnd hs = Ret rest" "hs' = (k', x) # rest"
    using "2.prems"(1) by (cases ?v; cases "sealHeaders L key rnd hs") auto
  show ?case using "2.IH" [OF x(1,2)] "2.prems"(2-4) x(1,3) by auto
qed simp

lemma sealHosts_member:
  assumes "sealHosts L key rnd hosts = Ret hosts'" "(name, hc) \<in> set hosts"
  shows "\<exists>hc'. sealHost L key (rnd name) hc = Ret hc' \<and> (name, hc') \<in> set hosts'"
  using assms
proof (induction L key rnd hosts arbitrary: hosts' rule: sealHosts.induct)
  case (2 L key rnd n h hosts)
  obtain h' rest where x: "sealHost L key (rnd n) h = Ret h'" "sealHosts L key rnd hosts = Ret rest" "hosts' = (n, h') # rest"
    using "2.prems"(1) by (cases "sealHost L key (rnd n) h"; cases "sealHosts L key rnd hosts") auto
  show ?case using "2.IH" [OF x(1,2)] "2.prems"(2) x(1,3) by auto
qed simp

text \<open>
  C37: a header that validation accepts can make the stored configuration unusable: sealing more than
  doubles a value, so after a change with a plain header of at least 4066 bytes, the text that was
  stored is refused by the validation of the next start.
\<close>

theorem long_header_unloadable:
  assumes "putConfig L e clientIp p d body w cp = (res, cp')" "ReplaceConfig path text \<in> set (crEffects res)" "lower_ok L"
    and "ceUnmarshal e text = Inr (clCfg cp')"
    and "gcm_ok L" "length (ceKey e) = 32" "\<And>h k. \<exists>nonce. ceRandom e h k = (nonce, None) \<and> length nonce = 12"
    and "ParseServerConfig L (ceUnmarshal e) body = Inr newCfg"
    and "(name, hc) \<in> set (scHosts newCfg)" "hcHttpProxy hc = Some hp" "(k, v) \<in> set (hpHeaders hp)"
    and "\<not> IsEncrypted v" "4066 \<le> length v"
  shows "\<exists>err. ParseServerConfig L (ceUnmarshal e) text = Inl err"
proof -
  obtain hosts where h: "sealHosts L (ceKey e) (ceRandom e) (scHosts newCfg) = Ret hosts" "scHosts (clCfg cp') = hosts"
    using putConfig_replaces [OF assms(1,2)] assms(8) by (auto simp: replaced_def)
  obtain nonce where n: "ceRandom e name k = (nonce, None)" "length nonce = 12" using assms(7) by blast
  obtain v' where w': "EncryptSecret L (ceKey e) (ceRandom e name k) v = Ret (Inr v')" "length v' = 61 + 2 * length v"
    using sealed_length [OF assms(5,6) n(2) assms(12)] n(1) by auto
  obtain hc' where hc': "sealHost L (ceKey e) (ceRandom e name) hc = Ret hc'" "(name, hc') \<in> set hosts"
    using sealHosts_member [OF h(1) assms(9)] by blast
  obtain hs' where hs': "sealHeaders L (ceKey e) (ceRandom e name) (hpHeaders hp) = Ret hs'" "hcHttpProxy hc' = Some (hp\<lparr>hpHeaders := hs'\<rparr>)"
    using hc'(1) assms(10) by (cases "sealHeaders L (ceKey e) (ceRandom e name) (hpHeaders hp)") (auto simp: sealHost_def)
  have "\<not> short_headers hc'"
    using sealHeaders_long [OF hs'(1) assms(11,12) w'(1)] w'(2) assms(13) hs'(2)
    by (auto simp: short_headers_def list_all_iff intro!: bexI [of _ "(k, v')"])
  then have "\<not> list_all (short_headers \<circ> snd) (scHosts (clCfg cp'))" using hc'(2) h(2) by (fastforce simp: list_all_iff)
  with stored_checked [OF assms(1-4)] show ?thesis by auto
qed

section \<open>What a client without the key learns\<close>

lemma apiServe_refused:
  assumes "\<And>now m body. \<exists>err. authenticate now (hrHeader r) m body cp = (Inl err, cp)
      \<and> authenticate now (hrHeader r) m body (cp\<lparr>clCfg := c\<rparr>) = (Inl err, cp\<lparr>clCfg := c\<rparr>)"
  shows "fst (apiServe L e r ip w (cp\<lparr>clCfg := c\<rparr>)) = fst (apiServe L e r ip w cp) \<and> snd (apiServe L e r ip w cp) = cp"
proof (cases "if hrMethod r = ''PUT'' \<or> hrMethod r = ''POST'' then hrBody r else Some (Inr [])")
  case None
  then show ?thesis unfolding apiServe_def Let_def None option.case by simp
next
  case (Some b)
  show ?thesis
  proof (cases b)
    case (Inl err)
    show ?thesis unfolding apiServe_def Let_def Some option.case Inl sum.case by simp
  next
    case (Inr body)
    obtain err where "authenticate (ceUnix e) (hrHeader r) (hrMethod r = ''PUT'' \<or> hrMethod r = ''POST'') (take 1048576 body) cp = (Inl err, cp)"
      "authenticate (ceUnix e) (hrHeader r) (hrMethod r = ''PUT'' \<or> hrMethod r = ''POST'') (take 1048576 body) (cp\<lparr>clCfg := c\<rparr>)
        = (Inl err, cp\<lparr>clCfg := c\<rparr>)"
      using assms by blast
    then show ?thesis unfolding apiServe_def Let_def Some option.case Inr sum.case by simp
  qed
qed

text \<open>
  C31: a request without the API key tells nothing about the configuration: its response, the logger
  calls and the effects are the same for every configuration in force, and the state stays.
\<close>

theorem config_confidential:
  assumes "HeaderGet ''X-Api-Key'' (hrHeader r) = [] \<or> macHex (apiKeySecret cp) (HeaderGet ''X-Api-Key'' (hrHeader r)) \<noteq> expectedApiKeyHash cp"
  shows "fst (controlServe L e r (cp\<lparr>clCfg := c\<rparr>)) = fst (controlServe L e r cp) \<and> snd (controlServe L e r cp) = cp"
proof -
  have auth: "\<exists>err. authenticate now (hrHeader r) m body cp = (Inl err, cp)
      \<and> authenticate now (hrHeader r) m body (cp\<lparr>clCfg := c\<rparr>) = (Inl err, cp\<lparr>clCfg := c\<rparr>)" for now m body
    using assms by (auto simp: authenticate_def Let_def)
  note api = apiServe_refused [OF auth, of L e]
  show ?thesis
  proof (cases "sandboxed (ceSubnets e) (hostOf (hrRemoteAddr r))")
    case None
    show ?thesis unfolding controlServe_def Let_def None option.case using api by (simp split: if_split)
  next
    case (Some s)
    show ?thesis unfolding controlServe_def Let_def Some option.case by simp
  qed
qed

section \<open>A concrete change\<close>

definition token_host :: "string \<Rightarrow> HostConfig" where
  "token_host v = \<lparr>hcRecords = [], hcHttpProxy = Some \<lparr>hpEnabled = True, hpUpstream = ''http://c.io'', hpHeaders = [(''X-Token'', v)],
     hpForwardRequestBody = False, hpMaxRequestBodyBytes = 0, hpClientTls = None\<rparr>, hcTlsProxy = None, hcRedirect = None\<rparr>"

definition token_config :: "string \<Rightarrow> ServerConfig" where
  "token_config v = example_accepted\<lparr>scHosts := [(''www.a.io'', token_host v)]\<rparr>"

definition sealed_token :: "string \<Rightarrow> string" where
  "sealed_token v = (case EncryptSecret example_lib (replicate 32 7) (replicate 12 1, None) v of Ret (Inr w) \<Rightarrow> w | _ \<Rightarrow> v)"

definition token_env :: "string \<Rightarrow> int \<Rightarrow> ControlEnv" where
  "token_env v now = \<lparr>ceSubnets = ''10.0.0.0/8'', ceUnix = now, ceUnixNano = 5, ceUnixMilli = 6, ceLogger = newLogger True,
     ceTimeJson = (\<lambda>t. itoa_int t), ceContainers = [], ceDashboard = ''html'',
     ceUnmarshal = (\<lambda>b. Inr (token_config (if b = [] then v else sealed_token v))),
     ceKey = replicate 32 7, ceRandom = (\<lambda>h k. (replicate 12 1, None)), ceOpenErr = None, ceEncodeErr = None, ceRenameErr = None\<rparr>"

definition example_control :: ControlPlane where
  "example_control = Subscribe 0 (NewControlPlane 0 [] ''key'' ''salt'' example_accepted ''etc//config.json'' None)"

definition plain_token :: "string \<Rightarrow> bool" where
  "plain_token v \<longleftrightarrow> CHR '':'' \<notin> set v \<and> \<not> hasCRLF v \<and> length v \<le> 8192"

lemma plain_not_encrypted: "plain_token v \<Longrightarrow> \<not> IsEncrypted v"
  by (simp add: plain_token_def IsEncrypted_def Split_no_sep)

lemma sealed_token_ok:
  assumes "plain_token v"
  shows "EncryptSecret example_lib (replicate 32 7) (replicate 12 1, None) v = Ret (Inr (sealed_token v))"
    and "length (sealed_token v) = 61 + 2 * length v"
  using sealed_length [OF gcm_ok_example, of "replicate 32 7" "replicate 12 1" v] plain_not_encrypted [OF assms]
  by (auto simp: sealed_token_def)

lemma token_accepted:
  assumes "plain_token v"
  shows "ValidateServerConfig example_lib (token_config v) = (None, token_config v)"
proof -
  have host: "validateKey ''www.a.io'' (normalizeKey example_lib ''www.a.io'') = None" "normalizeKey example_lib ''www.a.io'' = ''www.a.io''"
      "validateUpstream example_lib ''http://c.io'' = None" "headerNameRegex ''X-Token''"
    by code_simp+
  then have "host_ok example_lib (''www.a.io'', token_host v)"
    using assms
    by (simp add: host_ok_def validateHost_def token_host_def ValidateHttpProxy_def validateHeader_def plain_token_def ValidateTls_def
        ValidateTlsProxy_def ValidateRedirect_def)
  then have "normalizeHosts example_lib (scHosts (token_config v)) [] = Inr (scHosts (token_config v))"
    by (intro normalizeHosts_fixed [of _ _ "[]", simplified]) (simp_all add: token_config_def)
  then show ?thesis
    using accepted_limits [OF example_valid] by (simp add: ValidateServerConfig_def token_config_def validateLimits_fixed)
qed

lemma token_sealed:
  assumes "plain_token v"
  shows "sealHosts example_lib (replicate 32 7) (\<lambda>h k. (replicate 12 1, None)) (scHosts (token_config v)) = Ret (scHosts (token_config (sealed_token v)))"
  using sealed_token_ok(1) [OF assms] plain_not_encrypted [OF assms]
  by (simp add: token_config_def token_host_def sealHost_def)

lemma token_put:
  assumes "plain_token v"
  shows "\<exists>res cp'. putConfig example_lib (token_env v 600) ''192.0.2.1'' ''/api/v1/config'' ''d'' [] newWriter example_control = (res, cp')
    \<and> ReplaceConfig (configFilePath example_control) (configText (token_config (sealed_token v))) \<in> set (crEffects res)
    \<and> clCfg cp' = token_config (sealed_token v)
    \<and> ceUnmarshal (token_env v 600) (configText (token_config (sealed_token v))) = Inr (clCfg cp')"
proof -
  have same: "token_config v\<lparr>scHosts := scHosts (token_config (sealed_token v))\<rparr> = token_config (sealed_token v)" by (simp add: token_config_def)
  have "configText c \<noteq> []" for c by (simp add: configText_def bytes_of_def)
  then show ?thesis
    using token_accepted [OF assms] token_sealed [OF assms] same
    by (simp add: putConfig_def Let_def ParseServerConfig_def token_env_def)
qed


theorem long_header_unloadable_witness:
  "\<exists>err. ParseServerConfig example_lib (ceUnmarshal (token_env (replicate 4066 CHR ''a'') 600))
     (configText (token_config (sealed_token (replicate 4066 CHR ''a'')))) = Inl err"
proof -
  let ?v = "replicate 4066 CHR ''a''"
  have plain: "plain_token ?v" by (simp add: plain_token_def hasCRLF_def ContainsAny_def list_ex_iff)
  obtain res cp' where put: "putConfig example_lib (token_env ?v 600) ''192.0.2.1'' ''/api/v1/config'' ''d'' [] newWriter example_control = (res, cp')"
    "ReplaceConfig (configFilePath example_control) (configText (token_config (sealed_token ?v))) \<in> set (crEffects res)"
    "ceUnmarshal (token_env ?v 600) (configText (token_config (sealed_token ?v))) = Inr (clCfg cp')"
    using token_put [OF plain] by blast
  have "ParseServerConfig example_lib (ceUnmarshal (token_env ?v 600)) [] = Inr (token_config ?v)"
    using token_accepted [OF plain] by (simp add: ParseServerConfig_def token_env_def)
  then show ?thesis
    by (rule long_header_unloadable [OF put(1,2) lower_ok_example put(3) gcm_ok_example, where v = ?v and hc = "token_host ?v" and hp = "the (hcHttpProxy (token_host ?v))" and k = "''X-Token''" and name = "''www.a.io''", rotated 2])
      (simp_all add: token_env_def token_config_def token_host_def plain_not_encrypted [OF plain])
qed

definition put_request :: "Header \<Rightarrow> HttpRequest" where
  "put_request hs = \<lparr>hrRemoteAddr = ''192.0.2.1:5000'', hrMethod = ''PUT'', hrHost = ''gate'', hrPath = ''/api/v1/config'', hrRawQuery = [],
     hrRequestURI = ''/api/v1/config'', hrHeader = hs, hrBody = Some (Inr []), hrContentLength = 0\<rparr>"

definition put_headers :: Header where
  "put_headers = [(''X-Api-Key'', [''key'']), (''X-Device-Id'', [''laptop'']), (''X-Pow-Nonce'', [''12345''])]"


theorem nonce_race_witness:
  "case useNonce 8 ''n'' example_control of (r1, cp1) \<Rightarrow> case useNonce 7 ''m'' cp1 of (r2, cp2) \<Rightarrow> case useNonce 8 ''n'' cp2 of (r3, cp3) \<Rightarrow>
    r1 = None \<and> r2 = None \<and> r3 = None"
  using nonce_race [of example_control 7 "''m''" "''n''"]
  by (simp add: example_control_def Subscribe_def NewControlPlane_def Let_def)

theorem config_confidential_witness:
  "fst (controlServe example_lib (token_env ''abc'' 600) (put_request []) (example_control\<lparr>clCfg := token_config ''abc''\<rparr>))
     = fst (controlServe example_lib (token_env ''abc'' 600) (put_request []) example_control)
   \<and> snd (controlServe example_lib (token_env ''abc'' 600) (put_request []) example_control) = example_control"
  by (rule config_confidential) (simp add: put_request_def HeaderGet_def)

end
