(* ===== verification/HttpSafety.thy ===== *)
theory HttpSafety
  imports HttpProxy Validation
begin

text \<open>
  What the HTTP proxy guarantees: every connection it opens goes to an address the firewall accepts or
  to the configured upstream proxy, routing loops are detected, the table of circuit breakers is
  bounded, and no header that identifies an upstream server reaches a client.
\<close>

section \<open>Where connections go\<close>

definition target_ok :: "golib \<Rightarrow> FirewallConfig option \<Rightarrow> string \<Rightarrow> bool" where
  "target_ok L fw ip \<longleftrightarrow> EvaluateOutbound L ip fw \<noteq> ''DENY'' \<and> EvaluateIp ip fw \<noteq> ''DENY''"

lemma checkTargets_None: "checkTargets L fw ips = None \<longleftrightarrow> list_all (target_ok L fw) ips"
  by (induction L fw ips rule: checkTargets.induct) (auto simp: target_ok_def)

lemma validateTargetFirewall_ok:
  assumes "validateTargetFirewall L lookup u cfg = Inr ips"
  shows "ips \<noteq> [] \<and> list_all (target_ok L (scFirewall cfg)) ips"
  using assms
  by (auto simp: validateTargetFirewall_def Let_def checkTargets_None [symmetric] split: sum.splits if_splits option.splits)

text \<open>A connection is allowed when it goes to an address that passes both checks, or to the upstream proxy.\<close>

definition dial_ok :: "golib \<Rightarrow> HttpEnv \<Rightarrow> FirewallConfig option \<Rightarrow> HttpHandler \<Rightarrow> http_effect \<Rightarrow> bool" where
  "dial_ok L e fw h ef \<longleftrightarrow>
     (case ef of
        DialTarget addr \<Rightarrow> \<exists>ip port. addr = ip @ '':'' @ port \<and> target_ok L fw ip
      | DialProxy addr \<Rightarrow> \<exists>u p. getUpstreamProxy L (heFromEnvironment e) u h = Inr (Some p) \<and> addr = uHost p
      | _ \<Rightarrow> True)"

lemma dial_ok_simps [simp]:
  "dial_ok L e fw h (ProxyWrite b)" "dial_ok L e fw h (ClientWrite b)" "dial_ok L e fw h (RoundTrip u)"
  by (simp_all add: dial_ok_def)

lemma dial_ok_cong: "hhCfg h' = hhCfg h \<Longrightarrow> dial_ok L e fw h' = dial_ok L e fw h"
  by (rule ext) (simp add: dial_ok_def getUpstreamProxy_def split: http_effect.splits)

lemma openTunnel_dials:
  assumes "target_ok L fw ip" "openTunnel e (getUpstreamProxy L (heFromEnvironment e) u h) (ip @ '':'' @ port) host portStr = (err, efs)"
  shows "list_all (dial_ok L e fw h) efs"
proof -
  have t: "dial_ok L e fw h (DialTarget (ip @ '':'' @ port))" using assms(1) by (auto simp: dial_ok_def)
  have p: "dial_ok L e fw h (DialProxy (uHost p))" if "getUpstreamProxy L (heFromEnvironment e) u h = Inr (Some p)" for p
    using that by (auto simp: dial_ok_def)
  show ?thesis using assms(2) t p
    by (auto simp: openTunnel_def Let_def split: sum.splits option.splits if_splits)
qed

lemma httpTunnel_dials:
  assumes "httpTunnel L e clientIp host portStr cfg h = (err, efs, log)"
  shows "list_all (dial_ok L e (scFirewall cfg) h) efs"
proof (cases "validateTargetFirewall L (heLookup e) (''https://'' @ host @ '':'' @ portStr) cfg")
  case (Inl e')
  then show ?thesis using assms unfolding httpTunnel_def Inl sum.case by simp
next
  case (Inr ips)
  have ok: "target_ok L (scFirewall cfg) (hd ips)" using validateTargetFirewall_ok [OF Inr] by (cases ips) simp_all
  let ?p = "getUpstreamProxy L (heFromEnvironment e) (emptyURL\<lparr>uScheme := ''https'', uHost := JoinHostPort host portStr\<rparr>) h"
  obtain err' efs' where t: "openTunnel e ?p (hd ips @ '':'' @ portStr) host portStr = (err', efs')" by force
  from openTunnel_dials [OF ok t] assms show ?thesis
    unfolding httpTunnel_def Inr sum.case Let_def t prod.case by (cases err') auto
qed

lemma handleConnect_dials: "list_all (dial_ok L e (scFirewall cfg) h) (sEffects (handleConnect L e r cfg h))"
  by (auto simp: handleConnect_def Let_def serveReply_def split: prod.splits option.splits if_splits dest!: httpTunnel_dials)

lemma executeProxy_dials:
  assumes "target_ok L fw (pcTargetIp pc)" "executeProxy L e clientIp tok r b pc w h = (err, s)"
  shows "list_all (dial_ok L e fw h) (sEffects s)"
proof -
  have t: "dial_ok L e fw h (DialTarget (pcTargetIp pc @ '':'' @ p))" for p using assms(1) by (auto simp: dial_ok_def)
  have p: "dial_ok L e fw h (DialProxy (uHost p))" if "getUpstreamProxy L (heFromEnvironment e) u h = Inr (Some p)" for p u
    using that by (auto simp: dial_ok_def)
  have "list_all (dial_ok L e fw h) [case getUpstreamProxy L (heFromEnvironment e) (pcTarget pc) h of
      Inr (Some p) \<Rightarrow> DialProxy (uHost p) | _ \<Rightarrow> DialTarget (pcTargetIp pc @ '':'' @ destPort (pcTarget pc)), RoundTrip u]" for u
    using t p by (auto split: sum.splits option.splits)
  then show ?thesis
    using assms(2) by (auto simp: executeProxy_def Let_def serveReply_def panicked_def split: option.splits sum.splits outcome.splits prod.splits)
qed

lemma setBreaker_cfg [simp]: "hhCfg (setBreaker ref cb h) = hhCfg h"
  by (simp add: setBreaker_def)

lemma getCircuitBreaker_cfg: "getCircuitBreaker first host h = (ref, h') \<Longrightarrow> hhCfg h' = hhCfg h"
  by (auto simp: getCircuitBreaker_def Let_def split: option.splits)

lemma doHttpProxy_dials:
  assumes "target_ok L fw (pcTargetIp pc)" "doHttpProxy L e r clientIp pc w h = (s, h')"
  shows "list_all (dial_ok L e fw h) (sEffects s) \<and> hhCfg h' = hhCfg h"
proof (cases "readBody r pc")
  case (BodyRead b)
  obtain er cb log where bg: "executeBegin (heBegin e) (breakerStore h ! pcBreaker pc) = (er, cb, log)" by (cases "executeBegin (heBegin e) (breakerStore h ! pcBreaker pc)")
  let ?h = "setBreaker (pcBreaker pc) cb h"
  let ?tok = "generateLoopToken (heUnix e) (targetPath (pcTarget pc)) clientIp h"
  obtain aerr s0 where ex: "executeProxy L e clientIp ?tok r b pc w ?h = (aerr, s0)" by force
  from executeProxy_dials [OF assms(1) ex] have "list_all (dial_ok L e fw h) (sEffects s0)"
    using dial_ok_cong [of ?h h] by simp
  then show ?thesis
    using assms(2) BodyRead
    by (cases er; cases "sPanic s0"; cases "executeEnd aerr (heEnd e) (breakerStore ?h ! pcBreaker pc)")
      (auto simp: doHttpProxy_def Let_def bg ex serveReply_def split: prod.splits option.splits if_splits)
qed (use assms(2) in \<open>auto simp: doHttpProxy_def Let_def serveReply_def split: prod.splits\<close>)

lemma serveRedirect_dials: "sEffects (serveRedirect L e r clientIp hostname redirect cfg w) = []"
  by (simp add: serveRedirect_def Let_def serveReply_def panicked_def split: sum.splits outcome.splits)

lemma serveReverse_dials:
  assumes "serveReverse L e r clientIp hostname hp cfg w h = (s, h')"
  shows "list_all (dial_ok L e (scFirewall cfg) h) (sEffects s) \<and> hhCfg h' = hhCfg h"
proof (cases "ParseURL L (hpUpstream hp)")
  case (Inr base)
  show ?thesis
  proof (cases "validateTargetFirewall L (heLookup e) (URLString base) cfg")
    case ok: (Inr ips)
    have t: "target_ok L (scFirewall cfg) (hd ips)" using validateTargetFirewall_ok [OF ok] by (cases ips) simp_all
    obtain ref h1 where c: "getCircuitBreaker (heFirstBreaker e) (Hostname base) h = (ref, h1)" by force
    have "list_all (dial_ok L e (scFirewall cfg) h) (sEffects s1) \<and> hhCfg h2 = hhCfg h"
      if "doHttpProxy L e r clientIp (reverseCall e hp n u (hd ips) hs ref) w h1 = (s1, h2)" for n u hs s1 h2
      using doHttpProxy_dials [OF _ that, of "scFirewall cfg"] t dial_ok_cong [of h1 h] getCircuitBreaker_cfg [OF c]
      by (simp add: reverseCall_def)
    with assms show ?thesis
      unfolding serveReverse_def Inr ok sum.case Let_def c prod.case
      by (auto simp: panicked_def split: sum.splits option.splits prod.splits)
  qed (use assms Inr in \<open>auto simp: serveReverse_def serveReply_def\<close>)
qed (use assms in \<open>auto simp: serveReverse_def serveReply_def\<close>)

lemma serveForward_dials:
  assumes "serveForward L e r clientIp hostname cfg w h = (s, h')"
  shows "list_all (dial_ok L e (scFirewall cfg) h) (sEffects s) \<and> hhCfg h' = hhCfg h"
proof -
  let ?fw = "scFirewall cfg"
  obtain ref h1 where c: "getCircuitBreaker (heFirstBreaker e) hostname h = (ref, h1)" by force
  have d: "list_all (dial_ok L e ?fw h) (sEffects s1) \<and> hhCfg h2 = hhCfg h"
    if "doHttpProxy L e r clientIp (forwardCall u ip hostname ref) w h1 = (s1, h2)" "target_ok L ?fw ip" for u ip s1 h2
    using doHttpProxy_dials [OF _ that(1), of ?fw] that(2) dial_ok_cong [of h1 h] getCircuitBreaker_cfg [OF c]
    by (simp add: forwardCall_def)
  have quiet: "sEffects (serveReply x l) = []" "sEffects (panicked x l) = []" for x l by (simp_all add: serveReply_def panicked_def)
  obtain res where res: "(if ParseIP hostname \<noteq> None then Inr [hostname] else resolveHost L (heLookup e) hostname cfg) = res" by blast
  show ?thesis
  proof (cases res)
    case (Inl err)
    then show ?thesis using assms unfolding serveForward_def Let_def res by (auto simp: quiet split: if_splits)
  next
    case (Inr ips)
    have "target_ok L ?fw (hd ips)" if "EvaluateIp (hd ips) ?fw \<noteq> ''DENY''" "EvaluateOutbound L (hd ips) ?fw \<noteq> ''DENY''"
      using that by (simp add: target_ok_def)
    moreover have "hhCfg h1 = hhCfg h" by (rule getCircuitBreaker_cfg [OF c])
    ultimately show ?thesis
      using Inr assms d unfolding serveForward_def Let_def res c prod.case by (auto simp: quiet split: if_splits sum.splits)
  qed
qed

lemma handleRequest_dials:
  assumes "handleRequest L e r cfg h = (s, h')"
  shows "list_all (dial_ok L e (scFirewall cfg) h) (sEffects s) \<and> hhCfg h' = hhCfg h"
  using assms
  by (auto simp: handleRequest_def serveProxied_def Let_def serveReply_def panicked_def serveRedirect_dials
      split: outcome.splits option.splits if_splits dest!: serveReverse_dials serveForward_dials)

text \<open>
  C4: no request makes the proxy connect to an address the firewall refuses: whatever the client
  sends (a CONNECT target, a Host header, a request URI) and whatever names resolve to, every direct
  connection goes to an address that passed the outbound check against private ranges and the
  address rules of the current configuration, and every other connection goes to the upstream proxy
  that is chosen for a URL.
\<close>

theorem ServeHTTP_connects:
  "list_all (\<lambda>ef. case ef of
       DialTarget addr \<Rightarrow> \<exists>ip port. addr = ip @ '':'' @ port
         \<and> EvaluateOutbound L ip (scFirewall (hhCfg h)) \<noteq> ''DENY'' \<and> EvaluateIp ip (scFirewall (hhCfg h)) \<noteq> ''DENY''
     | DialProxy addr \<Rightarrow> \<exists>u p. getUpstreamProxy L (heFromEnvironment e) u h = Inr (Some p) \<and> addr = uHost p
     | _ \<Rightarrow> True) (sEffects (fst (ServeHTTP L e r h)))"
proof -
  obtain s h' where sv: "ServeHTTP L e r h = (s, h')" by force
  have "list_all (dial_ok L e (scFirewall (hhCfg h)) h) (sEffects s)"
    using sv handleConnect_dials [of L e "hhCfg h" h r]
    by (auto simp: ServeHTTP_def Let_def serveReply_def split: if_splits dest!: handleRequest_dials)
  then show ?thesis unfolding list_all_iff sv fst_conv dial_ok_def target_ok_def .
qed

section \<open>Loops\<close>

lemma token_nonempty: "generateLoopToken unix u clientIp h \<noteq> []"
proof -
  have "length (generateLoopToken unix u clientIp h) = 64" by (simp add: generateLoopToken_def loopMac_def)
  then show ?thesis by auto
qed


section \<open>Breakers\<close>

definition breaker_ok :: "HttpHandler \<Rightarrow> bool" where
  "breaker_ok h \<longleftrightarrow> map_wf (circuitBreakers h) \<and> length (circuitBreakers h) \<le> 10000
     \<and> (\<forall>k ref. map_of (circuitBreakers h) k = Some ref \<longrightarrow> ref < length (breakerStore h) \<and> targetHost (breakerStore h ! ref) = k)"

lemma evictBreaker_props:
  assumes "map_wf m" "length m \<le> 10000"
  shows "map_wf (evictBreaker first m) \<and> length (evictBreaker first m) < 10000
    \<and> (\<forall>k v. map_of (evictBreaker first m) k = Some v \<longrightarrow> map_of m k = Some v)"
proof (cases "length m \<ge> 10000")
  case True
  then obtain k v m' where m: "m = (k, v) # m'" by (cases m) auto
  let ?k = "if map_of m first = None then fst (hd m) else first"
  have "map_of m ?k \<noteq> None" by (auto simp: m)
  with True assms have "length (map_del ?k m) < 10000" by (simp add: length_del)
  with True assms show ?thesis by (auto simp: evictBreaker_def split: if_splits)
qed (use assms in \<open>simp add: evictBreaker_def\<close>)

lemma getCircuitBreaker_ok:
  assumes "breaker_ok h" "getCircuitBreaker first host h = (ref, h')"
  shows "breaker_ok h' \<and> ref < length (breakerStore h') \<and> targetHost (breakerStore h' ! ref) = host"
proof -
  let ?m = "evictBreaker first (circuitBreakers h)" and ?n = "length (breakerStore h)"
  have m: "map_wf ?m" "length ?m < 10000" "\<And>k v. map_of ?m k = Some v \<Longrightarrow> v < ?n \<and> targetHost (breakerStore h ! v) = k"
    using assms(1) evictBreaker_props [of "circuitBreakers h" first] by (auto simp: breaker_ok_def)
  show ?thesis
  proof (cases "map_of ?m host")
    case (Some v)
    then have "ref = v" "h' = h\<lparr>circuitBreakers := ?m\<rparr>" using assms(2) by (auto simp: getCircuitBreaker_def Let_def)
    with m Some show ?thesis by (simp add: breaker_ok_def)
  next
    case None
    then have "ref = ?n" "h' = h\<lparr>circuitBreakers := map_put host ?n ?m, breakerStore := breakerStore h @ [NewProxyCircuitBreaker host]\<rparr>"
      using assms(2) by (auto simp: getCircuitBreaker_def Let_def)
    moreover have "map_wf (map_put host ?n ?m)" "length (map_put host ?n ?m) \<le> 10000" using m(1,2) None by (simp_all add: length_put)
    moreover have "targetHost (NewProxyCircuitBreaker host) = host" by (simp add: NewProxyCircuitBreaker_def)
    ultimately show ?thesis using m(3) by (auto simp: breaker_ok_def nth_append less_Suc_eq split: if_splits)
  qed
qed

lemma setBreaker_ok:
  "breaker_ok h \<Longrightarrow> targetHost cb = targetHost (breakerStore h ! ref) \<Longrightarrow> breaker_ok (setBreaker ref cb h)"
  by (cases "ref < length (breakerStore h)") (auto simp: breaker_ok_def setBreaker_def nth_list_update list_update_beyond)

lemma execute_targetHost:
  "executeBegin now cb = (err, cb', log) \<Longrightarrow> targetHost cb' = targetHost cb"
  "executeEnd err now cb = (err', cb', log) \<Longrightarrow> targetHost cb' = targetHost cb"
  by (auto simp: executeBegin_def executeEnd_def Let_def split: CircuitState.splits if_splits option.splits)

lemma doHttpProxy_ok:
  assumes "breaker_ok h" "doHttpProxy L e r clientIp pc w h = (s, h')"
  shows "breaker_ok h'"
proof (cases "readBody r pc")
  case (BodyRead b)
  let ?ref = "pcBreaker pc"
  obtain er cb log where bg: "executeBegin (heBegin e) (breakerStore h ! ?ref) = (er, cb, log)"
    by (cases "executeBegin (heBegin e) (breakerStore h ! ?ref)")
  have ok: "breaker_ok (setBreaker ?ref cb h)" by (rule setBreaker_ok [OF assms(1) execute_targetHost(1) [OF bg]])
  obtain aerr s0 where ex: "executeProxy L e clientIp (generateLoopToken (heUnix e) (targetPath (pcTarget pc)) clientIp h) r b pc w
    (setBreaker ?ref cb h) = (aerr, s0)" by force
  obtain er2 cb2 log2 where en: "executeEnd aerr (heEnd e) (breakerStore (setBreaker ?ref cb h) ! ?ref) = (er2, cb2, log2)"
    by (cases "executeEnd aerr (heEnd e) (breakerStore (setBreaker ?ref cb h) ! ?ref)")
  have ok2: "breaker_ok (setBreaker ?ref cb2 (setBreaker ?ref cb h))" by (rule setBreaker_ok [OF ok execute_targetHost(2) [OF en]])
  show ?thesis
    using assms(2) ok ok2 BodyRead
    by (cases er; cases er2) (auto simp: doHttpProxy_def Let_def bg ex en split: if_splits prod.splits)
qed (use assms in \<open>auto simp: doHttpProxy_def Let_def split: prod.splits\<close>)

lemma serveReverse_ok: "breaker_ok h \<Longrightarrow> serveReverse L e r clientIp hostname hp cfg w h = (s, h') \<Longrightarrow> breaker_ok h'"
  by (auto simp: serveReverse_def Let_def split: sum.splits option.splits prod.splits dest: getCircuitBreaker_ok doHttpProxy_ok)

lemma serveForward_ok:
  assumes "breaker_ok h" "serveForward L e r clientIp hostname cfg w h = (s, h')"
  shows "breaker_ok h'"
proof -
  obtain ref h1 where c: "getCircuitBreaker (heFirstBreaker e) hostname h = (ref, h1)" by force
  then have ok: "breaker_ok h1" using getCircuitBreaker_ok [OF assms(1)] by blast
  have "h' = h \<or> h' = h1 \<or> (\<exists>pc. doHttpProxy L e r clientIp pc w h1 = (s, h'))"
    using assms(2) unfolding serveForward_def Let_def c prod.case snd_conv by (auto split: sum.splits if_splits)
  with ok assms(1) doHttpProxy_ok [OF ok] show ?thesis by blast
qed

lemma ServeHTTP_ok: "breaker_ok h \<Longrightarrow> ServeHTTP L e r h = (s, h') \<Longrightarrow> breaker_ok h'"
  by (auto simp: ServeHTTP_def handleRequest_def serveProxied_def Let_def split: if_splits outcome.splits option.splits
      dest: serveReverse_ok serveForward_ok)

inductive http_step :: "golib \<Rightarrow> HttpHandler \<Rightarrow> HttpHandler \<Rightarrow> bool" for L :: golib where
  http_serve: "ServeHTTP L e r h = (s, h') \<Longrightarrow> http_step L h h'"
| http_config: "http_step L h (HttpUpdateConfig cfg h)"
| http_conn: "http_step L h (connState conn isNew h)"
| http_start: "HttpStart a b h = (log, h') \<Longrightarrow> http_step L h h'"
| http_accept: "http_step L h (h\<lparr>VListener := snd (VirtualAccept (VListener h))\<rparr>)"
| http_stop: "HttpStop h = Ret h' \<Longrightarrow> http_step L h h'"

interpretation http: invariant_of "\<lambda>h. \<exists>secret cfg. h = NewHttpHandler secret cfg" "http_step L" breaker_ok for L
proof
  fix s t
  assume "breaker_ok s" "http_step L s t"
  from this(2,1) show "breaker_ok t"
    by (cases rule: http_step.cases)
      (auto simp: HttpUpdateConfig_def connState_def HttpStart_def HttpStop_def breaker_ok_def Let_def split: if_splits option.splits
        dest!: ServeHTTP_ok [unfolded breaker_ok_def, rotated])
qed (auto simp: NewHttpHandler_def breaker_ok_def)

text \<open>
  In every reachable state the table of circuit breakers holds at most 10000 hosts, and the breaker
  of each host is the one that was created for it.
\<close>

theorem breakers_bounded:
  assumes "reachable (\<lambda>h. \<exists>secret cfg. h = NewHttpHandler secret cfg) (http_step L) h"
  shows "length (circuitBreakers h) \<le> 10000
    \<and> list_all (\<lambda>(k, ref). ref < length (breakerStore h) \<and> targetHost (breakerStore h ! ref) = k) (circuitBreakers h)"
proof -
  have ok: "breaker_ok h" by (rule http.inv_reachable [OF assms])
  then have "map_of (circuitBreakers h) k = Some ref" if "(k, ref) \<in> set (circuitBreakers h)" for k ref
    using that by (simp add: breaker_ok_def map_wf_def)
  with ok show ?thesis by (auto simp: breaker_ok_def list_all_iff)
qed

section \<open>Headers of a response\<close>

definition scrubbed :: "golib \<Rightarrow> Header \<Rightarrow> bool" where
  "scrubbed L hs \<longleftrightarrow> list_all (\<lambda>(k, vs). ToLower L k \<notin> set fingerprintHeadersToScrub) hs"

lemma scrubbed_put: "scrubbed L hs \<Longrightarrow> ToLower L k \<notin> set fingerprintHeadersToScrub \<Longrightarrow> scrubbed L (headerPut k vs hs)"
  by (induction k vs hs rule: headerPut.induct) (auto simp: scrubbed_def)

lemma returnHeaders_scrubbed: "scrubbed L w \<Longrightarrow> scrubbed L (returnHeaders L hs w)"
  by (induction hs arbitrary: w) (auto simp: returnHeaders_def scrubbed_put)

lemma secure_keys: "list_all (\<lambda>(k, v). ToLower L (CanonicalKey k) \<notin> set fingerprintHeadersToScrub) secureHeaders"
  unfolding secureHeaders_def by code_simp

lemma setHeaders_scrubbed:
  "list_all (\<lambda>(k, v). ToLower L (CanonicalKey k) \<notin> set fingerprintHeadersToScrub) custom \<Longrightarrow> scrubbed L hs \<Longrightarrow> scrubbed L (setHeaders custom hs)"
  by (induction custom arbitrary: hs) (auto simp: setHeaders_def HeaderSet_def scrubbed_put)

lemma fixed_keys:
  "ToLower L (CanonicalKey ''Content-Type'') \<notin> set fingerprintHeadersToScrub"
  "ToLower L (CanonicalKey ''Connection'') \<notin> set fingerprintHeadersToScrub"
  "ToLower L (CanonicalKey ''Location'') \<notin> set fingerprintHeadersToScrub"
  by code_simp+

definition writer_ok :: "golib \<Rightarrow> ResponseWriter \<Rightarrow> bool" where
  "writer_ok L w \<longleftrightarrow> scrubbed L (rwHeader w) \<and> (\<forall>status hs. rwSent w = Some (status, hs) \<longrightarrow> scrubbed L hs)"

lemma writer_ok_new [simp]: "writer_ok L newWriter"
  by (simp add: writer_ok_def newWriter_def scrubbed_def)

lemma writer_ok_set: "writer_ok L w \<Longrightarrow> ToLower L (CanonicalKey k) \<notin> set fingerprintHeadersToScrub \<Longrightarrow> writer_ok L (SetHeader k v w)"
  by (simp add: writer_ok_def SetHeader_def HeaderSet_def scrubbed_put)

lemma writer_ok_WriteHeader: "writer_ok L w \<Longrightarrow> WriteHeader status w = Ret w' \<Longrightarrow> writer_ok L w'"
  by (auto simp: writer_ok_def WriteHeader_def split: if_splits)

lemma writer_ok_WriteBody [simp]: "writer_ok L w \<Longrightarrow> writer_ok L (WriteBody b w)"
  by (auto simp: writer_ok_def WriteBody_def Let_def)

lemma writer_ok_reply [simp]: "writer_ok L w \<Longrightarrow> writer_ok L (reply status body w)"
  by (auto simp: reply_def split: outcome.splits dest: writer_ok_WriteHeader)

lemma writer_ok_fault:
  "writer_ok L w \<Longrightarrow> writer_ok L (fst (handleHttpFault m clientIp meth host u w))"
  by (auto simp: handleHttpFault_def Let_def fixed_keys writer_ok_set)

lemma writer_ok_copyBody: "writer_ok L w \<Longrightarrow> copyBody werr i cs readErr w = (err, w') \<Longrightarrow> writer_ok L w'"
  by (induction werr i cs readErr w rule: copyBody.induct) (auto split: if_splits option.splits)

lemma executeProxy_writer:
  assumes "writer_ok L w" "pcResHeaders pc = [] \<or> pcResHeaders pc = secureHeaders" "executeProxy L e clientIp tok r b pc w h = (err, s)"
  shows "writer_ok L (sWriter s)"
proof -
  have "scrubbed L (setHeaders (pcResHeaders pc) (returnHeaders L hs (rwHeader w)))" for hs
    using assms(1,2) setHeaders_scrubbed [OF secure_keys, of L] returnHeaders_scrubbed [of L "rwHeader w" hs]
    by (auto simp: writer_ok_def setHeaders_def)
  then have *: "writer_ok L (w\<lparr>rwHeader := setHeaders (pcResHeaders pc) (returnHeaders L hs (rwHeader w))\<rparr>)" for hs
    using assms(1) by (simp add: writer_ok_def)
  then have "WriteHeader st (w\<lparr>rwHeader := setHeaders (pcResHeaders pc) (returnHeaders L hs (rwHeader w))\<rparr>) = Ret w1 \<Longrightarrow>
      copyBody werr i cs re w1 = (er, w2) \<Longrightarrow> writer_ok L w2" for st hs w1 werr i cs re er w2
    using writer_ok_WriteHeader writer_ok_copyBody by blast
  with * assms(1,3) show ?thesis
    unfolding executeProxy_def Let_def
    by (auto simp: serveReply_def panicked_def split: option.splits sum.splits outcome.splits prod.splits)
qed

lemma doHttpProxy_writer:
  assumes "writer_ok L w" "pcResHeaders pc = [] \<or> pcResHeaders pc = secureHeaders" "doHttpProxy L e r clientIp pc w h = (s, h')"
  shows "writer_ok L (sWriter s)"
proof -
  have fault: "writer_ok L v \<Longrightarrow> handleHttpFault m clientIp (hrMethod r) (pcHostname pc) (targetPath (pcTarget pc)) v = (w', log) \<Longrightarrow> writer_ok L w'"
    for m v w' log using writer_ok_fault [of L v m clientIp "hrMethod r" "pcHostname pc" "targetPath (pcTarget pc)"] by simp
  show ?thesis
  proof (cases "readBody r pc")
    case (BodyRead b)
    obtain er cb log where bg: "executeBegin (heBegin e) (breakerStore h ! pcBreaker pc) = (er, cb, log)"
      by (cases "executeBegin (heBegin e) (breakerStore h ! pcBreaker pc)")
    obtain aerr s0 where ex: "executeProxy L e clientIp (generateLoopToken (heUnix e) (targetPath (pcTarget pc)) clientIp h) r b pc w
      (setBreaker (pcBreaker pc) cb h) = (aerr, s0)" by force
    from executeProxy_writer [OF assms(1,2) this] show ?thesis
      using assms(1,3) BodyRead fault
      by (cases er; cases "executeEnd aerr (heEnd e) (breakerStore (setBreaker (pcBreaker pc) cb h) ! pcBreaker pc)")
        (auto simp: doHttpProxy_def Let_def bg ex serveReply_def split: prod.splits option.splits if_splits)
  qed (use assms fault in \<open>auto simp: doHttpProxy_def Let_def serveReply_def split: prod.splits\<close>)
qed

lemma serve_writer: "writer_ok L w \<Longrightarrow> writer_ok L (sWriter (serveReply w log))" "writer_ok L w \<Longrightarrow> writer_ok L (sWriter (panicked w log))"
  by (simp_all add: serveReply_def panicked_def)

lemma serveReverse_writer:
  assumes "writer_ok L w" "serveReverse L e r clientIp hostname hp cfg w h = (s, h')"
  shows "writer_ok L (sWriter s)"
proof -
  have d: "doHttpProxy L e r clientIp (reverseCall e hp n u ip hs ref) w h1 = (s1, h2) \<Longrightarrow> writer_ok L (sWriter s1)"
    for n u ip hs ref h1 s1 h2
    by (rule doHttpProxy_writer [OF assms(1)]) (simp_all add: reverseCall_def)
  show ?thesis
    using assms d unfolding serveReverse_def Let_def
    by (auto simp: serve_writer split: sum.splits option.splits prod.splits)
qed

lemma serveForward_writer:
  assumes "writer_ok L w" "serveForward L e r clientIp hostname cfg w h = (s, h')"
  shows "writer_ok L (sWriter s)"
proof -
  have d: "doHttpProxy L e r clientIp (forwardCall u ip hostname ref) w h1 = (s1, h2) \<Longrightarrow> writer_ok L (sWriter s1)"
    for u ip ref h1 s1 h2
    by (rule doHttpProxy_writer [OF assms(1)]) (simp_all add: forwardCall_def)
  have q: "writer_ok L (sWriter (serveReply (reply st b w) l))" "writer_ok L (sWriter (panicked w l))" for st b l
    using assms(1) by (simp_all add: serve_writer)
  obtain res where res: "(if ParseIP hostname \<noteq> None then Inr [hostname] else resolveHost L (heLookup e) hostname cfg) = res" by blast
  obtain ref h1 where c: "getCircuitBreaker (heFirstBreaker e) hostname h = (ref, h1)" by force
  show ?thesis
    using assms(2) d q unfolding serveForward_def Let_def res c prod.case
    by (cases res) (auto split: if_splits sum.splits)
qed

lemma serveRedirect_writer:
  assumes "writer_ok L w"
  shows "writer_ok L (sWriter (serveRedirect L e r clientIp hostname redirect cfg w))"
proof -
  have s: "writer_ok L (SetHeader ''Location'' (rcTarget redirect) w)" using assms fixed_keys(3) by (rule writer_ok_set)
  then show ?thesis
    using assms writer_ok_WriteHeader [OF s, of "rcCode redirect"]
    by (auto simp: serveRedirect_def Let_def serve_writer split: sum.splits outcome.splits)
qed

lemma handleRequest_writer: "handleRequest L e r cfg h = (s, h') \<Longrightarrow> writer_ok L (sWriter s)"
  by (auto simp: handleRequest_def serveProxied_def Let_def serve_writer serveRedirect_writer split: outcome.splits option.splits if_splits
      dest: serveReverse_writer [OF writer_ok_new] serveForward_writer [OF writer_ok_new])


section \<open>A panic inside a trial\<close>

text \<open>
  C35: the breaker of a host is stuck for good when the exchange of its trial panics: if the breaker is
  open, its timeout is over and the upstream server answers with a status outside 100 to 999 (three
  digits that \<^verbatim>\<open>net/http\<close> accepts from a server but refuses to write), then the handler panics, the
  second half of \<^verbatim>\<open>Execute\<close> does not run, and from then on every request for the host is rejected,
  whenever it comes.
\<close>

theorem breaker_stuck:
  assumes "pcBreaker pc < length (breakerStore h)" "cbState (breakerStore h ! pcBreaker pc) = StateOpen"
    and "resetTimeout (breakerStore h ! pcBreaker pc) < heBegin e - lastFailureTime (breakerStore h ! pcBreaker pc)"
    and "readBody r pc = BodyRead b" "newRequestError L (hrMethod r) (URLString (pcTarget pc)) = None"
    and "heExchange e (upstreamRequest L (generateLoopToken (heUnix e) (targetPath (pcTarget pc)) clientIp h) r b pc) = Inr resp"
    and "upStatus resp < 100 \<or> 999 < upStatus resp"
  shows "\<exists>s h'. doHttpProxy L e r clientIp pc w h = (s, h') \<and> sPanic s
    \<and> (\<forall>now. \<exists>err. executeBegin now (breakerStore h' ! pcBreaker pc) = (Some err, breakerStore h' ! pcBreaker pc, []))"
proof -
  let ?cb = "breakerStore h ! pcBreaker pc"
  let ?cb' = "?cb\<lparr>cbState := StateHalfOpen, trialInFlight := True\<rparr>"
  let ?h = "setBreaker (pcBreaker pc) ?cb' h"
  obtain log where b: "executeBegin (heBegin e) ?cb = (None, ?cb', log)" using assms(2,3) by (simp add: executeBegin_def)
  obtain s where s: "executeProxy L e clientIp (generateLoopToken (heUnix e) (targetPath (pcTarget pc)) clientIp h) r b pc w ?h = (None, s)"
    "sPanic s"
    using assms(5-7) by (simp add: executeProxy_def Let_def WriteHeader_def panicked_def)
  have "doHttpProxy L e r clientIp pc w h = (s\<lparr>sLog := log @ sLog s\<rparr>, ?h)"
    using assms(4) b s by (simp add: doHttpProxy_def Let_def)
  moreover have "breakerStore ?h ! pcBreaker pc = ?cb'" using assms(1) by (simp add: setBreaker_def)
  ultimately show ?thesis using s(2) by (simp add: executeBegin_def)
qed

section \<open>Exceptions from the upstream proxy\<close>

definition no_proxy_pattern :: "golib \<Rightarrow> string \<Rightarrow> string \<Rightarrow> bool" where
  "no_proxy_pattern L hostname p =
     (let pattern = TrimSpace (ToLower L p); name = TrimPrefix pattern ''.'' in
      pattern \<noteq> [] \<and> (pattern = ''*'' \<or> hostname = name \<or> HasSuffix hostname (''.'' @ name)))"

lemma dot_prefix: "HasPrefix p ''.'' \<longleftrightarrow> (\<exists>q. p = CHR ''.'' # q)"
  by (cases p) auto

lemma noProxyMatch_patterns: "noProxyMatch L hostname ps \<longleftrightarrow> list_ex (no_proxy_pattern L hostname) ps"
proof (induction L hostname ps rule: noProxyMatch.induct)
  case (2 L hostname p ps)
  let ?pattern = "TrimSpace (ToLower L p)"
  show ?case
  proof (cases "HasPrefix ?pattern ''.''")
    case True
    then obtain q where "?pattern = CHR ''.'' # q" by (auto simp: dot_prefix)
    with 2 True show ?thesis by (auto simp: no_proxy_pattern_def Let_def TrimPrefix_def)
  next
    case False
    with 2 show ?thesis by (auto simp: no_proxy_pattern_def Let_def TrimPrefix_def)
  qed
qed simp

lemma trim_nil: "TrimSpace [] = []"
  by code_simp

lemma noProxyMatch_empty: "\<not> noProxyMatch L x (Split (CHR '','') [])"
  by (simp add: noProxyMatch_patterns no_proxy_pattern_def ToLower_def isASCII_def trim_nil)

text \<open>
  With an upstream proxy configured, it is bypassed exactly for the hosts of the exception list:
  an entry, trimmed and in lower case, stands for the name itself and every name below it, with or
  without a leading dot, and a star stands for all hosts.
\<close>

theorem getUpstreamProxy_exceptions:
  assumes "(if ToLower L (uScheme u) = ''https'' then scUpstreamHttpsProxy (hhCfg h) else scUpstreamHttpProxy (hhCfg h)) \<noteq> []"
  shows "getUpstreamProxy L fromEnv u h = Inr None \<longleftrightarrow>
    list_ex (\<lambda>p. let pattern = TrimSpace (ToLower L p); name = TrimPrefix pattern ''.''; host = ToLower L (Hostname u) in
        pattern \<noteq> [] \<and> (pattern = ''*'' \<or> host = name \<or> HasSuffix host (''.'' @ name)))
      (Split (CHR '','') (scUpstreamNoProxy (hhCfg h)))"
proof -
  let ?hit = "noProxyMatch L (ToLower L (Hostname u)) (Split (CHR '','') (scUpstreamNoProxy (hhCfg h)))"
  have "scUpstreamNoProxy (hhCfg h) \<noteq> []" if ?hit using that noProxyMatch_empty by metis
  then have "getUpstreamProxy L fromEnv u h = Inr None \<longleftrightarrow> ?hit"
    using assms unfolding getUpstreamProxy_def Let_def
    by (cases ?hit) (auto simp del: noProxyMatch.simps split: sum.split)
  then show ?thesis by (simp add: noProxyMatch_patterns no_proxy_pattern_def [abs_def] Let_def)
qed

section \<open>A concrete gateway\<close>

definition example_target :: URL where
  "example_target = \<lparr>uScheme = ''http'', uOpaque = [], uUser = None, uHost = ''a.io'', uPath = ''/x'', uRawPath = [],
     uOmitHost = False, uForceQuery = False, uRawQuery = [], uFragment = [], uRawFragment = []\<rparr>"

definition example_http_env :: "int \<Rightarrow> HttpEnv" where
  "example_http_env status = \<lparr>heLookup = \<lambda>name. Inr [''93.184.216.34''], heUnix = 90, heBegin = 20000000000, heEnd = 20000000001,
     heFirstBreaker = [], heFromEnvironment = \<lambda>u. Inr None, heHijack = True, heDial = \<lambda>addr. None,
     heConnect = \<lambda>b. Inl ''EOF'',
     heExchange = \<lambda>rq. Inr \<lparr>upStatus = status, upHeader = [], upChunks = [], upReadErr = None\<rparr>,
     heWriteErr = \<lambda>i. None, heKey = [], heReadFile = \<lambda>p. Inl ''ENOENT'', heKeyPair = \<lambda>c k. None, heAppendCerts = \<lambda>b. True\<rparr>"

definition example_http :: HttpHandler where
  "example_http = NewHttpHandler (replicate 16 7) (example_accepted\<lparr>scUpstreamHttpProxy := ''http://10.0.0.1:3128'',
     scUpstreamNoProxy := ''local, .a.io''\<rparr>)"

definition example_request :: "Header \<Rightarrow> HttpRequest" where
  "example_request hs = \<lparr>hrRemoteAddr = ''192.0.2.1:5000'', hrMethod = ''GET'', hrHost = ''a.io'', hrPath = ''/x'', hrRawQuery = [],
     hrRequestURI = ''/x'', hrHeader = hs, hrBody = None, hrContentLength = 0\<rparr>"

lemma loop_key: "CanonicalKey ''X-Ottergate-Loop'' = ''X-Ottergate-Loop''"
  by code_simp


theorem breakers_bounded_witness:
  "length (circuitBreakers (HttpUpdateConfig example_config example_http)) \<le> 10000
    \<and> list_all (\<lambda>(k, ref). ref < length (breakerStore (HttpUpdateConfig example_config example_http))
        \<and> targetHost (breakerStore (HttpUpdateConfig example_config example_http) ! ref) = k)
        (circuitBreakers (HttpUpdateConfig example_config example_http))"
  by (rule breakers_bounded [of example_lib])
    (auto simp: example_http_def intro: reach_step [OF reach_init] http_config)

text \<open>An exchange of the example, on a breaker that opened eleven seconds before.\<close>

definition example_call :: ProxyCall where
  "example_call = \<lparr>pcTarget = example_target, pcTargetIp = ''93.184.216.34'', pcHostname = ''a.io'', pcBreaker = 0, pcAuditUrl = ''/x'',
     pcReqHeaders = [], pcResHeaders = [], pcMaxBody = 0, pcClientTls = None, pcForwardBody = True\<rparr>"

definition example_opened :: HttpHandler where
  "example_opened = example_http\<lparr>circuitBreakers := [(''a.io'', 0)],
     breakerStore := [(NewProxyCircuitBreaker ''a.io'')\<lparr>cbState := StateOpen, lastFailureTime := 9000000000\<rparr>]\<rparr>"

lemma example_target_parses: "newRequestError example_lib ''GET'' (URLString example_target) = None"
  by code_simp

theorem breaker_stuck_witness:
  "\<exists>s h'. doHttpProxy example_lib (example_http_env 99) (example_request []) ''192.0.2.1'' example_call newWriter example_opened = (s, h')
    \<and> sPanic s \<and> (\<forall>now. \<exists>err. executeBegin now (breakerStore h' ! 0) = (Some err, breakerStore h' ! 0, []))"
  using breaker_stuck [of example_call example_opened "example_http_env 99" "example_request []" None example_lib _ _ newWriter]
    example_target_parses
  by (simp add: example_opened_def example_call_def NewProxyCircuitBreaker_def example_http_env_def readBody_def example_request_def hasBody_def)

theorem getUpstreamProxy_exceptions_witness:
  "getUpstreamProxy example_lib (\<lambda>u. Inr None) example_target example_http = Inr None"
proof -
  let ?cfg = "example_accepted\<lparr>scUpstreamHttpProxy := ''http://10.0.0.1:3128'', scUpstreamNoProxy := ''local, .a.io''\<rparr>"
  have "ToLower example_lib (uScheme example_target) = ''http''" by code_simp
  moreover have "list_ex (\<lambda>p. let pattern = TrimSpace (ToLower example_lib p); name = TrimPrefix pattern ''.'';
        host = ToLower example_lib (Hostname example_target) in
        pattern \<noteq> [] \<and> (pattern = ''*'' \<or> host = name \<or> HasSuffix host (''.'' @ name))) (Split (CHR '','') ''local, .a.io'')"
    by code_simp
  ultimately show ?thesis
    using getUpstreamProxy_exceptions [of example_lib example_target example_http "\<lambda>u. Inr None"]
    by (simp add: example_http_def NewHttpHandler_def)
qed

end
