(* ===== verification/Sni.thy ===== *)
theory Sni
  imports HttpSafety
begin

text \<open>
  The TLS proxy, \<^verbatim>\<open>src/pkg/proxy/sni.go\<close>: reading the server name out of a ClientHello, the lookup
  of its host, the firewall checks, the tunnel to the target and the handover of a connection to the
  HTTP proxy.  As in the HTTP proxy, connections, files, the clock and name resolution are arguments,
  and what the service does to them is a list of effects.

  The second part shows that the parser never panics and gives back the name of an encoded
  ClientHello, that only checked addresses are connected to, that the first bytes of the client reach
  the server (or the HTTP proxy) unchanged, and that a name with line breaks ends up as further header
  lines in the request to the upstream proxy.
\<close>

section \<open>State\<close>

definition MaxClientHelloSize :: nat where
  "MaxClientHelloSize = 16384"

definition MaxTlsExtensions :: nat where
  "MaxTlsExtensions = 50"

text \<open>A connection with bytes to deliver first; \<open>pxConn\<close> is what is still to come on the socket.\<close>

record PrefixConn =
  pxConn :: bytes
  Prefix :: bytes

text \<open>One read into a buffer of \<open>n\<close> bytes, where the socket delivers at most \<open>avail\<close> bytes at once.\<close>

definition PrefixRead :: "nat \<Rightarrow> nat \<Rightarrow> PrefixConn \<Rightarrow> bytes \<times> PrefixConn" where
  "PrefixRead avail n p =
     (if Prefix p \<noteq> [] then (take n (Prefix p), p\<lparr>Prefix := drop n (Prefix p)\<rparr>)
      else (take (min avail n) (pxConn p), p\<lparr>pxConn := drop (min avail n) (pxConn p)\<rparr>))"

record SniProxyService =
  spCfg :: ServerConfig
  spPort :: int
  spIdleTimeout :: int
  spListener :: bool
  activeConnections :: "nat list"
  spStop :: bool

definition NewSniProxyService :: "ServerConfig \<Rightarrow> SniProxyService" where
  "NewSniProxyService cfg =
     \<lparr>spCfg = cfg, spPort = (case scHttpsPort cfg of None \<Rightarrow> 443 | Some p \<Rightarrow> p),
      spIdleTimeout = (if scTcpIdleTimeoutMs cfg > 0 then scTcpIdleTimeoutMs cfg * 1000000 else 30 * 1000000000),
      spListener = False, activeConnections = [], spStop = False\<rparr>"

definition SniUpdateConfig :: "ServerConfig \<Rightarrow> SniProxyService \<Rightarrow> SniProxyService" where
  "SniUpdateConfig newCfg s =
     (let s = s\<lparr>spCfg := newCfg\<rparr>;
          s = (case scHttpsPort newCfg of None \<Rightarrow> s | Some p \<Rightarrow> s\<lparr>spPort := p\<rparr>)
      in if scTcpIdleTimeoutMs newCfg > 0 then s\<lparr>spIdleTimeout := scTcpIdleTimeoutMs newCfg * 1000000\<rparr> else s)"

definition SniStart :: "string option \<Rightarrow> SniProxyService \<Rightarrow> string option \<times> SniProxyService" where
  "SniStart listenErr s = (case listenErr of Some err \<Rightarrow> (Some err, s) | None \<Rightarrow> (None, s\<lparr>spListener := True\<rparr>))"

text \<open>The connections that a stop closes stay in the map until their handlers return.\<close>

definition SniStop :: "SniProxyService \<Rightarrow> (nat list \<times> SniProxyService) outcome" where
  "SniStop s = (if spStop s then Panic else Ret (activeConnections s, s\<lparr>spStop := True, spListener := False\<rparr>))"

text \<open>One turn of \<^verbatim>\<open>acceptLoop\<close>: an error ends the loop (none) only after the stop.\<close>

definition acceptTurn :: "string + nat \<Rightarrow> SniProxyService \<Rightarrow> SniProxyService option" where
  "acceptTurn r s =
     (case r of
        Inl _ \<Rightarrow> if spStop s then None else Some s
      | Inr conn \<Rightarrow> Some (s\<lparr>activeConnections := List.insert conn (activeConnections s)\<rparr>))"

section \<open>The server name of a ClientHello\<close>

text \<open>Reads of a slice, which panic out of range.\<close>

definition byteAt :: "bytes \<Rightarrow> nat \<Rightarrow> nat outcome" where
  "byteAt data i = (if i < length data then Ret (unat (data ! i)) else Panic)"

definition uint16At :: "bytes \<Rightarrow> nat \<Rightarrow> nat outcome" where
  "uint16At data i = (if i + 2 \<le> length data then Ret (unat (get16 data i)) else Panic)"

definition sliceAt :: "bytes \<Rightarrow> nat \<Rightarrow> nat \<Rightarrow> bytes outcome" where
  "sliceAt data i j = (if i \<le> j \<and> j \<le> length data then Ret (take (j - i) (drop i data)) else Panic)"

definition outOfBounds :: string where
  "outOfBounds = ''TLS ClientHello out of bounds''"

definition sniOutOfBounds :: string where
  "sniOutOfBounds = ''SNI extension out of bounds''"

text \<open>The body of a server name extension: no result for another type of name.\<close>

definition serverName :: "bytes \<Rightarrow> nat \<Rightarrow> nat \<Rightarrow> (string + string) option outcome" where
  "serverName data sniOffset extEnd =
     (if sniOffset + 2 > extEnd then Ret (Some (Inl sniOutOfBounds))
      else (let sniOffset = sniOffset + 2 in
        if sniOffset + 1 > extEnd then Ret (Some (Inl sniOutOfBounds))
        else (case byteAt data sniOffset of
          Panic \<Rightarrow> Panic
        | Ret nameType \<Rightarrow>
            if nameType \<noteq> 0 then Ret None
            else (let sniOffset = sniOffset + 1 in
              if sniOffset + 2 > extEnd then Ret (Some (Inl sniOutOfBounds))
              else (case uint16At data sniOffset of
                Panic \<Rightarrow> Panic
              | Ret nameLength \<Rightarrow>
                 (let sniOffset = sniOffset + 2 in
                  if sniOffset + nameLength > extEnd then Ret (Some (Inl sniOutOfBounds))
                  else (case sliceAt data sniOffset (sniOffset + nameLength) of
                    Panic \<Rightarrow> Panic
                  | Ret name \<Rightarrow> Ret (Some (Inr (string_of name))))))))))"

function extensionLoop :: "bytes \<Rightarrow> nat \<Rightarrow> nat \<Rightarrow> nat \<Rightarrow> (string + string) outcome" where
  "extensionLoop data extensionsEnd extCount offset =
     (if offset < extensionsEnd \<and> offset + 4 \<le> length data then
        (if extCount > MaxTlsExtensions then
           Ret (Inl ''SNI Parser bounded due to MAX_TLS_EXTENSIONS boundary hit'')
         else case (uint16At data offset, uint16At data (offset + 2)) of
           (Ret extType, Ret extLength) \<Rightarrow>
             (let offset = offset + 4 in
              if extType = 0 then
                (let extEnd = offset + extLength in
                 if extEnd > extensionsEnd \<or> extEnd > length data then Ret (Inl sniOutOfBounds)
                 else case serverName data offset extEnd of
                   Panic \<Rightarrow> Panic
                 | Ret (Some r) \<Rightarrow> Ret r
                 | Ret None \<Rightarrow> extensionLoop data extensionsEnd (extCount + 1) (offset + extLength))
              else extensionLoop data extensionsEnd (extCount + 1) (offset + extLength))
         | _ \<Rightarrow> Panic)
      else Ret (Inl ''no SNI extension found''))"
  by pat_completeness auto
termination
  by (relation "measure (\<lambda>(data, extensionsEnd, extCount, offset). extensionsEnd - offset)") auto

declare extensionLoop.simps [simp del]

definition extractSNI :: "bytes \<Rightarrow> (string + string) outcome" where
  "extractSNI data =
     (if length data < 6 \<or> data ! 0 \<noteq> 0x16 \<or> data ! 5 \<noteq> 0x01 then Ret (Inl ''not a TLS ClientHello'')
      else if 43 \<ge> length data then Ret (Inl outOfBounds)
      else case byteAt data 43 of
        Panic \<Rightarrow> Panic
      | Ret sessionIdLength \<Rightarrow>
         (let offset = 43 + 1 + sessionIdLength in
          if offset \<ge> length data then Ret (Inl outOfBounds)
          else if offset + 2 > length data then Ret (Inl outOfBounds)
          else case uint16At data offset of
            Panic \<Rightarrow> Panic
          | Ret cipherSuitesLength \<Rightarrow>
             (let offset = offset + 2 + cipherSuitesLength in
              if offset \<ge> length data then Ret (Inl outOfBounds)
              else case byteAt data offset of
                Panic \<Rightarrow> Panic
              | Ret compressionMethodsLength \<Rightarrow>
                 (let offset = offset + 1 + compressionMethodsLength in
                  if offset + 2 > length data then Ret (Inl outOfBounds)
                  else case uint16At data offset of
                    Panic \<Rightarrow> Panic
                  | Ret extensionsLength \<Rightarrow>
                     (let offset = offset + 2; extensionsEnd = offset + extensionsLength in
                      if extensionsEnd > length data then Ret (Inl outOfBounds)
                      else extensionLoop data extensionsEnd 0 offset)))))"

section \<open>Hosts\<close>

definition sniFindHostConfig :: "golib \<Rightarrow> ServerConfig \<Rightarrow> string \<Rightarrow> HostConfig option" where
  "sniFindHostConfig L cfg hostname =
     (let name = ToLower L (TrimSuffix hostname ''.'') in
      case map_of (scHosts cfg) name of
        Some val \<Rightarrow> Some val
      | None \<Rightarrow> wildcardFrom (scHosts cfg) (Split (CHR ''.'') name))"

definition sniResolveHost ::
  "golib \<Rightarrow> (string \<Rightarrow> string + string list) \<Rightarrow> string \<Rightarrow> ServerConfig \<Rightarrow> string + string list" where
  "sniResolveHost L lookup hostname cfg =
     (case sniFindHostConfig L cfg hostname of
        Some hc \<Rightarrow> if recordIps hc \<noteq> [] then Inr (recordIps hc) else lookup hostname
      | None \<Rightarrow> lookup hostname)"

section \<open>Connections\<close>

text \<open>
  What a client does on a new connection: the bytes it sends before it closes its side or a deadline
  of the socket passes, and whether five seconds pass before the first five bytes are there.
\<close>

record ClientConn =
  ccId :: nat
  ccRemoteAddr :: string
  ccStream :: bytes
  ccSlow :: bool

datatype sni_effect =
    Net http_effect
  | UpstreamWrite bytes
  | HandOff nat bytes ClientTlsConfig
  | CloseClient nat

text \<open>
  The send on the channel of the virtual listener: on a closed channel it panics; on a channel that
  stays full for three seconds it gives up (none).
\<close>

definition virtualSend :: "nat \<Rightarrow> HttpHandler \<Rightarrow> HttpHandler option outcome" where
  "virtualSend conn h =
     (if vlClosed (VListener h) then Panic
      else if length (conns (VListener h)) < 1024 then
        Ret (Some (h\<lparr>VListener := (VListener h)\<lparr>conns := conns (VListener h) @ [conn]\<rparr>\<rparr>))
      else Ret None)"

definition sniTargets ::
  "golib \<Rightarrow> HttpEnv \<Rightarrow> ServerConfig \<Rightarrow> string \<Rightarrow> HostConfig option \<Rightarrow> TlsProxyConfig option \<Rightarrow> string + string list" where
  "sniTargets L e cfg sni hostConfig tlsProxy =
     (let recorded = (case hostConfig of None \<Rightarrow> [] | Some hc \<Rightarrow> recordIps hc);
          targetIps = (case tlsProxy of
              Some tp \<Rightarrow> if tpTargetIp tp \<noteq> [] then [tpTargetIp tp] else recorded
            | None \<Rightarrow> recorded)
      in if targetIps \<noteq> [] then Inr targetIps
         else case sniResolveHost L (heLookup e) sni cfg of
           Inl err \<Rightarrow> Inl (''resolution fault on upstream: '' @ err)
         | Inr ips \<Rightarrow> if ips = [] then Inl ''NXDOMAIN on upstream resolution'' else Inr ips)"

text \<open>
  What an attempt to serve a name ends with: an error, with the connection to close; the handover to
  the virtual listener; or a tunnel, which then copies until one side ends.
\<close>

datatype tunnel_end = Blocked string | HandedOff | Tunnelled

record Tunnel =
  tnEnd :: tunnel_end
  tnEffects :: "sni_effect list"
  tnLog :: "audit_call list"

text \<open>The handover of a connection that the gateway terminates itself.\<close>

definition terminateTls ::
  "HttpEnv \<Rightarrow> ClientConn \<Rightarrow> string \<Rightarrow> string \<Rightarrow> bytes \<Rightarrow> SniProxyService \<Rightarrow> HttpHandler \<Rightarrow> (Tunnel \<times> HttpHandler) outcome" where
  "terminateTls e c clientIp sni hello s h =
     (let blocked = (\<lambda>err efs. Ret (\<lparr>tnEnd = Blocked err, tnEffects = efs, tnLog = []\<rparr>, h)) in
      case scTls (spCfg s) of
        None \<Rightarrow> blocked ''L7 HTTPS termination requires a global TLS certificate configured'' []
      | Some tc \<Rightarrow>
          (case proxyLoadTls (heReadFile e) (heKeyPair e) (heAppendCerts e) tc of
             Inl err \<Rightarrow> blocked (''TLS load fault: '' @ err) []
           | Inr tlsCfg \<Rightarrow>
               (case virtualSend (ccId c) h of
                  Panic \<Rightarrow> Panic
                | Ret None \<Rightarrow>
                    blocked ''Virtual listener capacity saturated. Connection dropped via resource constraint boundary.''
                      [CloseClient (ccId c)]
                | Ret (Some h') \<Rightarrow>
                    Ret (\<lparr>tnEnd = HandedOff, tnEffects = [HandOff (ccId c) hello tlsCfg],
                          tnLog = [LogHTTP clientIp ''TLS-TERM'' sni ('':'' @ itoa_int (spPort s)) 200
                                     ''L7 Decrypted -> Virtual HTTP Router'']\<rparr>, h'))))"

text \<open>The tunnel to a target; the connection upstream uses the same code as CONNECT.\<close>

definition passThrough ::
  "golib \<Rightarrow> HttpEnv \<Rightarrow> string \<Rightarrow> string \<Rightarrow> bytes \<Rightarrow> HostConfig option \<Rightarrow> TlsProxyConfig option \<Rightarrow> SniProxyService \<Rightarrow> HttpHandler \<Rightarrow> Tunnel" where
  "passThrough L e clientIp sni hello hostConfig tlsProxy s h =
     (let fw = scFirewall (spCfg s) in
      case sniTargets L e (spCfg s) sni hostConfig tlsProxy of
        Inl err \<Rightarrow> \<lparr>tnEnd = Blocked err, tnEffects = [], tnLog = []\<rparr>
      | Inr targetIps \<Rightarrow>
         (let targetIp = hd targetIps in
          if EvaluateOutbound L targetIp fw = ''DENY'' then
            \<lparr>tnEnd = Blocked (''Target IP '' @ targetIp @ '' blocked by Strict SSRF proxy policy''), tnEffects = [], tnLog = []\<rparr>
          else if EvaluateIp targetIp fw = ''DENY'' then
            \<lparr>tnEnd = Blocked (''Target IP '' @ targetIp @ '' blocked by Firewall policy''), tnEffects = [], tnLog = []\<rparr>
          else
           (let targetPort = (case tlsProxy of Some tp \<Rightarrow> if tpTargetPort tp \<noteq> 0 then tpTargetPort tp else 443 | None \<Rightarrow> 443);
                port = itoa_int targetPort;
                log = [LogHTTP clientIp ''TLS-SNI'' sni ('':'' @ itoa_int (spPort s)) 200
                         (''Tunneled to '' @ targetIp @ '':'' @ port)];
                proxy = getUpstreamProxy L (heFromEnvironment e)
                          (emptyURL\<lparr>uScheme := ''https'', uHost := sni @ '':'' @ port\<rparr>) h
            in case openTunnel e proxy (targetIp @ '':'' @ port) sni port of
                 (Some err, effects) \<Rightarrow> \<lparr>tnEnd = Blocked err, tnEffects = map Net effects, tnLog = log\<rparr>
               | (None, effects) \<Rightarrow>
                   (case heWriteErr e 0 of
                      Some err \<Rightarrow> \<lparr>tnEnd = Blocked err, tnEffects = map Net effects, tnLog = log\<rparr>
                    | None \<Rightarrow> \<lparr>tnEnd = Tunnelled, tnEffects = map Net effects @ [UpstreamWrite hello], tnLog = log\<rparr>))))"

definition tryTunnel ::
  "golib \<Rightarrow> HttpEnv \<Rightarrow> ClientConn \<Rightarrow> string \<Rightarrow> string \<Rightarrow> bytes \<Rightarrow> SniProxyService \<Rightarrow> HttpHandler \<Rightarrow> (Tunnel \<times> HttpHandler) outcome" where
  "tryTunnel L e c clientIp sni hello s h =
     (if EvaluateDomain L sni (scFirewall (spCfg s)) = ''DENY'' then
        Ret (\<lparr>tnEnd = Blocked ''domain blocked by Firewall policy'', tnEffects = [], tnLog = []\<rparr>, h)
      else
       (let hostConfig = sniFindHostConfig L (spCfg s) sni;
            portConfig = (case hostConfig of Some hc \<Rightarrow> Some hc | None \<Rightarrow> map_of (scHosts (spCfg s)) ''*'')
        in if (case Option.bind portConfig hcHttpProxy of Some hp \<Rightarrow> hpEnabled hp | None \<Rightarrow> False)
           then terminateTls e c clientIp sni hello s h
           else Ret (passThrough L e clientIp sni hello hostConfig (Option.bind portConfig hcTlsProxy) s h, h)))"

text \<open>The ClientHello as the handler reads it: nothing, a log entry, or the bytes of the record and the name.\<close>

datatype hello_result = NoHello "audit_call list" | Hello bytes string

definition readHello :: "ClientConn \<Rightarrow> string \<Rightarrow> SniProxyService \<Rightarrow> hello_result outcome" where
  "readHello c clientIp s =
     (let drop400 = (\<lambda>status note. NoHello [LogHTTP clientIp ''TLS'' ''UNKNOWN'' ('':'' @ itoa_int (spPort s)) status note]);
          headerBuf = take 5 (ccStream c)
      in if ccSlow c then Ret (drop400 408 ''Dropped: ClientHello absolute timeout (Slowloris)'')
         else if length headerBuf < 5 then Ret (NoHello [])
         else if headerBuf ! 0 \<noteq> 0x16 then Ret (drop400 400 ''Dropped: Not a TLS Handshake record'')
         else
          (let recordLength = unat (get16 headerBuf 3) in
           if recordLength > MaxClientHelloSize then Ret (drop400 400 ''Dropped: Overlong TLS Record length'')
           else
            (let payloadBuf = take recordLength (drop 5 (ccStream c)) in
             if length payloadBuf < recordLength then Ret (NoHello [])
             else case extractSNI (headerBuf @ payloadBuf) of
               Panic \<Rightarrow> Panic
             | Ret (Inl _) \<Rightarrow> Ret (drop400 400 ''Dropped: No SNI detected'')
             | Ret (Inr sni) \<Rightarrow> Ret (Hello (headerBuf @ payloadBuf) sni))))"

text \<open>
  A connection up to the point where its handler returns or its tunnel copies.  \<open>upstream\<close> names the
  connection to the target, which the service keeps with the client's while the tunnel is open;
  \<open>endTunnel\<close> is what the handler does when one side of the tunnel has ended.
\<close>

definition release :: "nat \<Rightarrow> SniProxyService \<Rightarrow> SniProxyService" where
  "release conn s = s\<lparr>activeConnections := removeAll conn (activeConnections s)\<rparr>"

definition handleConnection ::
  "golib \<Rightarrow> HttpEnv \<Rightarrow> ClientConn \<Rightarrow> nat \<Rightarrow> SniProxyService \<Rightarrow> HttpHandler
    \<Rightarrow> (sni_effect list \<times> audit_call list \<times> SniProxyService \<times> HttpHandler) outcome" where
  "handleConnection L e c upstream s h =
     (let clientIp = hostOf (ccRemoteAddr c) in
      case readHello c clientIp s of
        Panic \<Rightarrow> Panic
      | Ret (NoHello log) \<Rightarrow> Ret ([CloseClient (ccId c)], log, release (ccId c) s, h)
      | Ret (Hello hello sni) \<Rightarrow>
          (case tryTunnel L e c clientIp sni hello s h of
             Panic \<Rightarrow> Panic
           | Ret (t, h') \<Rightarrow>
               (case tnEnd t of
                  Blocked err \<Rightarrow>
                    Ret (tnEffects t @ [CloseClient (ccId c)],
                         tnLog t @ [LogHTTP clientIp ''TLS-SNI'' sni ('':'' @ itoa_int (spPort s)) 403 (''Blocked: '' @ err)],
                         release (ccId c) s, h')
                | HandedOff \<Rightarrow> Ret (tnEffects t, tnLog t, release (ccId c) s, h')
                | Tunnelled \<Rightarrow>
                    Ret (tnEffects t, tnLog t, s\<lparr>activeConnections := List.insert upstream (activeConnections s)\<rparr>, h'))))"

definition endTunnel :: "ClientConn \<Rightarrow> nat \<Rightarrow> SniProxyService \<Rightarrow> SniProxyService" where
  "endTunnel c upstream s = release (ccId c) (release upstream s)"

section \<open>The parser\<close>

lemma reads_ok [simp]:
  "i < length data \<Longrightarrow> byteAt data i = Ret (unat (data ! i))"
  "i + 2 \<le> length data \<Longrightarrow> uint16At data i = Ret (unat (get16 data i))"
  "i \<le> j \<Longrightarrow> j \<le> length data \<Longrightarrow> sliceAt data i j = Ret (take (j - i) (drop i data))"
  by (simp_all add: byteAt_def uint16At_def sliceAt_def)

definition piece_of :: "bytes \<Rightarrow> (string + string) outcome \<Rightarrow> bool" where
  "piece_of data r = (case r of Panic \<Rightarrow> False | Ret (Inl err) \<Rightarrow> True | Ret (Inr n) \<Rightarrow> \<exists>a b. data = a @ bytes_of n @ b)"

lemma piece_of_slice: "piece_of data (Ret (Inr (string_of (take k (drop i data)))))"
proof -
  have "data = take i data @ take k (drop i data) @ drop (i + k) data"
    by (metis add.commute append_take_drop_id drop_drop)
  then show ?thesis unfolding piece_of_def by (simp del: append_take_drop_id) blast
qed

lemma serverName_safe:
  assumes "extEnd \<le> length data"
  shows "case serverName data i extEnd of Panic \<Rightarrow> False | Ret None \<Rightarrow> True | Ret (Some r) \<Rightarrow> piece_of data (Ret r)"
  using assms piece_of_slice
  by (auto simp: serverName_def Let_def piece_of_def split: option.splits)

lemma extensionLoop_safe:
  assumes "extensionsEnd \<le> length data"
  shows "piece_of data (extensionLoop data extensionsEnd n i)"
  using assms
proof (induction data extensionsEnd n i rule: extensionLoop.induct)
  case (1 data extensionsEnd n i)
  show ?case
  proof (cases "i < extensionsEnd \<and> i + 4 \<le> length data \<and> \<not> MaxTlsExtensions < n")
    case True
    let ?len = "unat (get16 data (i + 2))"
    have next_ok: "piece_of data (extensionLoop data extensionsEnd (n + 1) (i + 4 + ?len))"
      if "unat (get16 data i) \<noteq> 0 \<or> (i + 4 + ?len \<le> extensionsEnd \<and> serverName data (i + 4) (i + 4 + ?len) = Ret None)"
      using 1 True that by (cases "unat (get16 data i) = 0") auto
    show ?thesis
      using True 1(3) next_ok serverName_safe [of "i + 4 + ?len" data "i + 4"]
      by (subst extensionLoop.simps) (auto simp: Let_def piece_of_def split: outcome.splits option.splits)
  qed (auto simp: extensionLoop.simps [of data extensionsEnd n i] piece_of_def)
qed

lemma extractSNI_piece: "piece_of data (extractSNI data)"
  by (auto simp: extractSNI_def Let_def extensionLoop_safe) (auto simp: piece_of_def)

text \<open>
  C24: whatever bytes a client sends, reading the server name does not panic, and a name that is
  returned is a contiguous piece of what the client sent.
\<close>

theorem extractSNI_safe:
  "case extractSNI data of
     Panic \<Rightarrow> False
   | Ret (Inl err) \<Rightarrow> True
   | Ret (Inr sni) \<Rightarrow> \<exists>a b. data = a @ bytes_of sni @ b"
  using extractSNI_piece [of data] by (simp add: piece_of_def)

text \<open>The ClientHello of RFC 8446 with the server name extension of RFC 6066, as a client writes it into one record.\<close>

record ClientHello =
  chRecordVersion :: bytes
  chVersion :: bytes
  chRandom :: bytes
  chSession :: bytes
  chSuites :: bytes
  chCompression :: bytes
  chBefore :: "(u16 \<times> bytes) list"
  chServerName :: string
  chAfter :: "(u16 \<times> bytes) list"

definition extension_wire :: "u16 \<times> bytes \<Rightarrow> bytes" where
  "extension_wire x = be16 (fst x) @ be16 (of_nat (length (snd x))) @ snd x"

definition server_name_wire :: "string \<Rightarrow> bytes" where
  "server_name_wire name = be16 (of_nat (length name + 3)) @ [0] @ be16 (of_nat (length name)) @ bytes_of name"

definition extensions_wire :: "ClientHello \<Rightarrow> bytes" where
  "extensions_wire ch = concat (map extension_wire (chBefore ch)) @ extension_wire (0, server_name_wire (chServerName ch))
     @ concat (map extension_wire (chAfter ch))"

definition hello_wire :: "ClientHello \<Rightarrow> bytes" where
  "hello_wire ch = chVersion ch @ chRandom ch @ [of_nat (length (chSession ch))] @ chSession ch
     @ be16 (of_nat (length (chSuites ch))) @ chSuites ch @ [of_nat (length (chCompression ch))] @ chCompression ch
     @ be16 (of_nat (length (extensions_wire ch))) @ extensions_wire ch"

definition be24 :: "nat \<Rightarrow> bytes" where
  "be24 n = [of_nat (n div 65536), of_nat (n div 256), of_nat n]"

definition record_wire :: "ClientHello \<Rightarrow> bytes" where
  "record_wire ch = [0x16] @ chRecordVersion ch @ be16 (of_nat (length (hello_wire ch) + 4))
     @ [1] @ be24 (length (hello_wire ch)) @ hello_wire ch"

definition hello_wf :: "ClientHello \<Rightarrow> bool" where
  "hello_wf ch \<longleftrightarrow> length (chRecordVersion ch) = 2 \<and> length (chVersion ch) = 2 \<and> length (chRandom ch) = 32
     \<and> length (chSession ch) \<le> 32 \<and> length (chCompression ch) < 256
     \<and> list_all (\<lambda>x. fst x \<noteq> 0) (chBefore ch) \<and> length (chBefore ch) \<le> 50
     \<and> length (hello_wire ch) + 4 \<le> 16384"

lemma get16_at: "get16 (a @ be16 v @ b) (length a) = v"
  using get16_shift [of a "be16 v @ b" 0] get16_append [of 0 "be16 v" b] by simp

lemma unat_len [simp]: "n < 65536 \<Longrightarrow> unat (of_nat n :: u16) = n"
  by (simp add: unat_of_nat)

lemma extension_step:
  assumes "data = front @ extension_wire x @ rest" "fst x \<noteq> 0" "length (snd x) < 65536"
    and "n \<le> 50" "length front < lim"
  shows "extensionLoop data lim n (length front) = extensionLoop data lim (n + 1) (length (front @ extension_wire x))"
proof -
  have "get16 data (length front) = fst x"
    using get16_at [of front "fst x"] assms(1) by (simp add: extension_wire_def)
  moreover have "get16 data (length front + 2) = of_nat (length (snd x))"
    using get16_at [of "front @ be16 (fst x)"] assms(1) by (simp add: extension_wire_def)
  moreover have "length front + 4 \<le> length data" using assms(1) by (simp add: extension_wire_def)
  moreover have "unat (fst x) \<noteq> 0" using assms(2) by (simp add: unat_eq_zero)
  moreover have "length (front @ extension_wire x) = length front + 4 + length (snd x)" by (simp add: extension_wire_def)
  ultimately show ?thesis
    using assms(3-5) by (subst extensionLoop.simps) (simp add: MaxTlsExtensions_def Let_def add.assoc)
qed

lemma server_name_found:
  assumes "data = front @ extension_wire (0, server_name_wire name) @ rest" "length name + 5 < 65536" "n \<le> 50"
    and "length (front @ extension_wire (0, server_name_wire name)) \<le> lim"
  shows "extensionLoop data lim n (length front) = Ret (Inr name)"
proof -
  let ?body = "server_name_wire name"
  have len: "length ?body = length name + 5" by (simp add: server_name_wire_def)
  have t: "get16 data (length front) = 0"
    using get16_at [of front 0] assms(1) by (simp add: extension_wire_def)
  have "get16 data (length front + 2) = of_nat (length ?body)"
    using get16_at [of "front @ be16 0"] assms(1) by (simp add: extension_wire_def)
  then have l: "unat (get16 data (length front + 2)) = 5 + length name" using len assms(2) by (simp del: of_nat_add)
  have k: "data ! (length front + 6) = 0"
    using assms(1) by (simp add: extension_wire_def server_name_wire_def nth_append)
  have s: "get16 data (length front + 7) = of_nat (length name)"
    using get16_at [of "front @ be16 0 @ be16 (of_nat (length ?body)) @ be16 (of_nat (length name + 3)) @ [0]"] assms(1)
    by (simp add: extension_wire_def server_name_wire_def)
  have nm: "take (length name) (drop (length front + 9) data) = bytes_of name"
    using assms(1) by (simp add: extension_wire_def server_name_wire_def)
  have size: "length front + 9 + length name \<le> length data" "length front + 9 + length name \<le> lim"
    using assms(1,4) by (simp_all add: extension_wire_def server_name_wire_def)
  have "serverName data (length front + 4) (length front + 9 + length name) = Ret (Some (Inr name))"
    using size k s nm assms(2) by (simp add: serverName_def Let_def add.commute [of "length front"])
  then show ?thesis
    using size t l assms(2,3) by (subst extensionLoop.simps) (simp add: MaxTlsExtensions_def Let_def add.commute [of "length front"] add.assoc)
qed

lemma extensions_found:
  assumes "data = front @ concat (map extension_wire pre) @ extension_wire (0, server_name_wire name) @ rest"
    and "list_all (\<lambda>x. fst x \<noteq> 0 \<and> length (snd x) < 65536) pre" "n + length pre \<le> 50" "length name + 5 < 65536"
    and "length data - length rest \<le> lim"
  shows "extensionLoop data lim n (length front) = Ret (Inr name)"
  using assms
proof (induction pre arbitrary: front n)
  case Nil
  then show ?case using server_name_found [of data front name rest n lim] by simp
next
  case (Cons x pre)
  let ?rest = "concat (map extension_wire pre) @ extension_wire (0, server_name_wire name) @ rest"
  have d: "data = front @ extension_wire x @ ?rest" using Cons.prems(1) by simp
  have "length front < lim" using d Cons.prems(5) by (simp add: extension_wire_def)
  then have "extensionLoop data lim n (length front) = extensionLoop data lim (n + 1) (length (front @ extension_wire x))"
    using Cons.prems(2,3) by (intro extension_step [OF d]) auto
  also have "\<dots> = Ret (Inr name)"
    using Cons.prems d by (intro Cons.IH) simp_all
  finally show ?case .
qed

lemma hello_parsed:
  assumes "data = p @ [of_nat (length s)] @ s @ be16 (of_nat (length cs)) @ cs @ [of_nat (length cm)] @ cm @ be16 (of_nat (length ex)) @ ex"
    and "length p = 43" "p ! 0 = 0x16" "p ! 5 = 1" "length s < 256" "length cs < 65536" "length cm < 256" "length ex < 65536"
  shows "extractSNI data = extensionLoop data (length data) 0 (length data - length ex)"
proof -
  let ?a = "p @ [of_nat (length s)] @ s"
  let ?b = "?a @ be16 (of_nat (length cs)) @ cs"
  let ?c = "?b @ [of_nat (length cm)] @ cm"
  have session: "unat (data ! 43) = length s"
    using assms(1,2,5) by (simp add: nth_append unat_of_nat)
  have suites: "unat (get16 data (44 + length s)) = length cs"
    using get16_at [of ?a "of_nat (length cs)"] assms(1,2,6) by simp
  have compression: "unat (data ! (46 + length s + length cs)) = length cm"
    using nth_append_length [of ?b "of_nat (length cm)"] assms(1,2,7) by (simp add: unat_of_nat add.assoc)
  have extensions: "unat (get16 data (47 + length s + length cs + length cm)) = length ex"
    using get16_at [of ?c "of_nat (length ex)"] assms(1,2,8) by (simp add: add.assoc)
  have len: "length data = 49 + length s + length cs + length cm + length ex" using assms(1,2) by simp
  have "data ! 0 = 0x16" "data ! 5 = 1" using assms(1-4) by (simp_all add: nth_append)
  then show ?thesis
    using session suites compression extensions len by (simp add: extractSNI_def Let_def add.assoc)
qed

lemma extension_lengths: "x \<in> set xs \<Longrightarrow> length (snd x) \<le> length (concat (map extension_wire xs))"
  by (induction xs) (auto simp: extension_wire_def)

lemma extractSNI_record:
  assumes "hello_wf ch"
  shows "extractSNI (record_wire ch) = Ret (Inr (chServerName ch))"
proof -
  let ?ex = "extensions_wire ch" and ?d = "record_wire ch"
  let ?p = "[0x16] @ chRecordVersion ch @ be16 (of_nat (length (hello_wire ch) + 4)) @ [1] @ be24 (length (hello_wire ch))
    @ chVersion ch @ chRandom ch"
  let ?q = "?p @ [of_nat (length (chSession ch))] @ chSession ch @ be16 (of_nat (length (chSuites ch))) @ chSuites ch
    @ [of_nat (length (chCompression ch))] @ chCompression ch @ be16 (of_nat (length ?ex))"
  have p: "length ?p = 43" "?p ! 0 = 0x16" "?p ! 5 = 1"
    using assms by (auto simp: hello_wf_def be24_def be16_def nth_append)
  have small: "length (chSuites ch) < 65536" "length ?ex < 65536"
    using assms by (auto simp: hello_wf_def hello_wire_def)
  have d: "?d = ?p @ [of_nat (length (chSession ch))] @ chSession ch @ be16 (of_nat (length (chSuites ch))) @ chSuites ch
      @ [of_nat (length (chCompression ch))] @ chCompression ch @ be16 (of_nat (length ?ex)) @ ?ex"
    by (subst record_wire_def, subst (3) hello_wire_def) simp
  have at: "length ?d - length ?ex = length ?q" by (subst d) simp
  have "extractSNI ?d = extensionLoop ?d (length ?d) 0 (length ?q)"
    using hello_parsed [OF d p _ small(1) _ small(2)] assms unfolding at by (simp add: hello_wf_def)
  also have "\<dots> = Ret (Inr (chServerName ch))"
  proof (rule extensions_found)
    show "?d = ?q @ concat (map extension_wire (chBefore ch)) @ extension_wire (0, server_name_wire (chServerName ch))
        @ concat (map extension_wire (chAfter ch))"
      by (subst d) (simp add: extensions_wire_def)
    show "list_all (\<lambda>x. fst x \<noteq> 0 \<and> length (snd x) < 65536) (chBefore ch)"
      using assms small(2) extension_lengths [of _ "chBefore ch"] by (fastforce simp: hello_wf_def list_all_iff extensions_wire_def)
    show "length (chServerName ch) + 5 < 65536"
      using small(2) by (simp add: extensions_wire_def extension_wire_def server_name_wire_def)
  qed (use assms in \<open>simp_all add: hello_wf_def\<close>)
  finally show ?thesis .
qed

lemma take_drop_parts:
  assumes "xs = a @ b @ c" "length a = i" "length b = j"
  shows "take i xs = a" "take j (drop i xs) = b"
  using assms by auto

lemma readHello_record:
  assumes "hello_wf ch" "ccStream c = record_wire ch @ later" "\<not> ccSlow c"
  shows "readHello c clientIp s = Ret (Hello (record_wire ch) (chServerName ch))"
proof -
  let ?n = "length (hello_wire ch) + 4"
  have n: "?n \<le> 16384" using assms(1) by (simp add: hello_wf_def)
  let ?h = "[0x16] @ chRecordVersion ch @ be16 (of_nat ?n)" and ?p = "[1] @ be24 (length (hello_wire ch)) @ hello_wire ch"
  have stream: "ccStream c = ?h @ ?p @ later" using assms(2) by (simp add: record_wire_def)
  have len: "length ?h = 5" "length ?p = ?n" using assms(1) by (simp_all add: hello_wf_def be24_def)
  note h = take_drop_parts(1) [OF stream len] and p = take_drop_parts(2) [OF stream len]
  have "unat (get16 (take 5 (ccStream c)) 3) = ?n"
    using get16_at [of "[0x16] @ chRecordVersion ch" "of_nat ?n" "[]"] assms(1) n unfolding h
    by (simp add: hello_wf_def del: of_nat_add)
  moreover have "take 5 (ccStream c) @ take ?n (drop 5 (ccStream c)) = record_wire ch"
    unfolding h p by (simp add: record_wire_def)
  moreover have "length (take 5 (ccStream c)) = 5" "take 5 (ccStream c) ! 0 = 0x16" "length (take ?n (drop 5 (ccStream c))) = ?n"
    using assms(1) unfolding h p by (simp_all add: hello_wf_def be24_def)
  ultimately show ?thesis
    using assms(3) extractSNI_record [OF assms(1)] n
    by (simp add: readHello_def Let_def MaxClientHelloSize_def del: length_take take_append)
qed

text \<open>
  C23: the proxy reads the server name that a client sends: from a stream that starts with a well-formed
  ClientHello of at most 16384 bytes in one record, with at most 50 extensions before the server name,
  the handler takes exactly the bytes of that record and the name in it.
\<close>

theorem readHello_encoded:
  assumes "hello_wf ch" "ccStream c = record_wire ch @ later" "\<not> ccSlow c"
  shows "readHello c clientIp s = Ret (Hello (record_wire ch) (chServerName ch))"
  by (rule readHello_record [OF assms])

section \<open>Connections of the service\<close>

lemma extractSNI_total: "extractSNI data \<noteq> Panic"
  using extractSNI_piece [of data] by (auto simp: piece_of_def)

lemma readHello_total: "readHello c clientIp s \<noteq> Panic"
  by (auto simp: readHello_def Let_def extractSNI_total split: outcome.splits sum.splits)

lemma readHello_Hello:
  assumes "readHello c clientIp s = Ret (Hello hello sni)"
  shows "\<exists>rest. ccStream c = hello @ rest \<and> extractSNI hello = Ret (Inr sni)"
proof -
  let ?n = "unat (get16 (take 5 (ccStream c)) 3)"
  have "hello = take 5 (ccStream c) @ take ?n (drop 5 (ccStream c))" "extractSNI hello = Ret (Inr sni)"
    using assms by (auto simp: readHello_def Let_def split: if_splits outcome.splits sum.splits)
  moreover have "ccStream c = (take 5 (ccStream c) @ take ?n (drop 5 (ccStream c))) @ drop ?n (drop 5 (ccStream c))"
    by (metis append_assoc append_take_drop_id)
  ultimately show ?thesis by metis
qed

text \<open>An effect that the firewall and the first bytes \<open>hello\<close> of the client allow.\<close>

definition effect_ok :: "golib \<Rightarrow> HttpEnv \<Rightarrow> FirewallConfig option \<Rightarrow> HttpHandler \<Rightarrow> nat \<Rightarrow> bytes \<Rightarrow> sni_effect \<Rightarrow> bool" where
  "effect_ok L e fw h conn hello ef \<longleftrightarrow>
     (case ef of
        Net ef \<Rightarrow> dial_ok L e fw h ef
      | UpstreamWrite b \<Rightarrow> b = hello
      | HandOff i b _ \<Rightarrow> i = conn \<and> b = hello
      | CloseClient i \<Rightarrow> i = conn)"

lemma terminateTls_effects:
  assumes "terminateTls e c clientIp sni hello s h = Ret (t, h')"
  shows "list_all (effect_ok L e fw h (ccId c) hello) (tnEffects t)"
  using assms
  by (auto simp: terminateTls_def Let_def effect_ok_def split: option.splits sum.splits outcome.splits)

lemma terminateTls_panic: "terminateTls e c clientIp sni hello s h = Panic \<Longrightarrow> vlClosed (VListener h)"
  by (auto simp: terminateTls_def Let_def virtualSend_def split: option.splits sum.splits outcome.splits if_splits)

lemma passThrough_effects:
  "list_all (effect_ok L e (scFirewall (spCfg s)) h conn hello)
     (tnEffects (passThrough L e clientIp sni hello hostConfig tlsProxy s h))"
proof (cases "sniTargets L e (spCfg s) sni hostConfig tlsProxy")
  case (Inl err)
  then show ?thesis by (simp add: passThrough_def Let_def)
next
  case (Inr ips)
  let ?fw = "scFirewall (spCfg s)" and ?ip = "hd ips"
  let ?port = "itoa_int (case tlsProxy of Some tp \<Rightarrow> if tpTargetPort tp \<noteq> 0 then tpTargetPort tp else 443 | None \<Rightarrow> 443)"
  let ?proxy = "getUpstreamProxy L (heFromEnvironment e) (emptyURL\<lparr>uScheme := ''https'', uHost := sni @ '':'' @ ?port\<rparr>) h"
  obtain err efs where tunnel: "openTunnel e ?proxy (?ip @ '':'' @ ?port) sni ?port = (err, efs)" by force
  have "list_all (effect_ok L e ?fw h conn hello) (map Net efs)" if "target_ok L ?fw ?ip"
    using openTunnel_dials [OF that tunnel] by (simp add: list_all_iff effect_ok_def)
  then show ?thesis
    unfolding passThrough_def Let_def Inr sum.case tunnel prod.case
    by (auto simp: target_ok_def effect_ok_def split: option.splits)
qed

text \<open>
  C5: whatever a client sends to the TLS port, unless its connection is only closed, the first bytes it
  sent are a ClientHello with a name the firewall allows; every direct connection goes to an address
  that passes the outbound check and the address rules, every other one to the upstream proxy chosen
  for a URL; and the target, or the HTTP proxy, is given exactly the first bytes of the client.  The
  handler panics only on a virtual listener that is closed.
\<close>

theorem handleConnection_connects:
  "case handleConnection L e c upstream s h of
     Panic \<Rightarrow> vlClosed (VListener h)
   | Ret (efs, log, s', h') \<Rightarrow>
       efs = [CloseClient (ccId c)]
       \<or> (\<exists>hello sni rest. ccStream c = hello @ rest \<and> extractSNI hello = Ret (Inr sni)
            \<and> EvaluateDomain L sni (scFirewall (spCfg s)) \<noteq> ''DENY''
            \<and> list_all (\<lambda>ef. case ef of
                 Net (DialTarget addr) \<Rightarrow> \<exists>ip port. addr = ip @ '':'' @ port
                   \<and> EvaluateOutbound L ip (scFirewall (spCfg s)) \<noteq> ''DENY'' \<and> EvaluateIp ip (scFirewall (spCfg s)) \<noteq> ''DENY''
               | Net (DialProxy addr) \<Rightarrow> \<exists>u p. getUpstreamProxy L (heFromEnvironment e) u h = Inr (Some p) \<and> addr = uHost p
               | UpstreamWrite b \<Rightarrow> b = hello
               | HandOff i b tls \<Rightarrow> i = ccId c \<and> b = hello
               | _ \<Rightarrow> True) efs)"
proof -
  let ?fw = "scFirewall (spCfg s)" and ?ip = "hostOf (ccRemoteAddr c)"
  let ?ok = "\<lambda>hello ef. case ef of
       Net (DialTarget addr) \<Rightarrow> \<exists>ip port. addr = ip @ '':'' @ port \<and> EvaluateOutbound L ip ?fw \<noteq> ''DENY'' \<and> EvaluateIp ip ?fw \<noteq> ''DENY''
     | Net (DialProxy addr) \<Rightarrow> \<exists>u p. getUpstreamProxy L (heFromEnvironment e) u h = Inr (Some p) \<and> addr = uHost p
     | UpstreamWrite b \<Rightarrow> b = hello | HandOff i b tls \<Rightarrow> i = ccId c \<and> b = hello | _ \<Rightarrow> True"
  have weaken: "?ok hello ef" if "effect_ok L e ?fw h (ccId c) hello ef" for ef hello
    using that by (auto simp: effect_ok_def dial_ok_def target_ok_def split: sni_effect.splits http_effect.splits)
  show ?thesis
  proof (cases "readHello c ?ip s")
    case (Ret r)
    show ?thesis
    proof (cases r)
      case (Hello hello sni)
      obtain rest where hello: "ccStream c = hello @ rest" "extractSNI hello = Ret (Inr sni)"
        using readHello_Hello Ret Hello by blast
      show ?thesis
      proof (cases "tryTunnel L e c ?ip sni hello s h")
        case Panic
        then show ?thesis
          using Ret Hello by (auto simp: handleConnection_def Let_def tryTunnel_def dest: terminateTls_panic split: if_splits)
      next
        case t: (Ret x)
        obtain t h' where x: "x = (t, h')" by force
        show ?thesis
        proof (cases "EvaluateDomain L sni ?fw = ''DENY''")
          case True
          then show ?thesis using Ret Hello by (simp add: handleConnection_def Let_def tryTunnel_def)
        next
          case False
          have "list_all (effect_ok L e ?fw h (ccId c) hello) (tnEffects t)"
            using t x False passThrough_effects terminateTls_effects
            by (auto simp: tryTunnel_def Let_def split: if_splits)
          then have "list_all (effect_ok L e ?fw h (ccId c) hello) (tnEffects t @ [CloseClient (ccId c)])"
            by (simp add: effect_ok_def)
          moreover obtain efs log s' where hc: "handleConnection L e c upstream s h = Ret (efs, log, s', h')"
              "set efs \<subseteq> set (tnEffects t @ [CloseClient (ccId c)])"
            using Ret Hello t x by (cases "tnEnd t") (auto simp: handleConnection_def Let_def)
          ultimately have "list_all (?ok hello) efs" unfolding list_all_iff using weaken by blast
          with hello False show ?thesis unfolding hc(1) outcome.case prod.case by blast
        qed
      qed
    qed (use Ret in \<open>simp add: handleConnection_def Let_def\<close>)
  qed (simp add: readHello_total)
qed

section \<open>The prefix of a terminated connection\<close>

fun prefixReads :: "(nat \<times> nat) list \<Rightarrow> PrefixConn \<Rightarrow> bytes \<times> PrefixConn" where
  "prefixReads [] p = ([], p)"
| "prefixReads ((avail, n) # rs) p = (let (b, p) = PrefixRead avail n p; (bs, p) = prefixReads rs p in (b @ bs, p))"

lemma prefixReads_stream:
  "prefixReads rs p = (b, p') \<Longrightarrow> b @ Prefix p' @ pxConn p' = Prefix p @ pxConn p"
proof (induction rs arbitrary: p b)
  case (Cons r rs)
  obtain avail n where r: "r = (avail, n)" by force
  obtain b1 p1 where one: "PrefixRead avail n p = (b1, p1)" by force
  obtain b2 where rest: "prefixReads rs p1 = (b2, p')" "b = b1 @ b2"
    using Cons.prems by (auto simp: r one split: prod.splits)
  have "b1 @ Prefix p1 @ pxConn p1 = Prefix p @ pxConn p"
    using one by (auto simp: PrefixRead_def split: if_splits)
  with Cons.IH [OF rest(1)] rest(2) show ?case by simp
qed simp

text \<open>
  The TLS server that a connection is handed over to sees the stream of the client from its first
  byte, for every sizes of its reads: what it has read and what is still to come is what the client
  sent.
\<close>

theorem handover_stream:
  assumes "handleConnection L e c upstream s h = Ret (efs, log, s', h')" "HandOff i hello tls \<in> set efs"
    and "prefixReads rs \<lparr>pxConn = drop (length hello) (ccStream c), Prefix = hello\<rparr> = (b, p)"
  shows "b @ Prefix p @ pxConn p = ccStream c \<and> i = ccId c \<and> i \<in> set (conns (VListener h'))"
proof -
  let ?ip = "hostOf (ccRemoteAddr c)"
  obtain hello' sni t where r: "readHello c ?ip s = Ret (Hello hello' sni)" "tryTunnel L e c ?ip sni hello' s h = Ret (t, h')"
    "HandOff i hello tls \<in> set (tnEffects t)"
    using assms(1,2)
    by (auto simp: handleConnection_def Let_def split: outcome.splits hello_result.splits tunnel_end.splits prod.splits)
  have "HandOff i hello tls \<notin> set (tnEffects (passThrough L e ?ip sni hello' hc tp s h))" for hc tp
    by (auto simp: passThrough_def Let_def split: sum.splits option.splits prod.splits if_splits)
  with r(2,3) have "terminateTls e c ?ip sni hello' s h = Ret (t, h')"
    by (auto simp: tryTunnel_def Let_def split: if_splits)
  with r(3) have h: "hello = hello'" "i = ccId c" "i \<in> set (conns (VListener h'))"
    by (auto simp: terminateTls_def Let_def virtualSend_def split: option.splits sum.splits outcome.splits if_splits)
  obtain rest where "ccStream c = hello @ rest" using readHello_Hello [OF r(1)] h(1) by blast
  with prefixReads_stream [OF assms(3)] h show ?thesis by simp
qed

section \<open>The request to the upstream proxy\<close>

lemma openTunnel_request:
  assumes "openTunnel e proxy a sni port = (err, efs)" "DialProxy addr \<in> set efs" "heDial e addr = None"
  shows "ProxyWrite (connectRequest sni port) \<in> set efs"
  using assms by (auto simp: openTunnel_def Let_def split: sum.splits option.splits if_splits)

lemma passThrough_request:
  assumes "Net (DialProxy addr) \<in> set (tnEffects (passThrough L e clientIp sni hello hc tp s h))" "heDial e addr = None"
  shows "\<exists>port. Net (ProxyWrite (connectRequest sni port)) \<in> set (tnEffects (passThrough L e clientIp sni hello hc tp s h))"
proof (cases "sniTargets L e (spCfg s) sni hc tp")
  case (Inr ips)
  let ?port = "itoa_int (case tp of Some tp \<Rightarrow> if tpTargetPort tp \<noteq> 0 then tpTargetPort tp else 443 | None \<Rightarrow> 443)"
  let ?proxy = "getUpstreamProxy L (heFromEnvironment e) (emptyURL\<lparr>uScheme := ''https'', uHost := sni @ '':'' @ ?port\<rparr>) h"
  obtain err efs where tunnel: "openTunnel e ?proxy (hd ips @ '':'' @ ?port) sni ?port = (err, efs)" by force
  show ?thesis
    using assms openTunnel_request [OF tunnel _ assms(2)]
    unfolding passThrough_def Let_def Inr sum.case tunnel prod.case
    by (auto split: option.splits if_splits)
qed (use assms in \<open>simp add: passThrough_def Let_def\<close>)

lemma proxied_name:
  assumes "readHello c (hostOf (ccRemoteAddr c)) s = Ret (Hello hello sni)"
    and "handleConnection L e c upstream s h = Ret (efs, log, s', h')" "Net (DialProxy addr) \<in> set efs" "heDial e addr = None"
  shows "\<exists>port. Net (ProxyWrite (connectRequest sni port)) \<in> set efs"
proof -
  let ?ip = "hostOf (ccRemoteAddr c)"
  obtain t where t: "tryTunnel L e c ?ip sni hello s h = Ret (t, h')"
      "efs = tnEffects t \<or> efs = tnEffects t @ [CloseClient (ccId c)]"
    using assms(1,2) by (cases "tryTunnel L e c ?ip sni hello s h") (auto simp: handleConnection_def Let_def split: tunnel_end.splits)
  have "Net (DialProxy addr) \<notin> set (tnEffects t)" if "terminateTls e c ?ip sni hello s h = Ret (t, h')"
    using that by (auto simp: terminateTls_def Let_def split: option.splits sum.splits outcome.splits)
  with t assms(3) have "terminateTls e c ?ip sni hello s h \<noteq> Ret (t, h')" by auto
  with t(1) assms(3) t(2) obtain hc tp where t': "t = passThrough L e ?ip sni hello hc tp s h"
    unfolding tryTunnel_def Let_def by (cases "EvaluateDomain L sni (scFirewall (spCfg s)) = ''DENY''") (auto split: if_splits)
  have "Net (DialProxy addr) \<in> set (tnEffects t)" using t(2) assms(3) by auto
  then have "\<exists>port. Net (ProxyWrite (connectRequest sni port)) \<in> set (tnEffects t)"
    unfolding t' by (rule passThrough_request [OF _ assms(4)])
  then show ?thesis using t(2) by auto
qed

text \<open>
  C36: the server name reaches the upstream proxy as the client sent it: if the connection to the
  upstream proxy succeeds and the name consists of \<open>host\<close>, the rest of a request line and
  further bytes, then the proxy is sent a CONNECT for \<open>host\<close> followed by these bytes, so a client
  chooses the header lines of the request, and the host that the proxy connects to.
\<close>

theorem connect_injection:
  assumes "readHello c (hostOf (ccRemoteAddr c)) s
      = Ret (Hello hello (host @ '':443 HTTP/1.1'' @ [CHR 0x0D, CHR 0x0A] @ lines))"
    and "handleConnection L e c upstream s h = Ret (efs, log, s', h')" "Net (DialProxy addr) \<in> set efs" "heDial e addr = None"
  shows "\<exists>tail. Net (ProxyWrite (bytes_of (''CONNECT '' @ host @ '':443 HTTP/1.1'' @ [CHR 0x0D, CHR 0x0A] @ lines @ tail))) \<in> set efs"
proof -
  obtain port where "Net (ProxyWrite (connectRequest (host @ '':443 HTTP/1.1'' @ [CHR 0x0D, CHR 0x0A] @ lines) port)) \<in> set efs"
    using proxied_name [OF assms] by blast
  then show ?thesis unfolding connectRequest_def
    by (intro exI [of _ "'':'' @ port @ '' HTTP/1.1'' @ [CHR 0x0D, CHR 0x0A] @ ''Host: '' @ host @ '':443 HTTP/1.1'' @
       [CHR 0x0D, CHR 0x0A] @ lines @ '':'' @ port @ [CHR 0x0D, CHR 0x0A, CHR 0x0D, CHR 0x0A]"]) simp
qed

section \<open>A concrete client\<close>

definition example_hello :: "string \<Rightarrow> ClientHello" where
  "example_hello name = \<lparr>chRecordVersion = [3, 1], chVersion = [3, 3], chRandom = replicate 32 9, chSession = [1, 2], chSuites = [0x13, 1],
     chCompression = [0], chBefore = [(23, []), (43, [2, 3, 4])], chServerName = name, chAfter = [(13, [4, 3])]\<rparr>"

definition example_tls_client :: "string \<Rightarrow> ClientConn" where
  "example_tls_client name = \<lparr>ccId = 3, ccRemoteAddr = ''192.0.2.1:5000'', ccStream = record_wire (example_hello name) @ [0x17, 3, 3],
     ccSlow = False\<rparr>"

definition injected_name :: string where
  "injected_name = ''b.io:443 HTTP/1.1'' @ [CHR 0x0D, CHR 0x0A] @ ''X-Trusted: 1''"

definition example_tls_config :: ServerConfig where
  "example_tls_config = example_accepted\<lparr>scUpstreamHttpsProxy := ''http://192.0.2.9:3128'',
     scTls := Some \<lparr>tcCert = ''-----BEGIN'', tcKey = ''-----BEGIN'', tcCa = [], tcServerName = []\<rparr>,
     scHosts := [(''www.a.io'', \<lparr>hcRecords = [], hcHttpProxy = Some \<lparr>hpEnabled = True, hpUpstream = ''http://c.io'',
       hpHeaders = [], hpForwardRequestBody = True, hpMaxRequestBodyBytes = 0, hpClientTls = None\<rparr>, hcTlsProxy = None, hcRedirect = None\<rparr>)]\<rparr>"

lemma example_hello_wf: "hello_wf (example_hello ''www.a.io'')" "hello_wf (example_hello injected_name)"
  by code_simp+

theorem readHello_encoded_witness:
  "readHello (example_tls_client ''www.a.io'') ''192.0.2.1'' (NewSniProxyService example_tls_config)
    = Ret (Hello (record_wire (example_hello ''www.a.io'')) ''www.a.io'')"
  using readHello_encoded [OF example_hello_wf(1), of "example_tls_client ''www.a.io''" "[0x17, 3, 3]" "''192.0.2.1''"]
  by (simp add: example_tls_client_def example_hello_def)

lemma example_handover:
  "case handleConnection example_lib (example_http_env 200) (example_tls_client ''www.a.io'') 4
      (NewSniProxyService example_tls_config) (NewHttpHandler [7] example_tls_config) of
     Panic \<Rightarrow> False
   | Ret (efs, log, s', h') \<Rightarrow> efs = [HandOff 3 (record_wire (example_hello ''www.a.io''))
       \<lparr>ctCert = (bytes_of ''-----BEGIN'', bytes_of ''-----BEGIN''), ctServerName = [], ctRootCAs = None\<rparr>]"
  by code_simp

theorem handover_stream_witness:
  "\<exists>efs log s' h'. handleConnection example_lib (example_http_env 200) (example_tls_client ''www.a.io'') 4
      (NewSniProxyService example_tls_config) (NewHttpHandler [7] example_tls_config) = Ret (efs, log, s', h')
    \<and> (case prefixReads [(100, 20), (100, 4096), (2, 50)] \<lparr>pxConn = [0x17, 3, 3], Prefix = record_wire (example_hello ''www.a.io'')\<rparr> of
         (b, p) \<Rightarrow> b @ Prefix p @ pxConn p = record_wire (example_hello ''www.a.io'') @ [0x17, 3, 3])
    \<and> 3 \<in> set (conns (VListener h'))"
proof -
  let ?c = "example_tls_client ''www.a.io''" and ?hello = "record_wire (example_hello ''www.a.io'')"
  obtain efs log s' h' tls where hc: "handleConnection example_lib (example_http_env 200) ?c 4
      (NewSniProxyService example_tls_config) (NewHttpHandler [7] example_tls_config) = Ret (efs, log, s', h')"
      "HandOff 3 ?hello tls \<in> set efs"
    using example_handover by (auto split: outcome.splits prod.splits)
  obtain b p where reads: "prefixReads [(100, 20), (100, 4096), (2, 50)] \<lparr>pxConn = [0x17, 3, 3], Prefix = ?hello\<rparr> = (b, p)" by force
  have "ccStream ?c = ?hello @ [0x17, 3, 3]" "ccId ?c = 3" by (simp_all add: example_tls_client_def)
  then show ?thesis
    using handover_stream [OF hc, of "[(100, 20), (100, 4096), (2, 50)]" b p] hc(1) reads by (simp del: prefixReads.simps)
qed

lemma example_outbound: "EvaluateOutbound example_lib ''93.184.216.34'' None = ''ALLOW''"
  by code_simp

lemma example_no_host: "sniFindHostConfig example_lib example_tls_config injected_name = None"
  by code_simp

lemma example_upstream_proxy:
  "map_sum id (map_option uHost) (getUpstreamProxy example_lib (\<lambda>u. Inr None)
     (emptyURL\<lparr>uScheme := ''https'', uHost := injected_name @ '':443''\<rparr>) (NewHttpHandler [7] example_tls_config))
   = Inr (Some ''192.0.2.9:3128'')"
  by code_simp

lemma example_injection_hello:
  "readHello (example_tls_client injected_name) clientIp s = Ret (Hello (record_wire (example_hello injected_name)) injected_name)"
  using readHello_record [OF example_hello_wf(2), of "example_tls_client injected_name" "[0x17, 3, 3]"]
  by (simp add: example_tls_client_def example_hello_def)

lemma example_injection:
  "\<exists>efs log s' h'. handleConnection example_lib (example_http_env 200) (example_tls_client injected_name) 4
      (NewSniProxyService example_tls_config) (NewHttpHandler [7] example_tls_config) = Ret (efs, log, s', h')
    \<and> Net (DialProxy ''192.0.2.9:3128'') \<in> set efs"
proof -
  let ?h = "NewHttpHandler [7] example_tls_config"
  obtain u where u: "getUpstreamProxy example_lib (\<lambda>u. Inr None) (emptyURL\<lparr>uScheme := ''https'', uHost := injected_name @ '':443''\<rparr>) ?h
      = Inr (Some u)" "uHost u = ''192.0.2.9:3128''"
    using example_upstream_proxy by (auto simp: map_sum_def split: sum.splits)
  have cfg: "scFirewall example_tls_config = None" "map_of (scHosts example_tls_config) ''*'' = None"
    by (simp_all add: example_tls_config_def example_accepted_def example_config_def)
  have port: "itoa_int 443 = ''443''" by code_simp
  show ?thesis
    using u example_outbound example_no_host cfg port
    by (simp add: handleConnection_def Let_def example_injection_hello tryTunnel_def NewSniProxyService_def passThrough_def
        sniTargets_def sniResolveHost_def example_http_env_def EvaluateIp_def EvaluateDomain_def openTunnel_def)
qed

theorem connect_injection_witness:
  "\<exists>efs log s' h' tail. handleConnection example_lib (example_http_env 200) (example_tls_client injected_name) 4
      (NewSniProxyService example_tls_config) (NewHttpHandler [7] example_tls_config) = Ret (efs, log, s', h')
    \<and> Net (ProxyWrite (bytes_of (''CONNECT b.io:443 HTTP/1.1'' @ [CHR 0x0D, CHR 0x0A] @ ''X-Trusted: 1'' @ tail))) \<in> set efs"
proof -
  let ?c = "example_tls_client injected_name" and ?s = "NewSniProxyService example_tls_config"
  obtain efs log s' h' where hc: "handleConnection example_lib (example_http_env 200) ?c 4 ?s (NewHttpHandler [7] example_tls_config)
      = Ret (efs, log, s', h')" "Net (DialProxy ''192.0.2.9:3128'') \<in> set efs"
    using example_injection by blast
  have "readHello ?c (hostOf (ccRemoteAddr ?c)) ?s = Ret (Hello (record_wire (example_hello injected_name))
      (''b.io'' @ '':443 HTTP/1.1'' @ [CHR 0x0D, CHR 0x0A] @ ''X-Trusted: 1''))"
    unfolding example_injection_hello by (simp add: injected_name_def)
  from connect_injection [OF this hc] hc(1) show ?thesis by (auto simp: example_http_env_def)
qed

end
