(* ===== verification/DnsSpelling.thy ===== *)
theory DnsSpelling
  imports DnsHandler
begin

text \<open>
  The random letter case of forwarded queries (0x20): what \<^verbatim>\<open>Apply0x20Encoding\<close> changes of a packet,
  which spellings it can produce, and the OPT record that \<^verbatim>\<open>AppendEdns0DoBit\<close> adds.
\<close>

section \<open>Letter case: what the encoding changes\<close>

definition fold_case :: "byte \<Rightarrow> byte" where
  "fold_case c = (if c \<ge> 0x41 \<and> c \<le> 0x5a then c OR 0x20 else c)"

definition same_spelling :: "string \<Rightarrow> string \<Rightarrow> bool" where
  "same_spelling a b \<longleftrightarrow> map fold_case (bytes_of a) = map fold_case (bytes_of b)"

definition upper :: "byte \<Rightarrow> bool" where
  "upper c \<longleftrightarrow> c \<ge> 0x41 \<and> c \<le> 0x5a"

text \<open>The letters are enumerated.\<close>

lemma byte_range:
  assumes "a \<le> c" "c \<le> b"
  shows "c \<in> (of_nat :: nat \<Rightarrow> byte) ` set [unat a..<Suc (unat b)]"
proof -
  have "unat a \<le> unat c" "unat c \<le> unat b" using assms by (simp_all add: word_le_nat_alt)
  then show ?thesis by (intro image_eqI [of _ _ "unat c"]) auto
qed

lemma letter_cases:
  assumes "(c \<ge> 0x41 \<and> c \<le> 0x5a) \<or> (c \<ge> 0x61 \<and> c \<le> (0x7a :: byte))"
  shows "list_ex (\<lambda>n. c = of_nat n) [65..<91] \<or> list_ex (\<lambda>n. c = of_nat n) [97..<123]"
  using assms byte_range [of "0x41" c "0x5a"] byte_range [of "0x61" c "0x7a"]
  by (auto simp: list_ex_iff)

lemma flip_letter:
  assumes "(c \<ge> 0x41 \<and> c \<le> 0x5a) \<or> (c \<ge> 0x61 \<and> c \<le> (0x7a :: byte))"
  shows "fold_case (c OR 0x20) = fold_case c \<and> fold_case (c AND NOT 0x20) = fold_case c
     \<and> fold_case c OR 0x20 = c OR 0x20 \<and> fold_case c AND NOT 0x20 = c AND NOT 0x20
     \<and> 0x61 \<le> fold_case c \<and> fold_case c \<le> 0x7a
     \<and> c OR 0x20 \<noteq> 46 \<and> c AND NOT 0x20 \<noteq> 46 \<and> c \<noteq> 46
     \<and> (if upper c then c AND NOT 0x20 else c OR 0x20) = c"
  using letter_cases [OF assms]
  by (simp add: upt_rec_numeral) (elim disjE; simp add: fold_case_def upper_def)
lemma fold_flipCase [simp]: "fold_case (flipCase e c) = fold_case c"
  using flip_letter [of c] by (simp add: flipCase_def)

lemma flipCase_dot: "flipCase e c = 46 \<longleftrightarrow> c = 46"
  using flip_letter [of c] by (auto simp: flipCase_def)

lemma flipCase_fold: "flipCase e (fold_case c) = flipCase e c"
  using flip_letter [of c] by (cases "c \<ge> 0x41 \<and> c \<le> 0x5a \<or> c \<ge> 0x61 \<and> c \<le> 0x7a")
    (auto simp: flipCase_def, auto simp: fold_case_def)

lemma flipCase_self: "flipCase (if upper d then 1 else 0) d = d"
  using flip_letter [of d] by (auto simp: flipCase_def split: if_splits)

lemma flipCase_target: "fold_case c = fold_case d \<Longrightarrow> flipCase (if upper d then 1 else 0) c = d"
  by (metis flipCase_fold flipCase_self)

lemma fold_case_length: "map fold_case a = map fold_case b \<Longrightarrow> length a = length b"
  by (rule map_eq_imp_length_eq)

lemma flipLabel_form:
  "pos + length es \<le> length q \<Longrightarrow>
     flipLabel es pos q = take pos q @ map2 flipCase es (take (length es) (drop pos q)) @ drop (pos + length es) q"
proof (induction es pos q rule: flipLabel.induct)
  case (2 e es pos q)
  then have "pos < length q" by simp
  then have "drop pos q = q ! pos # drop (Suc pos) q" "take (Suc pos) (q[pos := x]) = take pos q @ [x]" for x
    by (simp_all add: Cons_nth_drop_Suc take_Suc_conv_app_nth)
  with 2 show ?case by simp
qed simp

lemma flipLabel_fold: "map fold_case (flipLabel es pos q) = map fold_case q"
  by (induction es pos q rule: flipLabel.induct) (simp_all add: map_update list_update_same_conv)

lemma flipLabel_before: "n \<le> pos \<Longrightarrow> take n (flipLabel es pos q) = take n q"
  by (induction es pos q rule: flipLabel.induct) simp_all

lemma encodeName_keeps:
  "encodeName rnd k off q = (k', off', q') \<Longrightarrow>
     off \<le> off' \<and> map fold_case q' = map fold_case q \<and> (\<forall>n\<le>off. take n q' = take n q)"
proof (induction rnd k off q arbitrary: k' off' q' rule: encodeName.induct)
  case (1 rnd k off q)
  let ?n = "unat (q ! off)"
  show ?case
  proof (cases "off < length q \<and> q ! off \<noteq> 0 \<and> q ! off AND 0xc0 \<noteq> 0xc0")
    case True
    then have "encodeName rnd (k + ?n) (off + 1 + ?n) (flipLabel (map rnd [k..<k + ?n]) (off + 1) q) = (k', off', q')"
      using 1(2) by (subst (asm) encodeName.simps) (simp add: Let_def)
    from 1(1) [OF _ refl _ _ this] True show ?thesis
      by (auto simp: flipLabel_fold flipLabel_before)
  next
    case False
    then show ?thesis using 1(2) by (subst (asm) encodeName.simps) (auto simp: Let_def split: if_splits)
  qed
qed

lemma encodeQuestions_keeps:
  "map fold_case (encodeQuestions rnd n k off q) = map fold_case q
   \<and> (\<forall>m\<le>off. take m (encodeQuestions rnd n k off q) = take m q)"
proof (induction n arbitrary: k off q)
  case (Suc n)
  obtain k' off' q' where e: "encodeName rnd k off q = (k', off', q')" by (cases "encodeName rnd k off q")
  from encodeName_keeps [OF this] Suc [of k' _ q'] show ?case by (simp add: e)
qed simp

text \<open>The spelling that the entropy from position \<open>k\<close> on selects, for a label, a name and the questions of a packet.\<close>

definition flipText :: "(nat \<Rightarrow> byte) \<Rightarrow> nat \<Rightarrow> string \<Rightarrow> string" where
  "flipText rnd k l = string_of (map2 flipCase (map rnd [k..<k + length l]) (bytes_of l))"

fun flipLabels :: "(nat \<Rightarrow> byte) \<Rightarrow> nat \<Rightarrow> string list \<Rightarrow> string list" where
  "flipLabels rnd k [] = []"
| "flipLabels rnd k (l # ls) = flipText rnd k l # flipLabels rnd (k + length l) ls"

definition flipName :: "(nat \<Rightarrow> byte) \<Rightarrow> nat \<Rightarrow> string \<Rightarrow> string" where
  "flipName rnd k name = Join ''.'' (flipLabels rnd k (Split (CHR ''.'') name))"

definition name_size :: "string \<Rightarrow> nat" where
  "name_size name = length (concat (Split (CHR ''.'') name))"

fun flipQuestions :: "(nat \<Rightarrow> byte) \<Rightarrow> nat \<Rightarrow> (string \<times> u16) list \<Rightarrow> (string \<times> u16) list" where
  "flipQuestions rnd k [] = []"
| "flipQuestions rnd k ((name, t) # qs) = (flipName rnd k name, t) # flipQuestions rnd (k + name_size name) qs"

lemma length_flipText [simp]: "length (flipText rnd k l) = length l"
  by (simp add: flipText_def)

lemma flipText_Nil [simp]: "flipText rnd k l = [] \<longleftrightarrow> l = []"
  using length_flipText [of rnd k l] by (metis length_0_conv)

lemma label_wire_flipText: "label_wire (flipText rnd k l) = of_nat (length l) # map2 flipCase (map rnd [k..<k + length l]) (bytes_of l)"
  by (simp add: label_wire_def) (simp add: flipText_def)

lemma flipLabels_Nil [simp]: "flipLabels rnd k ls = [] \<longleftrightarrow> ls = []"
  by (cases ls) simp_all

lemma flipLabels_wire: "wire_labels (flipLabels rnd k ls) = wire_labels ls"
  by (induction rnd k ls rule: flipLabels.induct) (simp_all add: wire_labels_def)

lemma length_flip_wire: "length (concat (map label_wire (flipLabels rnd k ls))) = length (concat (map label_wire ls))"
  by (induction rnd k ls rule: flipLabels.induct) (simp_all add: label_wire_def)

lemma in_bytes_of: "(of_char c :: byte) \<in> set (bytes_of s) \<longleftrightarrow> c \<in> set s"
proof -
  have "inj (of_char :: char \<Rightarrow> byte)"
  proof (rule injI)
    show "c = d" if "(of_char c :: byte) = of_char d" for c d using that bytes_of_eq_iff [of "[c]" "[d]"] by (simp add: bytes_of_def)
  qed
  then show ?thesis by (simp add: bytes_of_def inj_image_mem_iff)
qed

lemma dot_byte: "(of_char CHR ''.'' :: byte) = 46"
  by (simp add: of_char_def)

lemma flipText_no_dot: "CHR ''.'' \<notin> set l \<Longrightarrow> CHR ''.'' \<notin> set (flipText rnd k l)"
  using in_bytes_of [of "CHR ''.''" l] in_bytes_of [of "CHR ''.''" "flipText rnd k l"]
  by (auto simp: dot_byte flipText_def flipCase_dot set_zip in_set_conv_nth)

lemma encodeName_written:
  "wire_labels ls \<Longrightarrow> encodeName rnd k (length pre) (pre @ concat (map label_wire ls) @ 0 # post)
    = (k + length (concat ls), length pre + length (concat (map label_wire ls)) + 1,
       pre @ concat (map label_wire (flipLabels rnd k ls)) @ 0 # post)"
proof (induction ls arbitrary: k pre)
  case Nil
  then show ?case by (subst encodeName.simps) simp
next
  case (Cons l ls)
  let ?rest = "concat (map label_wire ls) @ 0 # post" and ?n = "of_nat (length l) :: byte"
    and ?l = "map2 flipCase (map rnd [k..<k + length l]) (bytes_of l)"
  have l: "0 < length l" "length l \<le> 63" "wire_labels ls" using Cons.prems by (auto simp: wire_labels_def)
  then have u: "unat ?n = length l" by (simp add: unat_of_nat)
  then have n: "?n \<noteq> 0" "?n AND 0xc0 \<noteq> 0xc0" using l len_not_pointer [of ?n] by (auto simp: unat_eq_0 [symmetric])
  have w: "label_wire l = ?n # bytes_of l" by (simp add: label_wire_def)
  have "flipLabel (map rnd [k..<k + length l]) (length pre + 1) (pre @ ?n # bytes_of l @ ?rest) = pre @ ?n # ?l @ ?rest"
    by (subst flipLabel_form) simp_all
  then have "encodeName rnd k (length pre) (pre @ label_wire l @ ?rest)
      = encodeName rnd (k + length l) (length (pre @ ?n # ?l)) ((pre @ ?n # ?l) @ ?rest)"
    using n u by (subst encodeName.simps) (simp add: w Let_def)
  with Cons.IH [of "k + length l" "pre @ ?n # ?l"] l(3) show ?case
    by (simp add: w label_wire_flipText)
qed

lemma flipLabels_no_dot: "\<forall>l\<in>set ls. CHR ''.'' \<notin> set l \<Longrightarrow> \<forall>l\<in>set (flipLabels rnd k ls). CHR ''.'' \<notin> set l"
  by (induction rnd k ls rule: flipLabels.induct) (simp_all add: flipText_no_dot)

lemma Split_flipName: "Split (CHR ''.'') (flipName rnd k name) = flipLabels rnd k (Split (CHR ''.'') name)"
  unfolding flipName_def
  by (rule Split_Join) (simp, rule flipLabels_no_dot, simp add: Split_parts)

lemma encodeName_question:
  assumes "wire_labels (Split (CHR ''.'') name)"
  shows "encodeName rnd k (length pre) (pre @ name_wire name @ post)
    = (k + name_size name, length (pre @ name_wire name), pre @ name_wire (flipName rnd k name) @ post)"
  using encodeName_written [OF assms, of rnd k pre post] assms
  by (simp add: name_wire_def name_wire_labels Split_flipName flipLabels_wire name_size_def)

lemma length_name_wire_flip:
  "wire_labels (Split (CHR ''.'') name) \<Longrightarrow> length (name_wire (flipName rnd k name)) = length (name_wire name)"
  using length_flip_wire [of rnd k] by (simp add: name_wire_def name_wire_labels Split_flipName flipLabels_wire)

lemma encodeQuestions_written:
  "\<forall>q\<in>set qs. wire_labels (Split (CHR ''.'') (fst q)) \<Longrightarrow>
     encodeQuestions rnd (length qs) k (length pre) (pre @ concat (map question_wire qs) @ post)
       = pre @ concat (map question_wire (flipQuestions rnd k qs)) @ post"
proof (induction qs arbitrary: k pre)
  case (Cons q qs)
  obtain name t where q: "q = (name, t)" by (cases q)
  let ?tc = "be16 t @ be16 DnsClassIn" and ?rest = "concat (map question_wire qs) @ post"
  have w: "wire_labels (Split (CHR ''.'') name)" using Cons.prems by (simp add: q)
  have "encodeName rnd k (length pre) (pre @ name_wire name @ ?tc @ ?rest)
      = (k + name_size name, length (pre @ name_wire name), pre @ name_wire (flipName rnd k name) @ ?tc @ ?rest)"
    by (rule encodeName_question [OF w])
  moreover have "question_wire (n, t) = name_wire n @ ?tc" for n by (simp add: question_wire_def)
  ultimately show ?case
    using Cons.IH [of "k + name_size name" "pre @ name_wire (flipName rnd k name) @ ?tc"] Cons.prems
    by (simp add: q length_name_wire_flip [OF w] add.assoc)
qed simp

lemma flipQuestions_wire:
  "\<forall>q\<in>set qs. wire_labels (Split (CHR ''.'') (fst q)) \<Longrightarrow>
   \<forall>q\<in>set (flipQuestions rnd k qs). wire_labels (Split (CHR ''.'') (fst q))"
  by (induction rnd k qs rule: flipQuestions.induct) (simp_all add: Split_flipName flipLabels_wire)

lemma length_flipQuestions [simp]: "length (flipQuestions rnd k qs) = length qs"
  by (induction rnd k qs rule: flipQuestions.induct) simp_all

lemma names_parsed_questions: "map pqName (parsed_questions off qs) = map fst qs"
  by (induction off qs rule: parsed_questions.induct) simp_all

lemma Apply0x20Encoding_written:
  assumes "length hdr = 12" "unat (get16 hdr 4) = length qs" "\<forall>q\<in>set qs. wire_labels (Split (CHR ''.'') (fst q))"
  shows "Apply0x20Encoding rnd (hdr @ concat (map question_wire qs) @ post)
    = (hdr @ concat (map question_wire (flipQuestions rnd 0 qs)) @ post, map fst (flipQuestions rnd 0 qs), [])"
  using encodeQuestions_written [OF assms(3), of rnd 0 hdr post] assms
    extractLoop_encoded [OF flipQuestions_wire [OF assms(3)], of rnd 0 hdr post]
  by (simp add: Apply0x20Encoding_def get16_append ExtractQuestions_def names_parsed_questions)

text \<open>Every spelling is the selection of some entropy.\<close>

definition entropy_for :: "string \<Rightarrow> nat \<Rightarrow> byte" where
  "entropy_for text i = (if upper (bytes_of text ! i) then 1 else 0)"

lemma fold_map2: "length es = length b \<Longrightarrow> map fold_case (map2 flipCase es b) = map fold_case b"
  by (induction es b rule: list_induct2) simp_all

lemma same_spelling_flipText: "same_spelling (flipText rnd k l) l"
  using fold_map2 [of "map rnd [k..<k + length l]" "bytes_of l"] by (simp add: same_spelling_def flipText_def)

lemma map2_target:
  "map fold_case b = map fold_case b' \<Longrightarrow> map2 flipCase (map (\<lambda>d. if upper d then 1 else 0) b') b = b'"
proof (induction b arbitrary: b')
  case (Cons c b)
  then obtain d ds where "b' = d # ds" by (cases b') simp_all
  with Cons flipCase_target [of c d] show ?case by simp
qed simp

lemma same_spelling_length: "same_spelling a b \<Longrightarrow> length a = length b"
  unfolding same_spelling_def by (metis length_bytes_of length_map)

lemma entropy_for_part:
  "length u = k \<Longrightarrow> map (entropy_for (u @ l @ v)) [k..<k + length l] = map (\<lambda>d. if upper d then 1 else 0) (bytes_of l)"
  by (rule nth_equalityI) (simp_all add: entropy_for_def bytes_of_def nth_append)

lemma flipText_target: "same_spelling l' l \<Longrightarrow> length u = k \<Longrightarrow> flipText (entropy_for (u @ l' @ v)) k l = l'"
  using entropy_for_part [of u k l' v] map2_target [of "bytes_of l" "bytes_of l'"] same_spelling_length [of l' l]
  by (simp add: flipText_def same_spelling_def)

lemma fold_case_dot: "fold_case c = 46 \<longleftrightarrow> c = 46"
  by (metis flipCase_dot flipCase_fold)

lemma Split_spelling: "same_spelling a b \<Longrightarrow> list_all2 same_spelling (Split (CHR ''.'') a) (Split (CHR ''.'') b)"
proof (induction a arbitrary: b)
  case (Cons x a)
  then obtain y b' where b: "b = y # b'" by (cases b) (simp_all add: same_spelling_def bytes_of_def)
  have xy: "fold_case (of_char x) = fold_case (of_char y)" "same_spelling a b'"
    using Cons.prems by (simp_all add: b same_spelling_def bytes_of_def)
  have dot: "c = CHR ''.'' \<longleftrightarrow> fold_case (of_char c) = 46" for c
    using in_bytes_of [of c "''.''"] by (simp add: fold_case_dot bytes_of_def dot_byte)
  obtain u us v vs where *: "Split (CHR ''.'') a = u # us" "Split (CHR ''.'') b' = v # vs"
    by (metis Split_not_Nil list.exhaust)
  show ?case using Cons.IH [OF xy(2)] xy(1) dot [of x] dot [of y]
    by (auto simp: b * same_spelling_def bytes_of_def)
qed (simp add: same_spelling_def bytes_of_def)

lemma Join_spelling: "list_all2 same_spelling as bs \<Longrightarrow> same_spelling (Join ''.'' as) (Join ''.'' bs)"
proof (induction rule: list_all2_induct)
  case (Cons a as b bs)
  then show ?case
    by (cases as; cases bs) (auto simp: same_spelling_def bytes_of_def)
qed (simp add: same_spelling_def)

lemma flipLabels_spelling: "list_all2 same_spelling (flipLabels rnd k ls) ls"
  by (induction rnd k ls rule: flipLabels.induct) (simp_all add: same_spelling_flipText)

lemma flipQuestions_spelling:
  "list_all2 same_spelling (map fst (flipQuestions rnd k qs)) (map fst qs) \<and> map snd (flipQuestions rnd k qs) = map snd qs"
proof (induction rnd k qs rule: flipQuestions.induct)
  case (2 rnd k name t qs)
  have "same_spelling (flipName rnd k name) name"
    using Join_spelling [OF flipLabels_spelling [of rnd k "Split (CHR ''.'') name"]] by (simp add: flipName_def)
  with 2 show ?case by simp
qed simp

lemma flipLabels_target:
  "list_all2 same_spelling ls' ls \<Longrightarrow> length u = k \<Longrightarrow> flipLabels (entropy_for (u @ concat ls' @ v)) k ls = ls'"
proof (induction ls' ls arbitrary: u k rule: list_all2_induct)
  case (Cons l' ls' l ls)
  then show ?case
    using flipText_target [of l' l u k "concat ls' @ v"] Cons.IH [of "u @ l'" "k + length l"] same_spelling_length [of l' l]
    by simp
qed simp

lemma length_concat_spelling: "list_all2 same_spelling as bs \<Longrightarrow> length (concat as) = length (concat bs)"
  by (induction rule: list_all2_induct) (simp_all add: same_spelling_length)

lemma flipQuestions_target:
  "list_all2 same_spelling names (map fst qs) \<Longrightarrow> length u = k \<Longrightarrow>
     flipQuestions (entropy_for (u @ concat (map (\<lambda>n. concat (Split (CHR ''.'') n)) names))) k qs = zip names (map snd qs)"
proof (induction qs arbitrary: names u k)
  case (Cons q qs)
  then obtain n ns where names: "names = n # ns" "same_spelling n (fst q)" "list_all2 same_spelling ns (map fst qs)"
    by (cases names) simp_all
  let ?n = "concat (Split (CHR ''.'') n)" and ?ns = "concat (map (\<lambda>n. concat (Split (CHR ''.'') n)) ns)"
  have size: "length ?n = name_size (fst q)"
    using length_concat_spelling [OF Split_spelling [OF names(2)]] by (simp add: name_size_def)
  have "flipName (entropy_for (u @ ?n @ ?ns)) k (fst q) = n"
    using flipLabels_target [OF Split_spelling [OF names(2)] Cons.prems(2)] by (simp add: flipName_def)
  with Cons.IH [OF names(3), of "u @ ?n" "k + name_size (fst q)"] size Cons.prems(2) show ?case
    by (cases q) (simp add: names(1))
qed simp

text \<open>
  C27: on a well-formed query, the packets and expected names that \<^verbatim>\<open>Apply0x20Encoding\<close> can produce are
  exactly the query with its names respelled in letter case, and these names: the header, the types,
  the classes and what follows the questions are kept, only the case of ASCII letters changes, and
  every spelling is the result of some random bytes.
\<close>

theorem Apply0x20Encoding_spellings:
  assumes "length hdr = 12" "unat (get16 hdr 4) = length qs"
    and "list_all (\<lambda>q. list_all (\<lambda>l. 0 < length l \<and> length l \<le> 63) (Split (CHR ''.'') (fst q))) qs"
  shows "range (\<lambda>rnd. Apply0x20Encoding rnd (hdr @ concat (map question_wire qs) @ post))
    = {(hdr @ concat (map question_wire (zip names (map snd qs))) @ post, names, []) |names.
        list_all2 same_spelling names (map fst qs)}" (is "_ = ?S")
proof -
  have w: "\<forall>q\<in>set qs. wire_labels (Split (CHR ''.'') (fst q))" using assms(3) by (simp add: list_all_iff wire_labels_def)
  note form = Apply0x20Encoding_written [OF assms(1,2) w, of _ post]
  have "Apply0x20Encoding rnd (hdr @ concat (map question_wire qs) @ post) \<in> ?S" for rnd
    using flipQuestions_spelling [of rnd 0 qs] zip_map_fst_snd [of "flipQuestions rnd 0 qs"]
    by (auto simp: form intro!: exI [of _ "map fst (flipQuestions rnd 0 qs)"])
  moreover have "p \<in> range (\<lambda>rnd. Apply0x20Encoding rnd (hdr @ concat (map question_wire qs) @ post))" if "p \<in> ?S" for p
  proof -
    from that obtain names where n: "list_all2 same_spelling names (map fst qs)"
      and p: "p = (hdr @ concat (map question_wire (zip names (map snd qs))) @ post, names, [])" by auto
    then show ?thesis using flipQuestions_target [OF n, of "[]" 0] list_all2_lengthD [OF n]
      by (intro range_eqI [of _ _ "entropy_for (concat (map (\<lambda>n. concat (Split (CHR ''.'') n)) names))"]) (simp add: form)
  qed
  ultimately show ?thesis by blast
qed

theorem Apply0x20Encoding_spellings_witness:
  "([0, 1, 1, 0, 0, 1, 0, 0, 0, 0, 0, 0] @ concat (map question_wire [(''eX.iO'', 1)]) @ [], [''eX.iO''], [])
    \<in> range (\<lambda>rnd. Apply0x20Encoding rnd ([0, 1, 1, 0, 0, 1, 0, 0, 0, 0, 0, 0] @ concat (map question_wire [(''ex.io'', 1)]) @ []))"
proof -
  have h: "length [0, 1, 1, 0, 0, 1, 0, 0, 0, 0, 0, 0 :: byte] = 12"
    "unat (get16 [0, 1, 1, 0, 0, 1, 0, 0, 0, 0, 0, 0] 4) = length [(''ex.io'', 1 :: u16)]"
    "list_all (\<lambda>q. list_all (\<lambda>l. 0 < length l \<and> length l \<le> 63) (Split (CHR ''.'') (fst q))) [(''ex.io'', 1 :: u16)]"
    by code_simp+
  have "list_all2 same_spelling [''eX.iO''] (map fst [(''ex.io'', 1 :: u16)])"
    by (simp add: same_spelling_def) code_simp
  then show ?thesis unfolding Apply0x20Encoding_spellings [OF h] by (intro CollectI exI [of _ "[''eX.iO'']"]) simp
qed

section \<open>The forwarded query\<close>

lemma AppendEdns0DoBit_form:
  "AppendEdns0DoBit query =
     (if 12 \<le> length query \<and> get16 query 10 = 0
      then take 10 query @ [0, 1] @ drop 12 query @ [0, 0, 41, 0x10, 0, 0, 0, 0x80, 0, 0, 0] else query)"
proof (cases "12 \<le> length query \<and> get16 query 10 = 0")
  case True
  let ?e = "WriteBytes query (NewDnsWireFormat None)"
  let ?e' = "?e\<lparr>Buf := put_bytes 10 (be16 1) (Buf ?e)\<rparr>"
  have e: "sink_ok ?e" "Finish ?e = query" by (simp_all add: sink_simps)
  have q: "query = take 10 query @ take 2 (drop 10 query) @ drop 12 query" (is "_ = ?a @ ?c @ ?d")
    using take_add [of 10 2 query] by simp (metis append.assoc append_take_drop_id)
  have len: "length ?a = 10" "length (be16 1) = length ?c" using True by auto
  have f: "Finish ?e' = ?a @ be16 1 @ ?d" using Finish_patch [OF e(1) _ len, of ?d] e(2) q by simp
  have "length query \<le> length (Buf ?e)" using e(2) by (metis Finish_def length_take min.cobounded1)
  then have "sink_ok ?e'" using e(1) True by (simp add: sink_ok_def)
  note f this
  then show ?thesis using True
    by (simp add: AppendEdns0DoBit_def Let_def sink_simps DnssecDoBit_def DnsTypeOPT_def be16_def be32_def)
qed (auto simp: AppendEdns0DoBit_def word_gt_0)

lemma length_Apply0x20: "Apply0x20Encoding rnd query = (enc, names, log) \<Longrightarrow> length enc = length query"
  using encodeQuestions_keeps [of rnd "unat (get16 query 4)" 0 12 query] map_eq_imp_length_eq
  by (auto simp: Apply0x20Encoding_def Let_def split: if_splits prod.splits)

text \<open>
  A query without additional records is forwarded with the additional count set to one and
  followed by an OPT record of a 4096 byte payload with the DNSSEC bit set; every other query is
  forwarded as it is.
\<close>

theorem AppendEdns0DoBit_wire:
  "AppendEdns0DoBit query =
     (if 12 \<le> length query \<and> get16 query 10 = 0
      then take 10 query @ [0, 1] @ drop 12 query @ [0, 0, 41, 0x10, 0, 0, 0, 0x80, 0, 0, 0] else query)"
  by (rule AppendEdns0DoBit_form)

end
