(* ===== verification/DnsForwarding.thy ===== *)
theory DnsForwarding
  imports DnsSpelling "HOL-Library.Multiset"
begin

text \<open>
  The handler as a transition system: its steps are the datagrams, connections and HTTPS requests it
  serves, the answers of the resolver, the timers, configuration changes and the shutdown, in any
  order.  The invariant bounds the table of pending forwards and keeps the limiter alive; from it
  follow that every datagram is handled and that no client gets more answers to forwarded queries
  than it sent.
\<close>

section \<open>Invariant\<close>

definition pendings :: "DnsHandler \<Rightarrow> (u16, PendingUdpQuery) gomap" where
  "pendings h = (case pendingUdpQueries h of None \<Rightarrow> [] | Some m \<Rightarrow> m)"

definition limiter_alive :: "DnsHandler \<Rightarrow> bool" where
  "limiter_alive h \<longleftrightarrow> (\<forall>p. rateLimiter h = Some p \<longrightarrow> p < length (limiters h)
     \<and> buckets (limiters h ! p) \<noteq> None \<and> \<not> stopClosed (limiters h ! p))"

definition hnd_inv :: "DnsHandler \<Rightarrow> bool" where
  "hnd_inv h \<longleftrightarrow> srv_inv (hServer h) \<and> map_wf (pendings h) \<and> length (pendings h) \<le> 2000 \<and> maxUdpForwards h = 2000
     \<and> (stopChan h \<longrightarrow> pendingUdpQueries h = None)
     \<and> (\<not> stopChan h \<longrightarrow> pendingUdpQueries h \<noteq> None \<and> limiter_alive h)"

text \<open>The loop that draws identifiers ends as soon as one that is not pending is drawn.\<close>

lemma freshID_found: "map_of m (ids (k + n)) = None \<Longrightarrow> \<exists>x. freshID ids k m = Some x"
proof (induction n arbitrary: k)
  case 0
  then show ?case by (subst freshID.simps) simp
next
  case (Suc n)
  from Suc.IH [of "k + 1"] Suc.prems show ?case
    by (cases "map_of m (ids k) = None") (simp_all add: freshID.simps [of ids k])
qed

lemma freshID_fresh: "freshID ids k m = Some x \<Longrightarrow> map_of m x = None"
  by (rule freshID.raw_induct [of "\<lambda>ids k m x. map_of m x = None" ids k m x]) (auto split: if_splits)

lemma fresh_exists: "length m \<le> 2000 \<Longrightarrow> \<exists>x :: u16. map_of m x = None"
proof (rule ccontr)
  assume "length m \<le> 2000" "\<nexists>x. map_of m x = None"
  then have "UNIV \<subseteq> fst ` set m" by (auto simp: map_of_eq_None_iff)
  then have "card (UNIV :: u16 set) \<le> card (set (map fst m))" by (intro card_mono) simp_all
  also have "\<dots> \<le> length m" using card_length [of "map fst m"] by simp
  finally show False using \<open>length m \<le> 2000\<close> by (simp add: card_word)
qed

lemma freshID_returns: "length m \<le> 2000 \<Longrightarrow> surj ids \<Longrightarrow> \<exists>x. freshID ids 0 m = Some x"
  using fresh_exists [of m] freshID_found [of m ids 0] by (metis add_0 surjD)

lemma pendings_simps [simp]:
  "pendings (h\<lparr>hServer := s\<rparr>) = pendings h" "pendings (h\<lparr>limiters := ls\<rparr>) = pendings h"
  "pendings (h\<lparr>activeTcpConns := a\<rparr>) = pendings h" "pendings (h\<lparr>pendingUdpQueries := Some m\<rparr>) = m"
  "pendings (h\<lparr>pendingUdpQueries := None\<rparr>) = []"
  by (simp_all add: pendings_def)

lemma pendings_drop [simp]: "pendings (dropPending i h) = map_del i (pendings h)"
  by (auto simp: pendings_def dropPending_def split: option.splits)

lemma pendingAt_of: "pendingAt i h = map_of (pendings h) i"
  by (auto simp: pendings_def pendingAt_def split: option.splits)

section \<open>Operations keep the invariant\<close>

lemma Allow_alive:
  assumes "buckets rl \<noteq> None"
  obtains ok rl' where "Allow order now ip rl = Ret (ok, rl')" "buckets rl' \<noteq> None" "stopClosed rl' = stopClosed rl"
  using assms
  by (fastforce simp: Allow_def startWindow_def evictExpiredOrOldest_def bucketMap_def Let_def split: option.splits if_splits)

lemma isRateLimited_serves:
  assumes "hnd_inv h" "\<not> stopChan h"
  obtains b ls where "isRateLimited order now ip h = Ret (b, h\<lparr>limiters := ls\<rparr>)" "hnd_inv (h\<lparr>limiters := ls\<rparr>)"
proof (cases "rateLimiter h")
  case None
  with assms that [of False "limiters h"] show ?thesis by (simp add: isRateLimited_def)
next
  case (Some p)
  with assms have p: "p < length (limiters h)" "buckets (limiters h ! p) \<noteq> None" "\<not> stopClosed (limiters h ! p)"
    by (simp_all add: hnd_inv_def limiter_alive_def)
  from Allow_alive [OF p(2)] obtain ok rl where a: "Allow order now ip (limiters h ! p) = Ret (ok, rl)"
    "buckets rl \<noteq> None" "stopClosed rl = stopClosed (limiters h ! p)" by metis
  then have "hnd_inv (h\<lparr>limiters := (limiters h)[p := rl]\<rparr>)"
    using assms Some p by (simp add: hnd_inv_def limiter_alive_def)
  with a(1) Some that show ?thesis by (simp add: isRateLimited_def allowAt_def)
qed

lemma serverResolve_serves:
  assumes "hnd_inv h"
  obtains resp log s where "serverResolve L e i query ip h = Some (Ret (resp, log, h\<lparr>hServer := s\<rparr>))"
    "hnd_inv (h\<lparr>hServer := s\<rparr>)" "\<forall>r. resp = Some r \<longrightarrow> reply_ok r \<and> take 2 r = take 2 query"
proof -
  have "srv_inv (hServer h)" using assms by (simp add: hnd_inv_def)
  from Resolve_replies [OF this, of query L "eNow e i" "eLater e i" ip]
  obtain resp log s where "Resolve L (eNow e i) (eLater e i) query ip (hServer h) = Some (Ret (resp, log, s))" "srv_inv s"
    "\<forall>r. resp = Some r \<longrightarrow> reply_ok r \<and> take 2 r = take 2 query" by (auto simp: replies_def)
  with assms that show ?thesis by (simp add: serverResolve_def hnd_inv_def limiter_alive_def)
qed

text \<open>What a forward does: nothing, or one query to the resolver and one new entry of the table.\<close>

definition forwarded :: "golib \<Rightarrow> bytes \<Rightarrow> UDPAddr \<Rightarrow> DnsHandler \<Rightarrow> udp_effect list \<Rightarrow> DnsHandler \<Rightarrow> bool" where
  "forwarded L data raddr h efs h' \<longleftrightarrow>
     (efs = [] \<and> h' = h)
     \<or> (\<exists>i p up q d. efs = [UpstreamQuery up q i d] \<and> map_of (pendings h) i = None \<and> length (pendings h) < 2000
          \<and> pendingUdpQueries h \<noteq> None
          \<and> h' = h\<lparr>pendingUdpQueries := Some (map_put i p (pendings h))\<rparr> \<and> RemoteAddr p = raddr
          \<and> OriginalID p = get16 data 0 \<and> take 2 q = be16 i \<and> wanAllowed L (IPString (uaIP raddr)) (scFirewall (hCfg h)))"

lemma take_Append: "take 2 (AppendEdns0DoBit q) = take 2 q"
  by (auto simp: AppendEdns0DoBit_form)

lemma forward_refused:
  assumes "fallbackDns h = [] \<or> \<not> wanAllowed L (IPString (uaIP raddr)) (scFirewall (hCfg h))
    \<or> int (length (pendings h)) \<ge> maxUdpForwards h \<or> length data < 2"
  shows "\<exists>log. forwardUdpQuery L e data raddr h = Some (Ret ([], log, h))"
  using assms unfolding forwardUdpQuery_def Let_def pendings_def [symmetric] by auto

lemma forward_accepted:
  assumes "fallbackDns h \<noteq> []" "wanAllowed L (IPString (uaIP raddr)) (scFirewall (hCfg h))"
    "int (length (pendings h)) < maxUdpForwards h" "2 \<le> length data"
    and a: "Apply0x20Encoding (eRand e) data = (enc, names, alog)"
  shows "forwardUdpQuery L e data raddr h =
    (case freshID (eIds e) 0 (pendings h) of
       None \<Rightarrow> None
     | Some i \<Rightarrow>
        (let enc = put_bytes 0 (be16 i) enc; held = (if length data < 12 then enc else data) in
         if \<not> eResolves e (fallbackDns h @ '':53'') then Some (Ret ([], alog, h))
         else if pendingUdpQueries h = None then Some Panic
         else Some (Ret ([UpstreamQuery (fallbackDns h @ '':53'') (AppendEdns0DoBit enc) i held], alog,
                h\<lparr>pendingUdpQueries := Some (map_put i \<lparr>RemoteAddr = raddr, OriginalID = get16 data 0,
                   ExpectedNames = names, OriginalQuery = held\<rparr> (pendings h))\<rparr>))))"
  using assms(1-4) unfolding forwardUdpQuery_def Let_def a prod.case
  by (cases "pendingUdpQueries h"; cases "freshID (eIds e) 0 (pendings h)") (simp_all add: pendings_def)

lemma forward_cases:
  assumes inv: "hnd_inv h" and fwd: "forwardUdpQuery L e data raddr h = Some (Ret (efs, log, h'))"
  shows "forwarded L data raddr h efs h'"
proof (cases "fallbackDns h = [] \<or> \<not> wanAllowed L (IPString (uaIP raddr)) (scFirewall (hCfg h))
    \<or> int (length (pendings h)) \<ge> maxUdpForwards h \<or> length data < 2")
  case True
  from forward_refused [OF this, of e] fwd show ?thesis by (auto simp: forwarded_def)
next
  case False
  obtain enc names alog where a: "Apply0x20Encoding (eRand e) data = (enc, names, alog)"
    by (cases "Apply0x20Encoding (eRand e) data")
  then have len: "length enc = length data" by (rule length_Apply0x20)
  from False have room: "length (pendings h) < 2000" using inv by (simp add: hnd_inv_def)
  have "forwardUdpQuery L e data raddr h \<noteq> None" using fwd by simp
  then obtain i where i: "freshID (eIds e) 0 (pendings h) = Some i"
    using False forward_accepted [OF _ _ _ _ a, of h L raddr] by (cases "freshID (eIds e) 0 (pendings h)") simp_all
  have put: "take 2 (put_bytes 0 (be16 i) enc) = be16 i" using False len by (simp add: put_bytes_def)
  note acc = forward_accepted [of h L raddr data e, OF _ _ _ _ a]
  show ?thesis
  proof (cases "eResolves e (fallbackDns h @ '':53'')")
    case True
    then obtain m where m: "pendingUdpQueries h = Some m"
      using fwd False acc by (cases "pendingUdpQueries h") (simp_all add: i Let_def)
    let ?enc = "put_bytes 0 (be16 i) enc"
    let ?held = "if length data < 12 then ?enc else data"
    let ?p = "\<lparr>RemoteAddr = raddr, OriginalID = get16 data 0, ExpectedNames = names, OriginalQuery = ?held\<rparr>"
    have "efs = [UpstreamQuery (fallbackDns h @ '':53'') (AppendEdns0DoBit ?enc) i ?held]"
      "h' = h\<lparr>pendingUdpQueries := Some (map_put i ?p (pendings h))\<rparr>"
      using True fwd False acc by (simp_all add: i m Let_def)
    then show ?thesis unfolding forwarded_def
      using room put freshID_fresh [OF i] False
      by (intro disjI2, intro exI [of _ i] exI [of _ ?p] exI [of _ "fallbackDns h @ '':53''"] exI [of _ "AppendEdns0DoBit ?enc"]
          exI [of _ ?held]) (simp add: take_Append m)
  next
    case no_address: False
    then show ?thesis using fwd False acc by (simp add: i Let_def forwarded_def)
  qed
qed

lemma forward_serves:
  assumes "hnd_inv h" "\<not> stopChan h" "surj (eIds e)"
  shows "\<exists>efs log h'. forwardUdpQuery L e data raddr h = Some (Ret (efs, log, h'))"
proof (cases "fallbackDns h = [] \<or> \<not> wanAllowed L (IPString (uaIP raddr)) (scFirewall (hCfg h))
    \<or> int (length (pendings h)) \<ge> maxUdpForwards h \<or> length data < 2")
  case True
  from forward_refused [OF this] show ?thesis by blast
next
  case False
  obtain enc names alog where a: "Apply0x20Encoding (eRand e) data = (enc, names, alog)"
    by (cases "Apply0x20Encoding (eRand e) data")
  obtain i where "freshID (eIds e) 0 (pendings h) = Some i"
    using freshID_returns [of "pendings h", OF _ assms(3)] assms(1) by (auto simp: hnd_inv_def)
  with False assms(1,2) show ?thesis
    using forward_accepted [OF _ _ _ _ a, of h L raddr] by (auto simp: Let_def hnd_inv_def)
qed

lemma forwarded_inv: "forwarded L data raddr h efs h' \<Longrightarrow> hnd_inv h \<Longrightarrow> hnd_inv h'"
  by (auto simp: forwarded_def hnd_inv_def length_put limiter_alive_def)

lemma hnd_inv_server: "hnd_inv h \<Longrightarrow> serverResolve L e i query ip h = Some (Ret (resp, log, h')) \<Longrightarrow>
    \<exists>s. h' = h\<lparr>hServer := s\<rparr> \<and> hnd_inv h'"
  by (rule serverResolve_serves [of h L e i query ip]) auto

text \<open>A datagram is answered at once, or forwarded, or dropped.\<close>

definition answered :: "golib \<Rightarrow> bytes \<Rightarrow> UDPAddr \<Rightarrow> DnsHandler \<Rightarrow> udp_effect list \<Rightarrow> DnsHandler \<Rightarrow> bool" where
  "answered L data raddr h efs h' \<longleftrightarrow>
     (\<exists>s. h' = h\<lparr>hServer := s\<rparr> \<and> (\<exists>r. efs = [WriteToUDP r raddr] \<and> (r = [] \<or> reply_ok r \<and> take 2 r = take 2 data)))
     \<or> (\<exists>s. forwarded L data raddr (h\<lparr>hServer := s\<rparr>) efs h')"

lemma error_reply: "nil_bytes (fst (GenerateErrorResponse q rcode)) = []
    \<or> reply_ok (nil_bytes (fst (GenerateErrorResponse q rcode))) \<and> take 2 (nil_bytes (fst (GenerateErrorResponse q rcode))) = take 2 q"
proof (cases "length q < 12")
  case True
  then show ?thesis by (simp add: GenerateErrorResponse_def nil_bytes_def)
next
  case False
  then obtain resp errs where "GenerateErrorResponse q rcode = (Some resp, errs)" "reply_ok resp" "take 2 resp = take 2 q"
    by (metis GenerateErrorResponse_reply not_less)
  then show ?thesis by (simp add: nil_bytes_def)
qed

lemma message_cases:
  assumes inv: "hnd_inv h" and msg: "handleUdpMessage L e data raddr h = Some (Ret (efs, log, h'))"
  shows "answered L data raddr h efs h' \<and> hnd_inv h'"
proof -
  obtain resp log0 s where r: "serverResolve L e 0 data (IPString (uaIP raddr)) h = Some (Ret (resp, log0, h\<lparr>hServer := s\<rparr>))"
    "hnd_inv (h\<lparr>hServer := s\<rparr>)" "\<forall>r. resp = Some r \<longrightarrow> reply_ok r \<and> take 2 r = take 2 data"
    by (rule serverResolve_serves [OF inv])
  show ?thesis
  proof (cases resp)
    case (Some b)
    then have "b \<noteq> []" using r(3) by (auto simp: reply_ok_def)
    with Some r msg show ?thesis by (auto simp: handleUdpMessage_def answered_def)
  next
    case None
    show ?thesis
    proof (cases "fallbackDns h = []")
      case True
      with None r msg show ?thesis
        using error_reply [of data DnsRcodeNxDomain] by (auto simp: handleUdpMessage_def answered_def split: prod.splits)
    next
      case False
      then obtain flog where "forwardUdpQuery L e data raddr (h\<lparr>hServer := s\<rparr>) = Some (Ret (efs, flog, h'))"
        using None r msg by (auto simp: handleUdpMessage_def)
      from forward_cases [OF r(2) this] forwarded_inv r(2) show ?thesis by (auto simp: answered_def)
    qed
  qed
qed

lemma message_serves:
  assumes inv: "hnd_inv h" "\<not> stopChan h" "surj (eIds e)"
  shows "\<exists>efs log h'. handleUdpMessage L e data raddr h = Some (Ret (efs, log, h'))"
proof -
  obtain resp log0 s where r: "serverResolve L e 0 data (IPString (uaIP raddr)) h = Some (Ret (resp, log0, h\<lparr>hServer := s\<rparr>))"
    "hnd_inv (h\<lparr>hServer := s\<rparr>)" by (rule serverResolve_serves [OF inv(1)])
  obtain efs log h' where "forwardUdpQuery L e data raddr (h\<lparr>hServer := s\<rparr>) = Some (Ret (efs, log, h'))"
    using forward_serves [OF r(2) _ inv(3), of L data raddr] inv(2) by auto
  with r(1) show ?thesis
    by (cases resp; cases "GenerateErrorResponse data DnsRcodeNxDomain") (auto simp: handleUdpMessage_def)
qed

section \<open>Answers of the resolver\<close>

lemma hnd_inv_drop: "hnd_inv h \<Longrightarrow> hnd_inv (dropPending i h)"
  using length_del [of "pendings h" i]
  by (auto simp: hnd_inv_def limiter_alive_def dropPending_def pendings_def split: option.splits)

lemma upstream_inv: "hnd_inv h \<Longrightarrow> handleUdpUpstreamResponse L e msg h = Ret (efs, log, h') \<Longrightarrow> hnd_inv h'"
  by (auto simp: handleUdpUpstreamResponse_def Let_def hnd_inv_drop split: if_splits option.splits)

lemma timeout_inv: "hnd_inv h \<Longrightarrow> udpTimeout i data h = (efs, log, h') \<Longrightarrow> hnd_inv h'"
  by (auto simp: udpTimeout_def hnd_inv_drop split: option.splits prod.splits)

lemma hnd_inv_upstream [simp]: "hnd_inv (h\<lparr>upstreamTcpConns := c\<rparr>) = hnd_inv h"
  by (simp add: hnd_inv_def limiter_alive_def pendings_def)

lemma pendings_upstream [simp]: "pendings (h\<lparr>upstreamTcpConns := c\<rparr>) = pendings h"
  by (simp add: pendings_def)

lemma forwardTcp_keeps:
  "forwardTcpQuery L e up query ip h = Ret (ws, log, h') \<Longrightarrow>
     h' = h \<or> h' = h\<lparr>upstreamTcpConns := removeAll up (upstreamTcpConns h)\<rparr>"
  by (auto simp: forwardTcpQuery_def Let_def split: prod.splits option.splits if_splits)

definition frame_len :: "bytes \<Rightarrow> nat" where
  "frame_len stream = unat (get16 stream 0)"

definition framed :: "bytes \<Rightarrow> bool" where
  "framed stream \<longleftrightarrow> 2 \<le> length stream \<and> frame_len stream \<noteq> 0 \<and> 2 + frame_len stream \<le> length stream"

lemma tcpLoop_end: "\<not> framed stream \<Longrightarrow> tcpLoop L e up i stream ip h = Some (Ret ([], [], h))"
  by (subst tcpLoop.simps) (auto simp: Let_def framed_def frame_len_def)

lemma frame_len_le: "frame_len stream \<le> 65535"
proof -
  have "unat (get16 stream 0) < 65536" by (rule order_less_le_trans [OF unsigned_less]) simp
  then show ?thesis by (simp add: frame_len_def)
qed

lemma framedD: "framed stream \<Longrightarrow> \<not> length stream < 2 \<and> frame_len stream \<noteq> 0 \<and> \<not> length stream - 2 < frame_len stream"
  by (auto simp: framed_def)

lemma tcpLoop_reply:
  assumes "framed stream" "r \<noteq> []"
    "serverResolve L e i (take (frame_len stream) (drop 2 stream)) ip h = Some (Ret (Some r, log, h1))"
  shows "tcpLoop L e up i stream ip h =
    (if eWriteOk e i then map_option (map_outcome (\<lambda>(ws, log', h). (prefixed r # ws, log @ log', h)))
        (tcpLoop L e up (i + 1) (drop (2 + frame_len stream) stream) ip h1)
     else Some (Ret ([], log, h1)))"
  using assms framedD [of stream] frame_len_le [of stream]
  by (subst tcpLoop.simps) (simp add: Let_def frame_len_def [symmetric])

lemma tcpLoop_forward:
  assumes "framed stream" "serverResolve L e i (take (frame_len stream) (drop 2 stream)) ip h = Some (Ret (None, log, h1))"
  shows "tcpLoop L e up i stream ip h =
    (if fallbackDns h1 \<noteq> [] then
       Some (map_outcome (\<lambda>(ws, log', h). (ws, log @ log', h)) (forwardTcpQuery L e up (take (frame_len stream) (drop 2 stream)) ip h1))
     else (case sendTcpError (take (frame_len stream) (drop 2 stream)) DnsRcodeNxDomain of
             (ws, errs) \<Rightarrow> Some (Ret (ws, log @ errs, h1))))"
  using assms framedD [of stream] frame_len_le [of stream]
  by (subst tcpLoop.simps) (simp add: Let_def frame_len_def [symmetric])

lemma tcpLoop_keeps:
  "hnd_inv h \<Longrightarrow> tcpLoop L e up i stream ip h = Some (Ret (ws, log, h')) \<Longrightarrow> hnd_inv h' \<and> pendings h' = pendings h"
proof (induction "length stream" arbitrary: stream i h ws log rule: less_induct)
  case less
  let ?q = "take (frame_len stream) (drop 2 stream)"
  obtain resp log0 s where r: "serverResolve L e i ?q ip h = Some (Ret (resp, log0, h\<lparr>hServer := s\<rparr>))"
    "hnd_inv (h\<lparr>hServer := s\<rparr>)" "\<forall>b. resp = Some b \<longrightarrow> reply_ok b \<and> take 2 b = take 2 ?q"
    by (rule serverResolve_serves [OF less.prems(1)])
  show ?case
  proof (cases "framed stream")
    case False
    then show ?thesis using less.prems tcpLoop_end by simp
  next
    case True
    then have shorter: "length (drop (2 + frame_len stream) stream) < length stream" by (auto simp: framed_def)
    show ?thesis
    proof (cases resp)
      case (Some b)
      then have "b \<noteq> []" using r(3) by (auto simp: reply_ok_def)
      with less.prems(2) Some r(1) True have "h' = h\<lparr>hServer := s\<rparr> \<or> (\<exists>ws log.
          tcpLoop L e up (i + 1) (drop (2 + frame_len stream) stream) ip (h\<lparr>hServer := s\<rparr>) = Some (Ret (ws, log, h')))"
        by (auto simp: tcpLoop_reply split: if_splits)
      then show ?thesis using less.hyps [OF shorter r(2)] r(2) by auto
    next
      case None
      with less.prems(2) r(1) True have "h' = h\<lparr>hServer := s\<rparr> \<or> (\<exists>ws log. forwardTcpQuery L e up ?q ip (h\<lparr>hServer := s\<rparr>) = Ret (ws, log, h'))"
        by (auto simp: tcpLoop_forward split: if_splits prod.splits)
      then show ?thesis using r(2) by (auto dest!: forwardTcp_keeps)
    qed
  qed
qed

lemma resolveQueryAsync_keeps:
  assumes "hnd_inv h" "resolveQueryAsync L e query ip h = Some (Ret (resp, log, h'))"
  shows "hnd_inv h' \<and> pendings h' = pendings h"
proof -
  obtain resp0 log0 s where r: "serverResolve L e 0 query ip h = Some (Ret (resp0, log0, h\<lparr>hServer := s\<rparr>))"
    "hnd_inv (h\<lparr>hServer := s\<rparr>)" by (rule serverResolve_serves [OF assms(1)])
  have "h' = h\<lparr>hServer := s\<rparr>"
    using assms(2) by (auto simp: resolveQueryAsync_def r(1) Let_def split: option.splits if_splits prod.splits)
  with r(2) show ?thesis by simp
qed

section \<open>Configuration changes and the shutdown\<close>

lemma destroyLimiter_cases:
  assumes "destroyLimiter h = Ret h'"
  shows "\<exists>ls. h' = h\<lparr>limiters := ls\<rparr> \<and> length ls = length (limiters h)"
proof (cases "rateLimiter h")
  case None
  with assms show ?thesis by (auto simp: destroyLimiter_def intro!: exI [of _ "limiters h"])
next
  case (Some p)
  with assms show ?thesis by (cases "Destroy (limiters h ! p)") (auto simp: destroyLimiter_def)
qed

lemma new_limiter_alive: "buckets (NewRateLimiter a b c) \<noteq> None \<and> \<not> stopClosed (NewRateLimiter a b c)"
  by (simp add: NewRateLimiter_def)

text \<open>A new configuration touches the settings and the limiter, and nothing of the traffic.\<close>

lemma UpdateConfig_cases:
  assumes "UpdateConfig cfg h = Ret h'"
  shows "hServer h' = hServer h \<and> pendingUdpQueries h' = pendingUdpQueries h \<and> stopChan h' = stopChan h
    \<and> maxUdpForwards h' = maxUdpForwards h \<and> limiter_alive h'"
proof -
  define h1 where "h1 = (let h = h\<lparr>hCfg := cfg, hPort := scPort cfg, fallbackDns := scFallbackDns cfg\<rparr>;
      h = (if scMaxTcpConnections cfg > 0 then h\<lparr>maxTcpConns := scMaxTcpConnections cfg\<rparr> else h)
    in if scTcpIdleTimeoutMs cfg > 0 then h\<lparr>idleTimeout := scTcpIdleTimeoutMs cfg * 1000000\<rparr> else h)"
  obtain h2 where d: "destroyLimiter h1 = Ret h2"
    using assms by (cases "destroyLimiter h1") (auto simp: UpdateConfig_def h1_def Let_def)
  then obtain ls where h2: "h2 = h1\<lparr>limiters := ls\<rparr>" by (auto dest: destroyLimiter_cases)
  have "h' = (if scRateLimitMaxRequests cfg > 0 then h1\<lparr>limiters := ls @ [NewRateLimiter (scRateLimitMaxRequests cfg)
      (scRateLimitWindowMs cfg) 100000], rateLimiter := Some (length ls)\<rparr> else h1\<lparr>limiters := ls, rateLimiter := None\<rparr>)"
    using assms d unfolding UpdateConfig_def Let_def h1_def [unfolded Let_def, symmetric] by (auto simp: h2)
  then show ?thesis
    using new_limiter_alive by (simp add: limiter_alive_def nth_append) (simp add: h1_def Let_def)
qed

lemma UpdateConfig_inv: "hnd_inv h \<Longrightarrow> UpdateConfig cfg h = Ret h' \<Longrightarrow> hnd_inv h'"
  by (auto dest!: UpdateConfig_cases simp: hnd_inv_def pendings_def)

lemma Stop_inv: "hnd_inv h \<Longrightarrow> Stop h = Ret h' \<Longrightarrow> hnd_inv h'"
  by (auto simp: Stop_def hnd_inv_def split: if_splits outcome.splits dest!: destroyLimiter_cases)

lemma isRateLimited_inv:
  assumes "hnd_inv h" "isRateLimited order now ip h = Ret (b, h')"
  shows "hnd_inv h' \<and> pendings h' = pendings h"
proof (cases "stopChan h")
  case True
  then show ?thesis using assms
    by (auto simp: isRateLimited_def allowAt_def hnd_inv_def split: if_splits option.splits outcome.splits)
next
  case False
  from isRateLimited_serves [OF assms(1) False, of order now ip] assms(2) show ?thesis by (metis Pair_inject outcome.inject pendings_simps(2))
qed

section \<open>Steps\<close>

text \<open>
  Each step is one activity of a goroutine that its locks make atomic, or a part of one: the limiter
  is asked before a message is handled, and other steps may come between.  A label lists the clients
  whose queries the step forwards and the clients it answers after a forward.
\<close>

definition forwards :: "UDPAddr \<Rightarrow> udp_effect list \<Rightarrow> UDPAddr list" where
  "forwards raddr efs = concat (map (\<lambda>ef. case ef of UpstreamQuery _ _ _ _ \<Rightarrow> [raddr] | _ \<Rightarrow> []) efs)"

definition deliveries :: "udp_effect list \<Rightarrow> UDPAddr list" where
  "deliveries efs = concat (map (\<lambda>ef. case ef of WriteToUDP _ a \<Rightarrow> [a] | _ \<Rightarrow> []) efs)"

inductive handler_step :: "golib \<Rightarrow> DnsHandler \<Rightarrow> UDPAddr list \<times> UDPAddr list \<Rightarrow> DnsHandler \<Rightarrow> bool" for L :: golib where
  limit: "isRateLimited order now ip h = Ret (b, h') \<Longrightarrow> handler_step L h ([], []) h'"
| message: "handleUdpMessage L e data raddr h = Some (Ret (efs, log, h')) \<Longrightarrow> handler_step L h (forwards raddr efs, []) h'"
| upstream: "handleUdpUpstreamResponse L e msg h = Ret (efs, log, h') \<Longrightarrow> handler_step L h ([], deliveries efs) h'"
| timeout: "udpTimeout i data h = (efs, log, h') \<Longrightarrow> handler_step L h ([], deliveries efs) h'"
| https: "resolveQueryAsync L e query ip h = Some (Ret (resp, log, h')) \<Longrightarrow> handler_step L h ([], []) h'"
| tcp: "tcpLoop L e up i stream ip h = Some (Ret (ws, log, h')) \<Longrightarrow> handler_step L h ([], []) h'"
| accept: "acceptConn conn h = (b, h') \<Longrightarrow> handler_step L h ([], []) h'"
| closed: "handler_step L h ([], []) (closeConn conn h)"
| collect: "p < length (limiters h) \<Longrightarrow> handler_step L h ([], []) (h\<lparr>limiters := (limiters h)[p := garbageCollect now (limiters h ! p)]\<rparr>)"
| reload: "UpdateConfig cfg h = Ret h' \<Longrightarrow> handler_step L h ([], []) h'"
| reload_server: "handler_step L h ([], []) (h\<lparr>hServer := ServerUpdateConfig cfg (hServer h)\<rparr>)"
| shutdown: "Stop h = Ret h' \<Longrightarrow> handler_step L h ([], []) h'"

inductive_cases handler_stepE: "handler_step L h l h'"

inductive handler_run :: "golib \<Rightarrow> DnsHandler \<Rightarrow> UDPAddr list \<times> UDPAddr list \<Rightarrow> DnsHandler \<Rightarrow> bool" for L :: golib where
  run_start: "handler_run L h ([], []) h"
| run_step: "handler_run L h (fs, ds) h' \<Longrightarrow> handler_step L h' (fs', ds') h'' \<Longrightarrow> handler_run L h (fs @ fs', ds @ ds') h''"

lemma new_handler_inv: "hnd_inv (NewDnsHandler (NewDevDnsServer cfg) cfg')"
  using srv_inv_new by (simp add: hnd_inv_def NewDnsHandler_def pendings_def limiter_alive_def NewRateLimiter_def)

lemma collect_alive: "buckets (garbageCollect now rl) = None \<longleftrightarrow> buckets rl = None" "stopClosed (garbageCollect now rl) = stopClosed rl"
  by (simp_all add: garbageCollect_def)

lemma step_inv: "hnd_inv h \<Longrightarrow> handler_step L h l h' \<Longrightarrow> hnd_inv h'"
proof (erule handler_step.cases, goal_cases)
  case (7 conn h b h')
  then show ?case by (auto simp: acceptConn_def hnd_inv_def limiter_alive_def split: if_splits)
next
  case (8 h conn)
  then show ?case by (simp add: closeConn_def hnd_inv_def limiter_alive_def)
next
  case (9 p h now)
  then show ?case by (auto simp: hnd_inv_def limiter_alive_def nth_list_update collect_alive simp del: not_None_eq)
next
  case (11 h cfg)
  then show ?case by (simp add: hnd_inv_def limiter_alive_def srv_inv_new)
qed (auto dest: isRateLimited_inv message_cases upstream_inv timeout_inv resolveQueryAsync_keeps tcpLoop_keeps UpdateConfig_inv Stop_inv)

interpretation handler: invariant_of "\<lambda>h. \<exists>cfg cfg'. h = NewDnsHandler (NewDevDnsServer cfg) cfg'"
  "\<lambda>h h'. \<exists>l. handler_step L h l h'" hnd_inv for L
  by unfold_locales (auto simp: new_handler_inv intro: step_inv)

section \<open>No client is answered more often than it asked\<close>

definition asked :: "DnsHandler \<Rightarrow> UDPAddr multiset" where
  "asked h = mset (map (\<lambda>(i, p). RemoteAddr p) (pendings h))"

lemma mset_map_put: "map_of m k = None \<Longrightarrow> mset (map f (map_put k v m)) = add_mset (f (k, v)) (mset (map f m))"
  by (induction m) (auto split: if_splits)

lemma map_del_absent: "map_of m k = None \<Longrightarrow> map_del k m = m"
  by (induction m) (auto split: if_splits)

lemma mset_map_del:
  "map_wf m \<Longrightarrow> map_of m k = Some v \<Longrightarrow> mset (map f m) = add_mset (f (k, v)) (mset (map f (map_del k m)))"
proof (induction m)
  case (Cons x m)
  then have "map_wf m" "fst x \<notin> fst ` set m" by (simp_all add: map_wf_def)
  then show ?case using Cons map_del_absent [of m "fst x"] by (cases x) (auto simp: map_of_eq_None_iff split: if_splits)
qed simp

lemma asked_simps [simp]:
  "asked (h\<lparr>hServer := s\<rparr>) = asked h" by (simp add: asked_def)

lemma asked_drop: "hnd_inv h \<Longrightarrow> map_of (pendings h) i = Some p \<Longrightarrow> asked h = add_mset (RemoteAddr p) (asked (dropPending i h))"
  using mset_map_del [of "pendings h" i p "\<lambda>(i, p). RemoteAddr p"] by (simp add: asked_def hnd_inv_def)

lemma asked_of: "pendings h' = pendings h \<Longrightarrow> asked h' = asked h"
  by (simp add: asked_def)

lemma forwarded_asked:
  assumes "forwarded L data raddr h efs h'"
  shows "asked h' = mset (forwards raddr efs) + asked h"
  using assms mset_map_put [of "pendings h" _ "\<lambda>(i, p). RemoteAddr p"]
  by (auto simp: forwarded_def forwards_def asked_def)

lemma answered_asked: "answered L data raddr h efs h' \<Longrightarrow> asked h' = mset (forwards raddr efs) + asked h"
  by (auto simp: answered_def forwarded_asked forwards_def)

lemma checkUdp_deliveries: "checkUdpResponse L e msg p h = Ret (efs, log) \<Longrightarrow> deliveries efs = [] \<or> deliveries efs = [RemoteAddr p]"
  by (auto simp: checkUdpResponse_def Let_def deliveries_def split: outcome.splits prod.splits bool.splits if_splits)

lemma upstream_asked:
  assumes "hnd_inv h" "handleUdpUpstreamResponse L e msg h = Ret (efs, log, h')"
  shows "mset (deliveries efs) + asked h' \<subseteq># asked h"
proof (cases "length msg < 2 \<or> pendingAt (get16 msg 0) h = None")
  case True
  with assms(2) show ?thesis by (auto simp: handleUdpUpstreamResponse_def deliveries_def Let_def split: if_splits)
next
  case False
  then obtain p where p: "pendingAt (get16 msg 0) h = Some p" by auto
  with False assms(2) have "h' = dropPending (get16 msg 0) h" "deliveries efs = [] \<or> deliveries efs = [RemoteAddr p]"
    by (auto simp: handleUdpUpstreamResponse_def Let_def dest: checkUdp_deliveries)
  with asked_drop [OF assms(1)] p show ?thesis by (auto simp: pendingAt_of)
qed

lemma timeout_asked:
  assumes "hnd_inv h" "udpTimeout i data h = (efs, log, h')"
  shows "mset (deliveries efs) + asked h' \<subseteq># asked h"
  using assms asked_drop [OF assms(1), of i]
  by (auto simp: udpTimeout_def pendingAt_of deliveries_def split: option.splits prod.splits)

lemma step_asked:
  assumes inv: "hnd_inv h" and step: "handler_step L h (fs, ds) h'"
  shows "mset ds + asked h' \<subseteq># mset fs + asked h"
  using step
proof cases
  case (message e data raddr efs log)
  with message_cases [OF inv] answered_asked show ?thesis by fastforce
next
  case (upstream e msg efs log)
  with upstream_asked [OF inv] show ?thesis by simp
next
  case (timeout i data efs log)
  with timeout_asked [OF inv] show ?thesis by simp
next
  case (reload cfg)
  then show ?thesis by (auto dest!: UpdateConfig_cases simp: asked_def pendings_def)
next
  case shutdown
  then show ?thesis by (auto simp: Stop_def asked_def split: if_splits outcome.splits)
next
  case (accept conn b)
  then show ?thesis by (auto simp: acceptConn_def asked_def split: if_splits)
qed (use inv in \<open>auto simp: asked_def closeConn_def dest: isRateLimited_inv resolveQueryAsync_keeps tcpLoop_keeps\<close>)

lemma run_asked:
  "handler_run L h (fs, ds) h' \<Longrightarrow> hnd_inv h \<Longrightarrow> mset ds + asked h' \<subseteq># mset fs + asked h \<and> hnd_inv h'"
proof (induction h l\<equiv>"(fs, ds)" h' arbitrary: fs ds rule: handler_run.induct)
  case (run_step h fs ds h' fs' ds' h'')
  then have *: "mset ds + asked h' \<subseteq># mset fs + asked h" "hnd_inv h'" by auto
  have "mset ds' + asked h'' \<subseteq># mset fs' + asked h'" by (rule step_asked [OF *(2) run_step(3)])
  then have "mset ds + mset ds' + asked h'' \<subseteq># mset fs' + (mset ds + asked h')" by (simp add: ac_simps)
  also have "\<dots> \<subseteq># mset fs' + (mset fs + asked h)" using *(1) by simp
  finally show ?case using run_step(4) step_inv [OF *(2) run_step(3)] by (auto simp: ac_simps)
qed simp

text \<open>
  C2: over any interleaving of datagrams, TCP, TLS and HTTPS requests, answers of the resolver
  (forged ones included), timers, configuration changes and a shutdown, a client receives at most as
  many answers through the forwarding path as queries of its were forwarded, counting those still
  pending, and at most 2000 forwards are pending at any moment.
\<close>

theorem forwards_answered_once:
  assumes "handler_run L (NewDnsHandler (NewDevDnsServer cfg) cfg') (fs, ds) h"
  shows "mset ds + mset (map (\<lambda>(i, p). RemoteAddr p) (pendings h)) \<subseteq># mset fs \<and> length (pendings h) \<le> 2000"
proof -
  have "asked (NewDnsHandler (NewDevDnsServer cfg) cfg') = {#}" by (simp add: asked_def pendings_def NewDnsHandler_def)
  with run_asked [OF assms new_handler_inv] show ?thesis by (simp add: asked_def hnd_inv_def)
qed

section \<open>What reaches a client\<close>

lemma ip_text_nonempty: "length b = 4 \<Longrightarrow> string4 b \<noteq> []" "length b = 16 \<Longrightarrow> IPString b \<noteq> []"
  using ParseIP_IPString4 [of b] ParseIP_IPString [of b] by (auto simp: IPString_def To4_def ParseIP_def ParseAddr_def)

lemma resolvedLoop_nonempty: "ip \<in> set (fst (resolvedLoop n f)) \<Longrightarrow> ip \<noteq> []"
proof (induction n arbitrary: f)
  case (Suc n)
  obtain x f1 where a: "ReadDomainName f = (x, f1)" by force
  obtain qtype f2 where b: "readUint16 f1 = (qtype, f2)" by force
  obtain rdlen f3 where c: "readUint16 (f2\<lparr>Offset := Offset f2 + 6\<rparr>) = (rdlen, f3)" by force
  let ?f = "f3\<lparr>Offset := Offset f3 + unat rdlen\<rparr>"
  have "ip \<in> set (fst (resolvedLoop n ?f))
      \<or> ip = string4 (take 4 (drop (Offset f3) (Buf f3))) \<and> Offset f3 + 4 \<le> length (Buf f3)
      \<or> ip = IPString (take 16 (drop (Offset f3) (Buf f3))) \<and> Offset f3 + 16 \<le> length (Buf f3)"
    using Suc.prems by (cases "resolvedLoop n ?f") (auto simp: a b c split: if_splits)
  then show ?case
    using Suc.IH [of ?f] ip_text_nonempty(1) [of "take 4 (drop (Offset f3) (Buf f3))"]
      ip_text_nonempty(2) [of "take 16 (drop (Offset f3) (Buf f3))"] by auto
qed simp

lemma ParseResolved_nonempty: "ip \<in> set (fst (ParseResolvedIpv4s r)) \<Longrightarrow> ip \<noteq> []"
  by (auto simp: ParseResolvedIpv4s_def Let_def split: prod.splits if_splits dest!: resolvedLoop_nonempty)
     (metis fst_conv resolvedLoop_nonempty)

lemma not_blocked:
  assumes "blockedIp (fst (ParseResolvedIpv4s r)) fw = []"
  shows "list_all (\<lambda>ip. EvaluateIp ip fw \<noteq> ''DENY'') (fst (ParseResolvedIpv4s r))"
  using assms ParseResolved_nonempty [of _ r]
  by (auto simp: blockedIp_def list_all_iff find_None_iff find_Some_iff split: option.splits) (metis nth_mem)

lemma valid0x20_names: "valid0x20 names qs \<longleftrightarrow> map pqName qs = names"
proof
  assume v: "valid0x20 names qs"
  then have "length qs = length names" by (simp add: valid0x20_def)
  then show "map pqName qs = names" using v by (intro nth_equalityI) (simp_all add: valid0x20_def list_all_iff)
next
  assume "map pqName qs = names"
  then show "valid0x20 names qs" by (auto simp: valid0x20_def list_all_iff)
qed

text \<open>What the checks on an answer establish, on each of the three paths.\<close>

definition vetted :: "golib \<Rightarrow> DnsEnv \<Rightarrow> FirewallConfig option \<Rightarrow> string list \<Rightarrow> bytes \<Rightarrow> bool" where
  "vetted L e fw names msg \<longleftrightarrow>
     (\<exists>log. VerifyDnssecResponse L (eUnix e) msg names fw = Ret (True, log))
     \<and> map pqName (fst (ExtractQuestions msg)) = names"

definition permitted :: "FirewallConfig option \<Rightarrow> bytes \<Rightarrow> bool" where
  "permitted fw msg \<longleftrightarrow> list_all (\<lambda>ip. EvaluateIp ip fw \<noteq> ''DENY'') (fst (ParseResolvedIpv4s msg))"

lemma checkUdp_delivers:
  assumes "checkUdpResponse L e msg p h = Ret (efs, log)" "efs \<noteq> []"
  defines "restored \<equiv> put_bytes 0 (be16 (OriginalID p)) msg"
  shows "vetted L e (scFirewall (hCfg h)) (ExpectedNames p) msg
    \<and> (efs = [WriteToUDP restored (RemoteAddr p)] \<and> permitted (scFirewall (hCfg h)) restored
       \<or> efs = [WriteToUDP (nil_bytes (fst (GenerateErrorResponse restored DnsRcodeRefused))) (RemoteAddr p)])"
proof -
  let ?fw = "scFirewall (hCfg h)"
  obtain vlog where v: "VerifyDnssecResponse L (eUnix e) msg (ExpectedNames p) ?fw = Ret (True, vlog)"
    using assms(1,2) by (auto simp: checkUdpResponse_def Let_def split: outcome.splits prod.splits bool.splits)
  obtain qs errs where q: "ExtractQuestions msg = (qs, errs)" by force
  have names: "map pqName qs = ExpectedNames p"
    using assms(1,2) v by (auto simp: checkUdpResponse_def Let_def q valid0x20_names split: if_splits)
  obtain ips perrs where ips: "ParseResolvedIpv4s restored = (ips, perrs)" by force
  obtain rq rerrs where rq: "ExtractQuestions restored = (rq, rerrs)" by force
  have "efs = (if blockedIp ips ?fw \<noteq> [] then [WriteToUDP (nil_bytes (fst (GenerateErrorResponse restored DnsRcodeRefused))) (RemoteAddr p)]
      else [WriteToUDP restored (RemoteAddr p)])"
    using assms(1) v names
    by (auto simp: checkUdpResponse_def Let_def q valid0x20_names ips rq restored_def [symmetric] split: if_splits prod.splits)
  with v q names not_blocked [of restored ?fw] show ?thesis
    by (auto simp: vetted_def permitted_def ips split: if_splits)
qed

text \<open>
  C1: whatever datagram arrives as an answer, it is delivered only to the client whose forward is
  pending under the identifier it carries, once, with the identifier that client used; the DNSSEC
  check has accepted it and its questions are letter by letter the names as they were spelled for
  this forward; and the client gets this packet only when the firewall denies none of its
  addresses, otherwise a packet made by \<^verbatim>\<open>GenerateErrorResponse\<close> with code refused.
\<close>

theorem upstream_delivery:
  assumes "handleUdpUpstreamResponse L e msg h = Ret (efs, log, h')" "efs \<noteq> []"
  shows "\<exists>p. pendingAt (get16 msg 0) h = Some p \<and> pendingAt (get16 msg 0) h' = None
    \<and> vetted L e (scFirewall (hCfg h)) (ExpectedNames p) msg
    \<and> (let restored = be16 (OriginalID p) @ drop 2 msg in
       efs = [WriteToUDP restored (RemoteAddr p)] \<and> permitted (scFirewall (hCfg h)) restored
       \<or> efs = [WriteToUDP (nil_bytes (fst (GenerateErrorResponse restored DnsRcodeRefused))) (RemoteAddr p)])"
proof -
  have len: "2 \<le> length msg" using assms by (auto simp: handleUdpUpstreamResponse_def split: if_splits)
  then obtain p where p: "pendingAt (get16 msg 0) h = Some p"
    using assms by (cases "pendingAt (get16 msg 0) h") (auto simp: handleUdpUpstreamResponse_def)
  have h': "h' = dropPending (get16 msg 0) h" "checkUdpResponse L e msg p (dropPending (get16 msg 0) h) = Ret (efs, log)"
    using assms(1) len by (auto simp: handleUdpUpstreamResponse_def Let_def p)
  have "put_bytes 0 (be16 (OriginalID p)) msg = be16 (OriginalID p) @ drop 2 msg"
    using len by (simp add: put_bytes_def numeral_2_eq_2)
  moreover have "hCfg (dropPending (get16 msg 0) h) = hCfg h" by (simp add: dropPending_def)
  ultimately show ?thesis using checkUdp_delivers [OF h'(2) assms(2)] p h'(1) by (simp add: Let_def pendingAt_of)
qed

text \<open>The same checks on the TCP and HTTPS paths.\<close>

lemma checkTcp_delivers:
  assumes "checkTcpResponse L e query ip names resp h = Ret (ws, log)"
  shows "(\<exists>rcode. ws = fst (sendTcpError query rcode))
    \<or> vetted L e (scFirewall (hCfg h)) names resp \<and> permitted (scFirewall (hCfg h)) resp
      \<and> ws = [prefixed (take 2 query @ drop 2 resp)] \<and> 2 \<le> length query"
proof (cases "\<exists>rcode. ws = fst (sendTcpError query rcode)")
  case False
  let ?fw = "scFirewall (hCfg h)"
  obtain vlog where v: "VerifyDnssecResponse L (eUnix e) resp names ?fw = Ret (True, vlog)"
    using assms False by (auto simp: checkTcpResponse_def Let_def split: outcome.splits prod.splits bool.splits) (metis fst_conv)
  obtain qs errs where q: "ExtractQuestions resp = (qs, errs)" by force
  obtain ips perrs where ips: "ParseResolvedIpv4s resp = (ips, perrs)" by force
  obtain rq rerrs where rq: "ExtractQuestions query = (rq, rerrs)" by force
  have names: "map pqName qs = names" "blockedIp ips ?fw = []"
    using assms False v by (auto simp: checkTcpResponse_def Let_def q valid0x20_names ips rq split: if_splits prod.splits) (metis fst_conv)+
  then have "ws = [prefixed (put_bytes 0 (take 2 query) resp)] \<and> 4 \<le> length resp \<and> 2 \<le> length query"
    using assms v by (auto simp: checkTcpResponse_def Let_def q valid0x20_names ips rq split: if_splits)
  with v q names not_blocked [of resp ?fw] show ?thesis
    by (auto simp: vetted_def permitted_def ips put_bytes_def min_def)
qed simp

text \<open>The queries a client's stream holds, and the replies that belong to them.\<close>

function frames :: "bytes \<Rightarrow> bytes list" where
  "frames stream = (if framed stream then take (frame_len stream) (drop 2 stream) # frames (drop (2 + frame_len stream) stream) else [])"
  by pat_completeness auto
termination
  by (relation "measure length") (auto simp: framed_def)

declare frames.simps [simp del]

definition reply_to :: "bytes \<Rightarrow> bytes \<Rightarrow> bool" where
  "reply_to w query \<longleftrightarrow> (\<exists>r. w = prefixed r \<and> (r = [] \<or> take 2 r = take 2 query))"

lemma sendTcpError_reply: "\<exists>w. fst (sendTcpError query rcode) = [w] \<and> reply_to w query"
  using error_reply [of query rcode] by (auto simp: sendTcpError_def reply_to_def split: prod.splits)

lemma forwardTcp_reply:
  assumes "forwardTcpQuery L e up query ip h = Ret (ws, log, h')"
  shows "\<exists>w. ws = [w] \<and> reply_to w query"
proof -
  have "(\<exists>rcode. ws = fst (sendTcpError query rcode)) \<or> (\<exists>names resp h log. checkTcpResponse L e query ip names resp h = Ret (ws, log))"
    using assms by (auto simp: forwardTcpQuery_def Let_def split: prod.splits option.splits if_splits) (metis fst_conv)+
  then have "(\<exists>rcode. ws = fst (sendTcpError query rcode)) \<or> (\<exists>resp. ws = [prefixed (take 2 query @ drop 2 resp)] \<and> 2 \<le> length query)"
    using checkTcp_delivers by blast
  moreover have "reply_to (prefixed (take 2 query @ drop 2 resp)) query" if "2 \<le> length query" for resp
    using that unfolding reply_to_def by (intro exI [of _ "take 2 query @ drop 2 resp"]) simp
  ultimately show ?thesis using sendTcpError_reply by auto
qed

lemma tcpLoop_replies:
  "hnd_inv h \<Longrightarrow> tcpLoop L e up i stream ip h = Some (Ret (ws, log, h')) \<Longrightarrow> list_all2 reply_to ws (take (length ws) (frames stream))"
proof (induction "length stream" arbitrary: stream i h ws log rule: less_induct)
  case less
  let ?q = "take (frame_len stream) (drop 2 stream)" and ?rest = "drop (2 + frame_len stream) stream"
  obtain resp log0 s where r: "serverResolve L e i ?q ip h = Some (Ret (resp, log0, h\<lparr>hServer := s\<rparr>))"
    "hnd_inv (h\<lparr>hServer := s\<rparr>)" "\<forall>b. resp = Some b \<longrightarrow> reply_ok b \<and> take 2 b = take 2 ?q"
    by (rule serverResolve_serves [OF less.prems(1)])
  show ?case
  proof (cases "framed stream")
    case False
    then show ?thesis using less.prems tcpLoop_end by simp
  next
    case True
    then have shorter: "length ?rest < length stream" by (auto simp: framed_def)
    from True have fr: "frames stream = ?q # frames ?rest" by (simp add: frames.simps [of stream])
    show ?thesis
    proof (cases resp)
      case (Some b)
      then have b: "b \<noteq> []" "reply_to (prefixed b) ?q" using r(3) by (auto simp: reply_ok_def reply_to_def)
      with less.prems(2) Some r(1) True have "ws = [] \<or> (\<exists>ws' log'. ws = prefixed b # ws'
          \<and> tcpLoop L e up (i + 1) ?rest ip (h\<lparr>hServer := s\<rparr>) = Some (Ret (ws', log', h')))"
        by (auto simp: tcpLoop_reply split: if_splits)
      then show ?thesis using less.hyps [OF shorter r(2)] b(2) fr by auto
    next
      case None
      with less.prems(2) r(1) True have "ws = fst (sendTcpError ?q DnsRcodeNxDomain)
          \<or> (\<exists>log. forwardTcpQuery L e up ?q ip (h\<lparr>hServer := s\<rparr>) = Ret (ws, log, h'))"
        by (auto simp: tcpLoop_forward split: if_splits prod.splits)
      then obtain w where "ws = [w]" "reply_to w ?q" using sendTcpError_reply forwardTcp_reply by metis
      then show ?thesis by (simp add: fr)
    qed
  qed
qed

text \<open>
  C21: on a TCP or TLS connection, in every reachable state and whatever bytes the client sends, what
  is written back are replies to the queries the stream holds, in their order, one each from the
  first on, every one with its length in front and either empty or with the identifier of its query.
\<close>

theorem tcp_replies_in_order:
  assumes "reachable (\<lambda>h. \<exists>cfg cfg'. h = NewDnsHandler (NewDevDnsServer cfg) cfg') (\<lambda>h h'. \<exists>l. handler_step L h l h') h"
    and "handleTcpConnection L e conn up remote stream h = Some (Ret (ws, log, h'))"
  shows "list_all2 (\<lambda>w query. \<exists>r. w = prefixed r \<and> (r = [] \<or> take 2 r = take 2 query)) ws (take (length ws) (frames stream))"
proof -
  have inv: "hnd_inv h" by (rule handler.inv_reachable [OF assms(1)])
  have "ws = [] \<or> (\<exists>i h1 log h2. hnd_inv h1 \<and> tcpLoop L e up i stream (hostOf remote) h1 = Some (Ret (ws, log, h2)))"
    using assms(2) isRateLimited_inv [OF inv]
    by (auto simp: handleTcpConnection_def Let_def split: outcome.splits bool.splits prod.splits)
  then have "list_all2 reply_to ws (take (length ws) (frames stream))" using tcpLoop_replies by auto
  then show ?thesis unfolding reply_to_def .
qed

section \<open>Every datagram is handled\<close>

lemma handler_reachable_inv:
  "reachable (\<lambda>h. \<exists>cfg cfg'. h = NewDnsHandler (NewDevDnsServer cfg) cfg') (\<lambda>h h'. \<exists>l. handler_step L h l h') h \<Longrightarrow> hnd_inv h"
  by (rule handler.inv_reachable)

text \<open>
  C11: in every state reachable before the shutdown, every datagram is handled without a panic and
  without an endless search for an identifier, provided the random source can draw every identifier:
  the client gets one reply with the identifier it used (or an empty datagram), or its query is
  forwarded once, or it is dropped; and a forward is made only for a private or allowlisted client.
\<close>

theorem datagram_handled:
  assumes "reachable (\<lambda>h. \<exists>cfg cfg'. h = NewDnsHandler (NewDevDnsServer cfg) cfg') (\<lambda>h h'. \<exists>l. handler_step L h l h') h"
    and "\<not> stopChan h" "surj (eIds e)"
  shows "\<exists>efs log h'. udpReceive L e data raddr h = Some (Ret (efs, log, h'))
    \<and> (efs = []
       \<or> (\<exists>r. efs = [WriteToUDP r raddr] \<and> (r = [] \<or> reply_ok r \<and> take 2 r = take 2 data))
       \<or> (\<exists>up q i d. efs = [UpstreamQuery up q i d] \<and> take 2 q = be16 i
            \<and> wanAllowed L (IPString (uaIP raddr)) (scFirewall (hCfg h))))"
proof -
  have inv: "hnd_inv h" by (rule handler_reachable_inv [OF assms(1)])
  obtain b ls where l: "isRateLimited (eOrder e) (eNow e 1) (IPString (uaIP raddr)) h = Ret (b, h\<lparr>limiters := ls\<rparr>)"
    "hnd_inv (h\<lparr>limiters := ls\<rparr>)" by (rule isRateLimited_serves [OF inv assms(2)])
  show ?thesis
  proof (cases b)
    case True
    with l show ?thesis by (simp add: udpReceive_def)
  next
    case False
    obtain efs log h' where m: "handleUdpMessage L e (take 4096 data) raddr (h\<lparr>limiters := ls\<rparr>) = Some (Ret (efs, log, h'))"
      using message_serves [OF l(2) _ assms(3), of L "take 4096 data" raddr] assms(2) by auto
    have "take 2 (take 4096 data) = take 2 data" by simp
    with message_cases [OF l(2) m] have "efs = []
       \<or> (\<exists>r. efs = [WriteToUDP r raddr] \<and> (r = [] \<or> reply_ok r \<and> take 2 r = take 2 data))
       \<or> (\<exists>up q i d. efs = [UpstreamQuery up q i d] \<and> take 2 q = be16 i
            \<and> wanAllowed L (IPString (uaIP raddr)) (scFirewall (hCfg h)))"
      by (auto simp: answered_def forwarded_def)
    with m l False show ?thesis by (simp add: udpReceive_def)
  qed
qed

section \<open>DNS over HTTPS\<close>

lemma checkDoh_delivers:
  assumes "checkDohResponse L e query ip names msg h = Ret (resp, log)"
  shows "(\<exists>rcode. resp = fst (GenerateErrorResponse query rcode))
    \<or> resp = Some msg \<and> vetted L e (scFirewall (hCfg h)) names msg \<and> permitted (scFirewall (hCfg h)) msg"
proof (cases "\<exists>rcode. resp = fst (GenerateErrorResponse query rcode)")
  case False
  let ?fw = "scFirewall (hCfg h)"
  obtain vlog where v: "VerifyDnssecResponse L (eUnix e) msg names ?fw = Ret (True, vlog)"
    using assms False by (auto simp: checkDohResponse_def Let_def split: outcome.splits prod.splits bool.splits) (metis fst_conv)
  obtain qs errs where q: "ExtractQuestions msg = (qs, errs)" by force
  obtain ips perrs where ips: "ParseResolvedIpv4s msg = (ips, perrs)" by force
  obtain rq rerrs where rq: "ExtractQuestions query = (rq, rerrs)" by force
  have names: "map pqName qs = names" "blockedIp ips ?fw = []"
    using assms False v by (auto simp: checkDohResponse_def Let_def q valid0x20_names ips rq split: if_splits prod.splits) (metis fst_conv)+
  then have "resp = Some msg"
    using assms v by (auto simp: checkDohResponse_def Let_def q valid0x20_names ips rq split: if_splits)
  with v q names not_blocked [of msg ?fw] show ?thesis by (auto simp: vetted_def permitted_def ips)
qed simp

lemma error_answer:
  "12 \<le> length query \<Longrightarrow> \<exists>r. fst (GenerateErrorResponse query rcode) = Some r \<and> reply_ok r \<and> take 2 r = take 2 query"
  by (rule GenerateErrorResponse_reply [of query rcode]) auto


section \<open>Races and gaps\<close>

lemma destroyed: "Destroy rl = Ret rl' \<Longrightarrow> 0 < maxTrackedIps rl \<Longrightarrow> Allow order now ip rl' = Panic"
  by (auto simp: Destroy_def Allow_def startWindow_def bucketMap_def split: if_splits)

lemma destroyLimiter_at:
  assumes "destroyLimiter h = Ret h'" "rateLimiter h = Some p"
  obtains rl where "Destroy (limiters h ! p) = Ret rl" "h' = h\<lparr>limiters := (limiters h)[p := rl]\<rparr>"
  using assms by (cases "Destroy (limiters h ! p)") (auto simp: destroyLimiter_def)

text \<open>
  C40: the limiter is read without the lock: a request that has read the reference before a
  configuration change and calls \<^verbatim>\<open>Allow\<close> after it panics, and so does one that calls it on the nil
  reference the change has left in between.
\<close>

theorem reload_race:
  assumes "UpdateConfig cfg h = Ret h'" "rateLimiter h = Some p" "p < length (limiters h)" "0 < maxTrackedIps (limiters h ! p)"
  shows "allowAt order now ip (Some p) h' = Panic \<and> allowAt order now ip None h' = Panic"
proof -
  define h1 where "h1 = (let h = h\<lparr>hCfg := cfg, hPort := scPort cfg, fallbackDns := scFallbackDns cfg\<rparr>;
      h = (if scMaxTcpConnections cfg > 0 then h\<lparr>maxTcpConns := scMaxTcpConnections cfg\<rparr> else h)
    in if scTcpIdleTimeoutMs cfg > 0 then h\<lparr>idleTimeout := scTcpIdleTimeoutMs cfg * 1000000\<rparr> else h)"
  obtain h2 where d: "destroyLimiter h1 = Ret h2"
    using assms(1) by (cases "destroyLimiter h1") (auto simp: UpdateConfig_def h1_def Let_def)
  have same: "rateLimiter h1 = Some p" "limiters h1 = limiters h" using assms(2) by (simp_all add: h1_def Let_def)
  from destroyLimiter_at [OF d same(1)] same(2) obtain rl where rl: "Destroy (limiters h ! p) = Ret rl"
    "h2 = h1\<lparr>limiters := (limiters h)[p := rl]\<rparr>" by metis
  have "limiters h' ! p = rl"
    using assms(1,3) d unfolding UpdateConfig_def Let_def h1_def [unfolded Let_def, symmetric]
    by (auto simp: rl(2) nth_append split: if_splits)
  with destroyed [OF rl(1) assms(4)] show ?thesis by (simp add: allowAt_def)
qed

text \<open>
  A shutdown drops the table of pending forwards while messages may still be in flight: a message
  that is forwarded after it panics when it stores its entry, and a second shutdown panics as well.
\<close>

theorem shutdown_race:
  assumes "Stop h = Ret h'" "fallbackDns h \<noteq> []" "wanAllowed L (IPString (uaIP raddr)) (scFirewall (hCfg h))"
    and "0 < maxUdpForwards h" "2 \<le> length data" "eResolves e (fallbackDns h @ '':53'')"
  shows "forwardUdpQuery L e data raddr h' = Some Panic \<and> Stop h' = Panic"
proof -
  obtain h1 where d: "destroyLimiter (h\<lparr>stopChan := True\<rparr>) = Ret h1"
    using assms(1) by (cases "destroyLimiter (h\<lparr>stopChan := True\<rparr>)") (auto simp: Stop_def split: if_splits)
  from destroyLimiter_cases [OF d] obtain ls where h1: "h1 = h\<lparr>stopChan := True, limiters := ls\<rparr>" by auto
  have h': "h' = h1\<lparr>udpListener := False, tcpListener := False, dotListener := False, dohServer := False, pendingUdpQueries := None\<rparr>"
    using assms(1) d by (simp add: Stop_def split: if_splits)
  obtain enc names alog where a: "Apply0x20Encoding (eRand e) data = (enc, names, alog)"
    by (cases "Apply0x20Encoding (eRand e) data")
  have "freshID (eIds e) 0 [] = Some (eIds e 0)" by (subst freshID.simps) simp
  then have "forwardUdpQuery L e data raddr h' = Some Panic"
    using assms(2-6) forward_accepted [OF _ _ _ _ a, of h' L raddr] by (simp add: h' h1 pendings_def Let_def)
  moreover have "Stop h' = Panic" by (simp add: Stop_def h' h1)
  ultimately show ?thesis ..
qed

text \<open>
  C34: the firewall on names is not asked for a query whose RD bit is clear: in every reachable state
  before the shutdown, such a query of a private or allowlisted client is forwarded, whatever names
  it asks for.
\<close>

theorem rd_clear_forwarded:
  assumes "reachable (\<lambda>h. \<exists>cfg cfg'. h = NewDnsHandler (NewDevDnsServer cfg) cfg') (\<lambda>h h'. \<exists>l. handler_step L h l h') h"
    and "\<not> stopChan h" "surj (eIds e)" "2 \<le> length data" "get16 data 2 AND 0x0100 = 0" "fallbackDns h \<noteq> []"
    and "wanAllowed L (IPString (uaIP raddr)) (scFirewall (hCfg h))" "length (pendings h) < 2000" "eResolves e (fallbackDns h @ '':53'')"
  shows "\<exists>q i d log h'. handleUdpMessage L e data raddr h = Some (Ret ([UpstreamQuery (fallbackDns h @ '':53'') q i d], log, h'))"
proof -
  have inv: "hnd_inv h" by (rule handler_reachable_inv [OF assms(1)])
  have "Resolve L (eNow e 0) (eLater e 0) data (IPString (uaIP raddr)) (hServer h) = Some (Ret (None, [], hServer h))"
    using assms(5) by (simp add: Resolve_def)
  then have res: "serverResolve L e 0 data (IPString (uaIP raddr)) h = Some (Ret (None, [], h))" by (simp add: serverResolve_def)
  obtain i where i: "freshID (eIds e) 0 (pendings h) = Some i"
    using freshID_returns [OF _ assms(3), of "pendings h"] assms(8) by auto
  obtain m where "pendingUdpQueries h = Some m" using inv assms(2) by (auto simp: hnd_inv_def)
  moreover obtain enc names alog where "Apply0x20Encoding (eRand e) data = (enc, names, alog)"
    by (cases "Apply0x20Encoding (eRand e) data")
  moreover have "int (length (pendings h)) < maxUdpForwards h" using inv assms(8) by (simp add: hnd_inv_def)
  ultimately have "\<exists>q d log h'. forwardUdpQuery L e data raddr h = Some (Ret ([UpstreamQuery (fallbackDns h @ '':53'') q i d], log, h'))"
    using forward_accepted [of h L raddr data e] assms(4,6,7,9) by (simp add: i Let_def)
  then show ?thesis using res assms(6) by (auto simp: handleUdpMessage_def)
qed

section \<open>Concrete instances\<close>

definition example_env :: DnsEnv where
  "example_env = \<lparr>eRand = of_nat, eIds = of_nat, eNow = int, eLater = int, eUnix = 5, eOrder = [], eResolves = (\<lambda>_. True),
     eUdp = (\<lambda>_ _. None), eTcp = (\<lambda>_ _. None), eWriteOk = (\<lambda>_. True)\<rparr>"

definition example_client :: UDPAddr where
  "example_client = \<lparr>uaIP = [10, 0, 0, 9], uaPort = 4000\<rparr>"

definition example_handler :: DnsHandler where
  "example_handler = NewDnsHandler (NewDevDnsServer example_accepted) example_accepted"

text \<open>A pending forward of a query for \<^verbatim>\<open>www.a.io\<close>, and the answer of the resolver to it with one address.\<close>

definition example_pending :: DnsHandler where
  "example_pending = example_handler\<lparr>pendingUdpQueries := Some [(5, \<lparr>RemoteAddr = example_client, OriginalID = 7,
     ExpectedNames = [''wWw.A.iO''], OriginalQuery = example_query\<rparr>)]\<rparr>"

definition example_answer :: bytes where
  "example_answer = [0, 5, 0x81, 0x80, 0, 1, 0, 1, 0, 0, 0, 0, 3, 119, 87, 119, 1, 65, 2, 105, 79, 0, 0, 1, 0, 1,
     0xc0, 12, 0, 1, 0, 1, 0, 0, 0, 60, 0, 4, 93, 184, 216, 34]"

lemma surj_ids: "surj (eIds example_env)"
proof (rule surjI [of _ unat])
  show "eIds example_env (unat w) = w" for w by (simp add: example_env_def)
qed

lemma example_reachable:
  "reachable (\<lambda>h. \<exists>cfg cfg'. h = NewDnsHandler (NewDevDnsServer cfg) cfg') (\<lambda>h h'. \<exists>l. handler_step L h l h') example_handler"
  by (rule reach_init) (auto simp: example_handler_def)

lemma example_simps:
  "\<not> stopChan example_handler" "fallbackDns example_handler = ''1.1.1.1''" "maxUdpForwards example_handler = 2000"
  "pendings example_handler = []" "eResolves example_env a" "scFirewall (hCfg example_handler) = None"
  "rateLimiter example_handler = Some 0" "length (limiters example_handler) = 1" "maxTrackedIps (limiters example_handler ! 0) = 100000"
  by (simp_all add: example_handler_def NewDnsHandler_def example_accepted_def example_config_def pendings_def example_env_def
      NewRateLimiter_def)

lemma example_private: "wanAllowed example_lib (IPString (uaIP example_client)) None"
  unfolding wanAllowed_def example_client_def by code_simp

lemma example_checks:
  "VerifyDnssecResponse example_lib 5 example_answer [''wWw.A.iO''] None = Ret (True, [])"
  "map pqName (fst (ExtractQuestions example_answer)) = [''wWw.A.iO'']"
  "fst (ParseResolvedIpv4s ([0, 7] @ drop 2 example_answer)) = [''93.184.216.34'']"
  "get16 example_answer 0 = 5" "length example_answer = 42"
  by code_simp+

lemma example_delivered:
  "\<exists>log. handleUdpUpstreamResponse example_lib example_env example_answer example_pending
     = Ret ([WriteToUDP ([0, 7] @ drop 2 example_answer) example_client], log, dropPending 5 example_pending)"
proof -
  have p: "pendingAt 5 example_pending = Some \<lparr>RemoteAddr = example_client, OriginalID = 7,
     ExpectedNames = [''wWw.A.iO''], OriginalQuery = example_query\<rparr>" (is "_ = Some ?p")
    by (simp add: pendingAt_def example_pending_def)
  have cfg: "scFirewall (hCfg (dropPending 5 example_pending)) = None"
    by (simp add: dropPending_def example_pending_def example_simps)
  have put: "put_bytes 0 (be16 7) example_answer = [0, 7] @ drop 2 example_answer" by code_simp
  have b: "blockedIp ips None = []" for ips by (simp add: blockedIp_def EvaluateIp_def find_None_iff [THEN iffD2] split: option.splits)
  obtain qs errs where q: "ExtractQuestions example_answer = (qs, errs)" by force
  obtain rq rerrs where rq: "ExtractQuestions ([0, 7] @ drop 2 example_answer) = (rq, rerrs)" by force
  obtain ips perrs where ips: "ParseResolvedIpv4s ([0, 7] @ drop 2 example_answer) = (ips, perrs)" by force
  have "\<exists>log. checkUdpResponse example_lib example_env example_answer ?p (dropPending 5 example_pending)
      = Ret ([WriteToUDP ([0, 7] @ drop 2 example_answer) example_client], log)"
    using example_checks(1,2,5) unfolding checkUdpResponse_def Let_def cfg
    by (simp add: q rq [simplified] ips [simplified] put [simplified] b valid0x20_names example_env_def)
  then show ?thesis by (auto simp: handleUdpUpstreamResponse_def example_checks(4,5) p)
qed

theorem upstream_delivery_witness:
  "\<exists>efs log h' p. handleUdpUpstreamResponse example_lib example_env example_answer example_pending = Ret (efs, log, h')
    \<and> efs \<noteq> [] \<and> pendingAt (get16 example_answer 0) example_pending = Some p
    \<and> vetted example_lib example_env (scFirewall (hCfg example_pending)) (ExpectedNames p) example_answer"
proof -
  obtain log where r: "handleUdpUpstreamResponse example_lib example_env example_answer example_pending
     = Ret ([WriteToUDP ([0, 7] @ drop 2 example_answer) example_client], log, dropPending 5 example_pending)"
    using example_delivered by blast
  from upstream_delivery [OF this] show ?thesis unfolding r by blast
qed

lemma example_short:
  "\<exists>efs h. handleUdpMessage example_lib example_env [0, 7] example_client example_handler = Some (Ret (efs, [], h))
     \<and> forwards example_client efs = [example_client]"
proof -
  have a: "Apply0x20Encoding (eRand example_env) [0, 7] = ([0, 7], [], [])" by (simp add: Apply0x20Encoding_def)
  have f: "freshID (eIds example_env) 0 [] = Some (eIds example_env 0)" by (subst freshID.simps) simp
  have "pendingUdpQueries example_handler \<noteq> None" by (simp add: example_handler_def NewDnsHandler_def)
  then obtain up q i d h where "forwardUdpQuery example_lib example_env [0, 7] example_client example_handler
      = Some (Ret ([UpstreamQuery up q i d], [], h))"
    using forward_accepted [OF _ _ _ _ a, of example_handler example_lib example_client] example_private
    by (auto simp: example_simps f Let_def)
  moreover have "serverResolve example_lib example_env 0 [0, 7] (IPString (uaIP example_client)) example_handler
      = Some (Ret (None, [], example_handler))"
    by (simp add: serverResolve_def Resolve_def)
  ultimately show ?thesis
    by (intro exI [of _ "[UpstreamQuery up q i d]"] exI [of _ h]) (simp add: handleUdpMessage_def example_simps forwards_def)
qed

theorem forwards_answered_once_witness:
  "\<exists>h. handler_run example_lib example_handler ([example_client], []) h
    \<and> mset (map (\<lambda>(i, p). RemoteAddr p) (pendings h)) \<subseteq># {#example_client#} \<and> length (pendings h) \<le> 2000"
proof -
  obtain efs h where "handleUdpMessage example_lib example_env [0, 7] example_client example_handler = Some (Ret (efs, [], h))"
    "forwards example_client efs = [example_client]" using example_short by blast
  then have "handler_step example_lib example_handler ([example_client], []) h" using message by metis
  from run_step [OF run_start this] have r: "handler_run example_lib example_handler ([example_client], []) h" by simp
  from forwards_answered_once [OF r [unfolded example_handler_def]] r show ?thesis by auto
qed

theorem datagram_handled_witness:
  "\<exists>efs log h'. udpReceive example_lib example_env [0, 7] example_client example_handler = Some (Ret (efs, log, h'))"
  using datagram_handled [OF example_reachable example_simps(1) surj_ids] by blast

theorem tcp_replies_in_order_witness:
  "list_all2 (\<lambda>w query. \<exists>r. w = prefixed r \<and> (r = [] \<or> take 2 r = take 2 query)) [[0, 0]] (take 1 (frames [0, 1, 9]))"
proof -
  have "(case handleTcpConnection example_lib example_env 1 2 ''10.0.0.9:4000'' [0, 1, 9] example_handler of
      Some (Ret (ws, log, h)) \<Rightarrow> ws = [[0, 0]] | _ \<Rightarrow> False)" by code_simp
  then obtain log h where "handleTcpConnection example_lib example_env 1 2 ''10.0.0.9:4000'' [0, 1, 9] example_handler
      = Some (Ret ([[0, 0]], log, h))" by (auto split: option.splits outcome.splits)
  from tcp_replies_in_order [OF example_reachable this] show ?thesis by simp
qed


theorem reload_race_witness:
  "\<exists>h'. UpdateConfig example_accepted example_handler = Ret h' \<and> allowAt [] 5 ''10.0.0.9'' (Some 0) h' = Panic"
proof -
  have "(case UpdateConfig example_accepted example_handler of Ret _ \<Rightarrow> True | Panic \<Rightarrow> False)" by code_simp
  then obtain h' where h': "UpdateConfig example_accepted example_handler = Ret h'" by (auto split: outcome.splits)
  from reload_race [OF this, of 0 "[]" 5 "''10.0.0.9''"] h' show ?thesis by (simp add: example_simps)
qed

theorem shutdown_race_witness:
  "\<exists>h'. Stop example_handler = Ret h' \<and> forwardUdpQuery example_lib example_env [0, 7] example_client h' = Some Panic"
proof -
  have "(case Stop example_handler of Ret _ \<Rightarrow> True | Panic \<Rightarrow> False)" by code_simp
  then obtain h' where h': "Stop example_handler = Ret h'" by (auto split: outcome.splits)
  from shutdown_race [OF this, of example_lib example_client "[0, 7]" example_env] h' example_private show ?thesis
    by (simp add: example_simps)
qed

theorem rd_clear_forwarded_witness:
  "\<exists>q i d log h'. handleUdpMessage example_lib example_env (replicate 12 0) example_client example_handler
     = Some (Ret ([UpstreamQuery ''1.1.1.1:53'' q i d], log, h'))"
proof -
  have "get16 (replicate 12 0) 2 AND 0x0100 = 0" by code_simp
  from rd_clear_forwarded [OF example_reachable example_simps(1) surj_ids _ this, of example_lib example_client] example_private
  show ?thesis by (simp add: example_simps)
qed

end
