(* ===== verification/Daemon.thy ===== *)
theory Daemon
  imports ControlPlane Sni DnsForwarding
begin

text \<open>
  The daemon of \<^verbatim>\<open>src/main.go\<close>: it starts, stops and reloads the DNS handler, the HTTP proxy and the TLS
  proxy.

  A pointer to a component is an option; the component it points to is part of the daemon's record, so
  that a component that was stopped but is still referred to is visible as such.  Where the code may
  panic under its lock, the result says so and carries the state in which the lock is released.
\<close>

section \<open>The daemon\<close>

record OttergateDaemon =
  odCfg :: "ServerConfig option"
  odServer :: "DevDnsServer option"
  odDns :: "DnsHandler option"
  odHttp :: "HttpHandler option"
  odSni :: "SniProxyService option"

definition newDaemon :: OttergateDaemon where
  "newDaemon = \<lparr>odCfg = None, odServer = None, odDns = None, odHttp = None, odSni = None\<rparr>"

text \<open>What the listeners and the random source give during one start.\<close>

record DaemonEnv =
  deDns :: ListenEnv
  deSecret :: bytes
  deHttpErr :: "string option"
  deVirtErr :: "string option"
  deSniErr :: "string option"

record DaemonRun =
  drErr :: "string option"
  drLog :: "audit_call list"
  drPanic :: bool

definition ended :: "string option \<Rightarrow> audit_call list \<Rightarrow> DaemonRun" where
  "ended err log = \<lparr>drErr = err, drLog = log, drPanic = False\<rparr>"

definition crashed :: "audit_call list \<Rightarrow> DaemonRun" where
  "crashed log = \<lparr>drErr = None, drLog = log, drPanic = True\<rparr>"

text \<open>The end of a start whose TLS listener fails: the two components that run are stopped, the daemon keeps them.\<close>

definition abandonStart :: "string \<Rightarrow> audit_call list \<Rightarrow> DnsHandler \<Rightarrow> HttpHandler \<Rightarrow> OttergateDaemon \<Rightarrow> DaemonRun \<times> OttergateDaemon" where
  "abandonStart err log dns http zd =
     (case Stop dns of
        Panic \<Rightarrow> (crashed log, zd)
      | Ret dns \<Rightarrow>
         (let zd = zd\<lparr>odDns := Some dns\<rparr> in
          case HttpStop http of
            Panic \<Rightarrow> (crashed log, zd)
          | Ret http \<Rightarrow> (ended (Some err) log, zd\<lparr>odHttp := Some http\<rparr>)))"

definition daemonStart :: "DaemonEnv \<Rightarrow> ServerConfig \<Rightarrow> OttergateDaemon \<Rightarrow> DaemonRun \<times> OttergateDaemon" where
  "daemonStart e cfg zd =
     (let zd = zd\<lparr>odCfg := Some cfg\<rparr>; server = NewDevDnsServer cfg in
      case Start (deDns e) (NewDnsHandler server cfg) of
        Panic \<Rightarrow> (crashed [], zd)
      | Ret (Some err, log, _) \<Rightarrow> (ended (Some err) log, zd)
      | Ret (None, log, dns) \<Rightarrow>
         (let zd = zd\<lparr>odServer := Some server, odDns := Some dns\<rparr>;
              log = log @ [LogSystem (''DNS Listener actively enforcing Zero-Trust boundaries on port '' @ itoa_int (scPort cfg))];
              httpPort = (case scHttpPort cfg of None \<Rightarrow> 80 | Some p \<Rightarrow> p);
              (httpLog, http) = HttpStart (deHttpErr e) (deVirtErr e) (NewHttpHandler (deSecret e) cfg);
              zd = zd\<lparr>odHttp := Some http\<rparr>;
              log = log @ httpLog @ [LogSystem (''HTTP L7 Sandbox Router active on port '' @ itoa_int httpPort)];
              httpsPort = (case scHttpsPort cfg of None \<Rightarrow> 443 | Some p \<Rightarrow> p)
          in case SniStart (deSniErr e) (NewSniProxyService cfg) of
               (Some err, _) \<Rightarrow> abandonStart err log dns http zd
             | (None, sni) \<Rightarrow>
                 (ended None (log @ [LogSystem (''SNI Proxy active on port '' @ itoa_int httpsPort)]), zd\<lparr>odSni := Some sni\<rparr>)))"

definition daemonStop :: "OttergateDaemon \<Rightarrow> DaemonRun \<times> OttergateDaemon" where
  "daemonStop zd =
     (case (case odDns zd of None \<Rightarrow> Ret zd | Some h \<Rightarrow> (case Stop h of Panic \<Rightarrow> Panic | Ret _ \<Rightarrow> Ret (zd\<lparr>odDns := None\<rparr>))) of
        Panic \<Rightarrow> (crashed [], zd)
      | Ret zd \<Rightarrow>
         (case (case odHttp zd of None \<Rightarrow> Ret zd | Some h \<Rightarrow> (case HttpStop h of Panic \<Rightarrow> Panic | Ret _ \<Rightarrow> Ret (zd\<lparr>odHttp := None\<rparr>))) of
            Panic \<Rightarrow> (crashed [], zd)
          | Ret zd \<Rightarrow>
             (case (case odSni zd of None \<Rightarrow> Ret zd | Some s \<Rightarrow> (case SniStop s of Panic \<Rightarrow> Panic | Ret _ \<Rightarrow> Ret (zd\<lparr>odSni := None\<rparr>))) of
                Panic \<Rightarrow> (crashed [], zd)
              | Ret zd \<Rightarrow> (ended None [LogSystem ''Subsystems halted. Sockets closed.''], zd\<lparr>odServer := None\<rparr>))))"

text \<open>
  The callback that the control plane calls with a new configuration.  A panic in it is recovered by
  the control plane.  A rollback with no previous configuration would dereference nil.
\<close>

definition reload :: "DaemonEnv \<Rightarrow> DaemonEnv \<Rightarrow> ServerConfig \<Rightarrow> OttergateDaemon \<Rightarrow> DaemonRun \<times> OttergateDaemon" where
  "reload e e' newCfg zd =
     (let oldCfg = odCfg zd; applying = LogSystem ''Applying dynamic configuration update from Control Plane...'' in
      case daemonStop zd of (r, zd) \<Rightarrow>
        if drPanic r then (crashed (applying # drLog r), zd)
        else case daemonStart e newCfg zd of (r', zd) \<Rightarrow>
          (let log = applying # drLog r @ drLog r' in
           if drPanic r' then (crashed log, zd)
           else case drErr r' of
             None \<Rightarrow> (ended None log, zd)
           | Some err \<Rightarrow>
              (let log = log @ [LogError (''Failed to reload daemon with new configuration: '' @ err
                     @ ''. Attempting fallback state rollback...'')] in
               case oldCfg of
                 None \<Rightarrow> (crashed log, zd)
               | Some cfg \<Rightarrow>
                  (case daemonStart e' cfg zd of (r'', zd) \<Rightarrow>
                     if drPanic r'' then (crashed (log @ drLog r''), zd)
                     else (ended (drErr r'') (log @ drLog r'' @ (case drErr r'' of None \<Rightarrow> []
                            | Some err \<Rightarrow> [LogError (''CRITICAL FAILURE: Fallback rollback failed. System is offline: '' @ err)])), zd)))))"

section \<open>Starts and stops\<close>

definition dnsListens :: "DaemonEnv \<Rightarrow> ServerConfig \<Rightarrow> bool" where
  "dnsListens e cfg = ((case UdpListen (deDns e) of Inl _ \<Rightarrow> False | Inr _ \<Rightarrow> True) \<and> TcpListen (deDns e) = None
     \<and> (scTls cfg = None \<or> DotListen (deDns e) = None))"

text \<open>All listeners that the daemon waits for can be opened.\<close>

definition listens :: "DaemonEnv \<Rightarrow> ServerConfig \<Rightarrow> bool" where
  "listens e cfg = (dnsListens e cfg \<and> deSniErr e = None)"

definition dns_live :: "ServerConfig \<Rightarrow> DnsHandler \<Rightarrow> bool" where
  "dns_live cfg h \<longleftrightarrow> hnd_inv h \<and> \<not> stopChan h \<and> hCfg h = cfg"

lemma Stop_live: "dns_live cfg h \<Longrightarrow> \<exists>h'. Stop h = Ret h' \<and> stopChan h'"
  by (auto simp: dns_live_def hnd_inv_def limiter_alive_def Stop_def destroyLimiter_def Destroy_def split: option.splits)

lemma dns_live_upd [simp]:
  "dns_live cfg (h\<lparr>udpListener := a\<rparr>) = dns_live cfg h" "dns_live cfg (h\<lparr>hPort := p\<rparr>) = dns_live cfg h"
  "dns_live cfg (h\<lparr>tcpListener := a\<rparr>) = dns_live cfg h" "dns_live cfg (h\<lparr>dotListener := a\<rparr>) = dns_live cfg h"
  "dns_live cfg (h\<lparr>dohServer := a\<rparr>) = dns_live cfg h"
  by (simp_all add: dns_live_def hnd_inv_def limiter_alive_def pendings_def)

lemma stopWith_live: "dns_live cfg h \<Longrightarrow> \<exists>h'. stopWith err log h = Ret (Some err, log, h')"
  using Stop_live by (fastforce simp: stopWith_def)

lemma Start_cases:
  assumes "dns_live cfg h"
  shows "if dnsListens e cfg then \<exists>log h'. Start (deDns e) h = Ret (None, log, h') \<and> dns_live cfg h'
    else \<exists>err log h'. Start (deDns e) h = Ret (Some err, log, h')"
proof (cases "UdpListen (deDns e)")
  case (Inl err)
  then show ?thesis by (simp add: dnsListens_def Start_def startUdp_def)
next
  case (Inr port)
  obtain g where g: "startUdp (deDns e) h = (None, g)" "dns_live cfg g" using assms Inr by (simp add: startUdp_def)
  then have cfg: "hCfg g = cfg" by (simp add: dns_live_def)
  show ?thesis
  proof (cases "TcpListen (deDns e)")
    case None
    have "dns_live cfg (g\<lparr>tcpListener := True\<rparr>)" using g(2) by simp
    with g Inr None cfg show ?thesis
      using stopWith_live [of cfg "g\<lparr>tcpListener := True\<rparr>"]
      by (cases "scTls cfg"; cases "DotListen (deDns e)") (simp_all add: dnsListens_def Start_def startTcp_def Let_def, blast)
  next
    case (Some err)
    with g Inr show ?thesis
      using stopWith_live [OF g(2), of err "[]"] by (auto simp: dnsListens_def Start_def startTcp_def)
  qed
qed

lemma new_live: "dns_live cfg (NewDnsHandler (NewDevDnsServer cfg) cfg)"
  using new_handler_inv by (simp add: dns_live_def NewDnsHandler_def)

text \<open>The components of a daemon that serves \<open>cfg\<close>, and those that a stop finds.\<close>

definition serving :: "ServerConfig \<Rightarrow> OttergateDaemon \<Rightarrow> bool" where
  "serving cfg zd \<longleftrightarrow> odCfg zd = Some cfg \<and> (\<exists>h. odDns zd = Some h \<and> dns_live cfg h)
     \<and> (\<exists>h. odHttp zd = Some h \<and> \<not> hhStop h \<and> \<not> vlClosed (VListener h) \<and> hhCfg h = cfg)
     \<and> (\<exists>s. odSni zd = Some s \<and> \<not> spStop s \<and> spCfg s = cfg)"

definition halted :: "ServerConfig option \<Rightarrow> OttergateDaemon" where
  "halted cfg = \<lparr>odCfg = cfg, odServer = None, odDns = None, odHttp = None, odSni = None\<rparr>"

lemma daemonStop_serving:
  assumes "serving cfg zd"
  shows "daemonStop zd = (ended None [LogSystem ''Subsystems halted. Sockets closed.''], halted (Some cfg))"
proof -
  obtain h g s where c: "odCfg zd = Some cfg" "odDns zd = Some h" "dns_live cfg h" "odHttp zd = Some g" "\<not> hhStop g" "odSni zd = Some s" "\<not> spStop s"
    using assms by (auto simp: serving_def)
  obtain h' where "Stop h = Ret h'" using Stop_live [OF c(3)] by blast
  with c show ?thesis
    by (cases zd) (simp add: daemonStop_def HttpStop_def SniStop_def halted_def)
qed

lemma ended_simps [simp]: "drErr (ended err log) = err" "\<not> drPanic (ended err log)" "drPanic (crashed log)"
  by (simp_all add: ended_def crashed_def)

lemma daemonStart_ok:
  assumes "listens e cfg"
  shows "case daemonStart e cfg zd of (r, zd') \<Rightarrow> \<not> drPanic r \<and> drErr r = None \<and> serving cfg zd'"
proof -
  obtain log h where st: "Start (deDns e) (NewDnsHandler (NewDevDnsServer cfg) cfg) = Ret (None, log, h)" "dns_live cfg h"
    using Start_cases [OF new_live, of e cfg] assms by (auto simp: listens_def)
  obtain httpLog g where g: "HttpStart (deHttpErr e) (deVirtErr e) (NewHttpHandler (deSecret e) cfg) = (httpLog, g)"
      "\<not> hhStop g" "\<not> vlClosed (VListener g)" "hhCfg g = cfg"
    by (simp add: HttpStart_def NewHttpHandler_def NewVirtualListener_def)
  obtain s where s: "SniStart (deSniErr e) (NewSniProxyService cfg) = (None, s)" "\<not> spStop s" "spCfg s = cfg"
    using assms by (simp add: listens_def SniStart_def NewSniProxyService_def)
  show ?thesis
    unfolding daemonStart_def Let_def st(1) outcome.case prod.case option.case g(1) s(1)
    using st(2) g s by (simp add: serving_def)
qed

text \<open>A start that fails leaves the daemon with nothing new, or with two components that are already stopped.\<close>

lemma daemonStart_dns_fails:
  assumes "\<not> dnsListens e cfg"
  shows "case daemonStart e cfg zd of (r, zd') \<Rightarrow> \<not> drPanic r \<and> drErr r \<noteq> None \<and> zd' = zd\<lparr>odCfg := Some cfg\<rparr>"
  using Start_cases [OF new_live, of e cfg] assms by (auto simp: daemonStart_def Let_def)

lemma daemonStart_sni_fails:
  assumes "dnsListens e cfg" "deSniErr e \<noteq> None"
  shows "case daemonStart e cfg zd of (r, zd') \<Rightarrow> \<not> drPanic r \<and> drErr r \<noteq> None \<and> odCfg zd' = Some cfg
    \<and> (\<exists>h. odDns zd' = Some h \<and> stopChan h)"
proof -
  obtain log h where st: "Start (deDns e) (NewDnsHandler (NewDevDnsServer cfg) cfg) = Ret (None, log, h)" "dns_live cfg h"
    using Start_cases [OF new_live, of e cfg] assms by auto
  obtain h' where stop: "Stop h = Ret h'" "stopChan h'" using Stop_live [OF st(2)] by blast
  show ?thesis
    using assms(2) stop
    unfolding daemonStart_def Let_def st(1) outcome.case prod.case option.case
    by (auto simp: HttpStart_def NewHttpHandler_def HttpStop_def SniStart_def abandonStart_def Let_def)
qed

section \<open>Reloads\<close>

lemma reload_serves:
  assumes "serving old zd" "listens e new \<or> listens e' old"
  shows "case reload e e' new zd of (r, zd') \<Rightarrow>
    \<not> drPanic r \<and> drErr r = None \<and> serving (if listens e new then new else old) zd'"
proof -
  have old: "odCfg zd = Some old" using assms(1) by (simp add: serving_def)
  note stop = daemonStop_serving [OF assms(1)]
  obtain r1 zd1 where st: "daemonStart e new (halted (Some old)) = (r1, zd1)" by force
  show ?thesis
  proof (cases "listens e new")
    case True
    then show ?thesis
      using daemonStart_ok [OF True, of "halted (Some old)"] st stop old by (simp add: reload_def Let_def)
  next
    case False
    then have "listens e' old" using assms(2) by simp
    from daemonStart_ok [OF this, of zd1] obtain r2 zd2 where
        st2: "daemonStart e' old zd1 = (r2, zd2)" "\<not> drPanic r2" "drErr r2 = None" "serving old zd2" by force
    have "\<not> drPanic r1 \<and> drErr r1 \<noteq> None"
      using False st daemonStart_dns_fails [of e new "halted (Some old)"] daemonStart_sni_fails [of e new "halted (Some old)"]
      by (cases "dnsListens e new") (auto simp: listens_def)
    then show ?thesis using False st st2 stop old by (auto simp: reload_def Let_def)
  qed
qed


text \<open>A stopped DNS handler that the daemon still refers to.\<close>

lemma daemonStop_stale:
  assumes "odDns zd = Some h" "stopChan h"
  shows "daemonStop zd = (crashed [], zd)"
  using assms by (simp add: daemonStop_def Stop_def)


section \<open>The running system\<close>

lemma virtualSend_frame: "virtualSend conn h = Ret (Some h') \<Longrightarrow> \<exists>cs. h' = h\<lparr>VListener := (VListener h)\<lparr>conns := cs\<rparr>\<rparr>"
  by (auto simp: virtualSend_def split: if_splits)

lemma tryTunnel_frame:
  assumes "tryTunnel L e c clientIp sni hello s h = Ret (t, h')"
  shows "hhCfg h' = hhCfg h \<and> hhStop h' = hhStop h \<and> vlClosed (VListener h') = vlClosed (VListener h)"
proof -
  have "hhCfg h' = hhCfg h \<and> hhStop h' = hhStop h \<and> vlClosed (VListener h') = vlClosed (VListener h)"
    if "terminateTls e c clientIp sni hello s h = Ret (t, h')"
    using that virtualSend_frame
    by (auto simp: terminateTls_def Let_def split: option.splits sum.splits outcome.splits) (fastforce dest: virtualSend_frame)+
  then show ?thesis
    using assms unfolding tryTunnel_def Let_def
    by (cases "EvaluateDomain L sni (scFirewall (spCfg s)) = ''DENY''") (auto split: if_splits)
qed

lemma handleConnection_frame:
  assumes "handleConnection L e c upstream s h = Ret (efs, log, s', h')"
  shows "spCfg s' = spCfg s \<and> spStop s' = spStop s
    \<and> hhCfg h' = hhCfg h \<and> hhStop h' = hhStop h \<and> vlClosed (VListener h') = vlClosed (VListener h)"
  using assms
  by (auto simp: handleConnection_def Let_def release_def split: outcome.splits hello_result.splits prod.splits tunnel_end.splits
      dest!: tryTunnel_frame)

lemma handleConnection_panic: "handleConnection L e c upstream s h = Panic \<Longrightarrow> vlClosed (VListener h)"
  using readHello_total [of c "hostOf (ccRemoteAddr c)" s]
  by (auto simp: handleConnection_def tryTunnel_def Let_def split: outcome.splits hello_result.splits prod.splits tunnel_end.splits if_splits
      dest: terminateTls_panic)

text \<open>
  The traffic between reloads: the steps of the DNS handler and the HTTP proxy that neither change their
  configuration nor stop them, and those of the TLS proxy, which hands connections to the HTTP proxy.
  A reload is a step of the daemon when its listeners open for the new or for the old configuration.
\<close>

inductive traffic :: "golib \<Rightarrow> OttergateDaemon \<Rightarrow> OttergateDaemon \<Rightarrow> bool" for L :: golib where
  dns_traffic: "odDns zd = Some h \<Longrightarrow> handler_step L h l h' \<Longrightarrow> hCfg h' = hCfg h \<Longrightarrow> stopChan h' = stopChan h
    \<Longrightarrow> traffic L zd (zd\<lparr>odDns := Some h'\<rparr>)"
| http_traffic: "odHttp zd = Some h \<Longrightarrow> http_step L h h' \<Longrightarrow> hhCfg h' = hhCfg h \<Longrightarrow> hhStop h' = hhStop h
    \<Longrightarrow> vlClosed (VListener h') = vlClosed (VListener h) \<Longrightarrow> traffic L zd (zd\<lparr>odHttp := Some h'\<rparr>)"
| tls_accept: "odSni zd = Some s \<Longrightarrow> acceptTurn r s = Some s' \<Longrightarrow> traffic L zd (zd\<lparr>odSni := Some s'\<rparr>)"
| tls_connection: "odSni zd = Some s \<Longrightarrow> odHttp zd = Some h \<Longrightarrow> handleConnection L e c upstream s h = Ret (efs, log, s', h')
    \<Longrightarrow> traffic L zd (zd\<lparr>odSni := Some s', odHttp := Some h'\<rparr>)"
| tls_end: "odSni zd = Some s \<Longrightarrow> traffic L zd (zd\<lparr>odSni := Some (endTunnel c upstream s)\<rparr>)"

inductive daemon_step :: "golib \<Rightarrow> OttergateDaemon \<Rightarrow> OttergateDaemon \<Rightarrow> bool" for L :: golib where
  served: "traffic L zd zd' \<Longrightarrow> daemon_step L zd zd'"
| reloaded: "odCfg zd = Some old \<Longrightarrow> listens e new \<or> listens e' old \<Longrightarrow> reload e e' new zd = (r, zd') \<Longrightarrow> daemon_step L zd zd'"

definition daemon_init :: "OttergateDaemon \<Rightarrow> bool" where
  "daemon_init zd \<longleftrightarrow> (\<exists>e cfg r. daemonStart e cfg newDaemon = (r, zd) \<and> drErr r = None \<and> \<not> drPanic r)"

lemma daemon_init_serving:
  assumes "daemon_init zd"
  shows "\<exists>cfg. serving cfg zd"
proof -
  obtain e cfg r where st: "daemonStart e cfg newDaemon = (r, zd)" "drErr r = None" using assms by (auto simp: daemon_init_def)
  then have "listens e cfg"
    using daemonStart_dns_fails [of e cfg newDaemon] daemonStart_sni_fails [of e cfg newDaemon]
    by (cases "dnsListens e cfg"; cases "deSniErr e") (auto simp: listens_def)
  then show ?thesis using daemonStart_ok [of e cfg newDaemon] st(1) by auto
qed

lemma traffic_serving:
  assumes "traffic L zd zd'" "serving cfg zd"
  shows "serving cfg zd'"
  using assms(1)
proof cases
  case (dns_traffic h l h')
  then show ?thesis using assms(2) step_inv [of h L l h'] by (auto simp: serving_def dns_live_def)
next
  case (tls_connection s h e c upstream efs log s' h')
  then show ?thesis using assms(2) handleConnection_frame [of L e c upstream s h efs log s' h'] by (auto simp: serving_def)
qed (use assms(2) in \<open>auto simp: serving_def acceptTurn_def endTunnel_def release_def split: sum.splits if_splits\<close>)

interpretation daemon: invariant_of daemon_init "daemon_step L" "\<lambda>zd. \<exists>cfg. serving cfg zd" for L
proof
  fix zd zd'
  assume "\<exists>cfg. serving cfg zd" and step: "daemon_step L zd zd'"
  then obtain cfg where s: "serving cfg zd" by blast
  from step show "\<exists>cfg. serving cfg zd'"
  proof cases
    case served
    then show ?thesis using traffic_serving s by blast
  next
    case (reloaded old e new e' r)
    moreover from this have "old = cfg" using s by (simp add: serving_def)
    ultimately show ?thesis using reload_serves [of cfg zd e new e'] s by auto
  qed
qed (rule daemon_init_serving)


text \<open>
  C39: a stop of the daemon ends the HTTP proxy before the TLS proxy, so every reload has a moment in
  which the TLS proxy still serves and the channel to the HTTP proxy is closed: a client that then sends
  the name of a host whose TLS ends at the gateway makes the process panic.
\<close>

theorem handover_after_stop:
  assumes "HttpStop h = Ret h'" "readHello c (hostOf (ccRemoteAddr c)) s = Ret (Hello hello sni)"
    and "EvaluateDomain L sni (scFirewall (spCfg s)) \<noteq> ''DENY''" "sniFindHostConfig L (spCfg s) sni = Some hc"
    and "hcHttpProxy hc = Some hp" "hpEnabled hp" "scTls (spCfg s) = Some tc"
    and "proxyLoadTls (heReadFile e) (heKeyPair e) (heAppendCerts e) tc = Inr tlsCfg"
  shows "handleConnection L e c upstream s h' = Panic"
proof -
  have "vlClosed (VListener h')" using assms(1) by (auto simp: HttpStop_def VirtualClose_def split: if_splits)
  then show ?thesis
    using assms(2-) by (simp add: handleConnection_def tryTunnel_def terminateTls_def virtualSend_def Let_def)
qed

section \<open>A concrete daemon\<close>

definition open_env :: DaemonEnv where
  "open_env = \<lparr>deDns = \<lparr>UdpListen = Inr 53, TcpListen = None, DotListen = None, DohServe = None\<rparr>, deSecret = [7],
     deHttpErr = None, deVirtErr = None, deSniErr = None\<rparr>"

definition tls_busy_env :: DaemonEnv where
  "tls_busy_env = open_env\<lparr>deSniErr := Some ''address already in use''\<rparr>"

definition dns_busy_env :: DaemonEnv where
  "dns_busy_env = open_env\<lparr>deDns := \<lparr>UdpListen = Inl ''address already in use'', TcpListen = None, DotListen = None, DohServe = None\<rparr>\<rparr>"

definition example_daemon :: OttergateDaemon where
  "example_daemon = snd (daemonStart open_env example_accepted newDaemon)"

lemma env_listens: "listens open_env cfg" "dnsListens tls_busy_env cfg" "\<not> listens tls_busy_env cfg" "\<not> dnsListens dns_busy_env cfg"
  by (simp_all add: listens_def dnsListens_def open_env_def tls_busy_env_def dns_busy_env_def)

lemma example_daemon_start:
  obtains r where "daemonStart open_env example_accepted newDaemon = (r, example_daemon)" "drErr r = None" "\<not> drPanic r"
    "serving example_accepted example_daemon"
  using daemonStart_ok [OF env_listens(1), of example_accepted newDaemon] by (auto simp: example_daemon_def split: prod.splits)




theorem handover_after_stop_witness:
  "\<exists>h'. HttpStop (NewHttpHandler [7] example_tls_config) = Ret h'
    \<and> handleConnection example_lib (example_http_env 200) (example_tls_client ''www.a.io'') 4 (NewSniProxyService example_tls_config) h' = Panic"
proof -
  obtain h' where h': "HttpStop (NewHttpHandler [7] example_tls_config) = Ret h'" by (simp add: HttpStop_def NewHttpHandler_def)
  let ?tc = "\<lparr>tcCert = ''-----BEGIN'', tcKey = ''-----BEGIN'', tcCa = [], tcServerName = []\<rparr>" and ?s = "NewSniProxyService example_tls_config"
  let ?c = "example_tls_client ''www.a.io''" and ?e = "example_http_env 200"
  have hello: "readHello ?c (hostOf (ccRemoteAddr ?c)) ?s = Ret (Hello (record_wire (example_hello ''www.a.io'')) ''www.a.io'')"
    using readHello_record [OF example_hello_wf(1), of ?c "[0x17, 3, 3]"] by (simp add: example_tls_client_def example_hello_def)
  have cfg: "spCfg ?s = example_tls_config" "scTls example_tls_config = Some ?tc" "scFirewall example_tls_config = None"
    by (simp_all add: NewSniProxyService_def example_tls_config_def example_accepted_def example_config_def)
  have "sniFindHostConfig example_lib example_tls_config ''www.a.io'' = map_of (scHosts example_tls_config) ''www.a.io''"
    by code_simp
  then obtain hc hp where host: "sniFindHostConfig example_lib example_tls_config ''www.a.io'' = Some hc" "hcHttpProxy hc = Some hp" "hpEnabled hp"
    by (simp add: example_tls_config_def)
  obtain t where load: "proxyLoadTls (heReadFile ?e) (heKeyPair ?e) (heAppendCerts ?e) ?tc = Inr t"
    by (simp add: proxyLoadTls_def proxyTlsMaterial_def example_http_env_def)
  have "handleConnection example_lib ?e ?c 4 ?s h' = Panic"
    by (rule handover_after_stop [OF h' hello _ _ host(2,3) _ load]) (simp_all add: cfg host(1) EvaluateDomain_def)
  with h' show ?thesis by blast
qed

end
