(* ===== verification/Spec2Isabelle.thy ===== *)
theory Spec2Isabelle
  imports Firewall Cache RateLimiter Circuit Crypto Validation Daemon
begin

text \<open>
  A verification of the zero-trust gateway under \<^verbatim>\<open>src/\<close>: one process that resolves names for a
  sandbox, proxies its HTTP and TLS traffic under a firewall policy, and is reconfigured at run time
  through a control plane.

  \<^bold>\<open>The program and its parts.\<close>  \<^verbatim>\<open>main.go\<close> reads a configuration, validates it, starts a daemon of
  three servers and a control plane, and subscribes a callback that stops the daemon and starts it
  again with each accepted configuration.  The DNS handler answers configured names from its own
  table and forwards the rest to a resolver; the HTTP proxy routes plain and CONNECT requests; the
  TLS proxy reads the server name of a ClientHello and tunnels the connection or hands it to the HTTP
  proxy over a channel.  All of them ask the firewall engine and write the audit log.

  \<^bold>\<open>How Go is read.\<close>  A string is a HOL \<open>string\<close> of bytes, a \<^verbatim>\<open>[]byte\<close> a list of 8-bit words, the
  fixed-width integers of packets are words that wrap as in Go, an \<^verbatim>\<open>int\<close> is an \<open>int\<close>; a nil pointer
  is \<open>None\<close>; a map is an association list, so that its iteration order is explicit; an error is a
  value; a run-time panic is the result \<open>Panic\<close> of type \<open>outcome\<close>; an object two components share is
  passed and returned.  Clocks, random sources, files, sockets, certificates and the answers of peers
  are arguments (records such as \<open>DnsEnv\<close>, \<open>HttpEnv\<close>, \<open>ControlEnv\<close>, \<open>DaemonEnv\<close>), so a theorem holds
  for every behaviour of the outside; library code with no definition here is in the record \<open>golib\<close>,
  with its documented laws (\<open>lower_ok\<close>, \<open>gcm_ok\<close>) as hypotheses where they are needed, and \<open>example_lib\<close>
  satisfies them.  A method that takes a mutex is one step; goroutines interleave as steps of
  the relations below.  What a server does to the network or the disk is a list of effects it returns.

  \<^bold>\<open>Theories.\<close>
  \<^item> \<open>GoBase\<close>, \<open>GoNet\<close>, \<open>GoStrings\<close>, \<open>GoUrl\<close>, \<open>GoHttp\<close>, \<open>GoJson\<close>, \<open>GoHash\<close>: the standard library as far as
    the code uses it (addresses and CIDR blocks, URL parsing, headers, JSON printing, SHA-256, HMAC),
    with shared lemmas, the notion \<open>reachable\<close> and the locale \<open>invariant_of\<close>, which carries an invariant
    from the steps of a component to its reachable states.  It is interpreted for the rate limiter,
    the circuit breaker, the DNS server, the DNS handler, the HTTP proxy and the daemon.
  \<^item> \<open>Config\<close>, \<open>ConfigJson\<close> (\<^verbatim>\<open>pkg/config/types.go\<close>): the configuration and the JSON text of it.
    \<open>Validation\<close> (\<^verbatim>\<open>pkg/config/validation.go\<close>): an accepted configuration has names that fit the wire
    format, and validating it again changes nothing.
  \<^item> \<open>Firewall\<close> (\<^verbatim>\<open>pkg/firewall/firewall.go\<close>): both rule evaluations are interpretations of the locale
    \<open>decision_list\<close>; the restricted destinations are twelve CIDR blocks; when a destination is refused.
  \<^item> \<open>Wire\<close> (\<^verbatim>\<open>pkg/dns/wire.go\<close>): every writer is an interpretation of the locale \<open>byte_sink\<close>, which gives
    the bytes of a sequence of writes; readers stay in bounds, name compression ends, what is
    written is read back.  \<open>Cache\<close> (\<^verbatim>\<open>cache.go\<close>) refines the locale \<open>lru_cache\<close>: a hit returns the last
    packet stored for the key with aged lifetimes.  \<open>RateLimiter\<close> (\<^verbatim>\<open>ratelimiter.go\<close>): no client
    exceeds its limit in a window.  \<open>Dnssec\<close> (\<^verbatim>\<open>dnssec.go\<close>): what an accepted response has proved.
    \<open>DnsServer\<close> (\<^verbatim>\<open>server.go\<close>): every packet is handled in every reachable state, and a configured name
    is answered with its addresses.  \<open>DnsHandler\<close>, \<open>DnsSpelling\<close>, \<open>DnsForwarding\<close> (\<^verbatim>\<open>handler.go\<close>): the
    front ends, the random spelling of forwarded names, and the handler as the relation
    \<open>handler_step\<close>: answers reach only their client, at most once, after the checks.
  \<^item> \<open>Circuit\<close>, \<open>HttpProxy\<close>, \<open>HttpSafety\<close>, \<open>Sni\<close> (\<^verbatim>\<open>pkg/proxy\<close>): every connection the proxies open goes to
    an address the firewall accepts or to the chosen upstream proxy; loops are detected; server
    names are read safely and exactly.
  \<^item> \<open>AuditLog\<close> (\<^verbatim>\<open>pkg/audit\<close>): each record is one line whatever the clients sent.  \<open>Crypto\<close>
    (\<^verbatim>\<open>pkg/crypto/crypto.go\<close>): sealed secrets open, and only unmodified ones.
  \<^item> \<open>ControlPlane\<close> (\<^verbatim>\<open>pkg/controlplane/controlplane.go\<close>): the configuration changes only for a request
    with key, device and unused proof of work; what is stored and when it can be loaded again.
  \<^item> \<open>Daemon\<close> (\<^verbatim>\<open>main.go\<close>): starting, stopping and reloading; the three servers always serve the
    configuration of the daemon as long as its listeners open.

  The remaining theorems show behaviour the code should not have: each is a concrete reachable failure
  (a panic on a short DNSKEY, a policy passed by a cleared RD bit, a breaker that never
  closes, bytes injected into a CONNECT request, a stored configuration that cannot be loaded, races
  of a reload).

  \<^bold>\<open>Loops and bounds.\<close>  Recursion is structural or has a termination proof.  Two loops of the code
  have no bound of their own, and are partial functions whose value \<open>None\<close> means that they do not return:
  the eviction of the cache, which is shown to return from every state that satisfies the
  invariant, and the search for an unused query identifier, which returns when the random source
  offers one; at most 2000 of the 65536 identifiers are taken.  The limits of the code (4096-byte datagrams,
  2000 pending forwards, one-megabyte bodies) are the constants of the definitions.

  \<^bold>\<open>Not modelled.\<close>  \<^verbatim>\<open>pkg/controlplane/dashboard.go\<close> is one string constant with a web page, which
  the control plane sends (\<open>ceDashboard\<close>).  \<^verbatim>\<open>pkg/controlplane/docker_logs.go\<close> reads the logs of containers
  over the Docker socket; the table of container names it keeps is an argument of the
  logger.  Of \<^verbatim>\<open>main.go\<close> the command-line front end, the usage text and signal handling are left out.
  Sockets, the TLS handshake, X.509, AES-GCM, RSA and ECDSA, and reading JSON are library code and
  parameters.  Inside a method that holds its mutex the finer interleavings of Go's memory model are
  not modelled.
\<close>

end
